(* ===== verification/Nv_Prelude.thy ===== *)
theory Nv_Prelude
  imports Main "HOL-Library.Word"
begin

text \<open>
  Shared base of the development: the byte and integer types of the program, the outcome of a
  Go call (a value, an error or a panic), the state-passing combinators in which the stateful
  methods are written, Go's checked indexing and slicing, the conversion between Go strings
  and bytes, and the generic list and alignment lemmas the components use.
\<close>

unbundle bit_operations_syntax

type_synonym byte = "8 word"
type_synonym uint32 = "32 word"
type_synonym uint64 = "64 word"

named_theorems comp_simps \<open>unfolding of the state-passing combinators\<close>

section \<open>Outcomes of Go calls\<close>

datatype goerror =
    ErrInvalidEncoding
  | ErrInvalidEndianess
  | ErrInvalidData
  | ErrInvalidValue
  | ErrUnsupportedType
  | ErrEOF
  | ErrUnexpectedEOF
  | Errno uint64
  | ErrText string

datatype gopanic =
    IndexOutOfRange
  | SliceOutOfRange
  | NilMapWrite
  | NotAssignable
  | NotSettable
  | NilDereference
  | ElemOfInterfaceType
  | FailedTypeAssertion
  | ZeroValueMethod
  | PanicText string

text \<open>
  \<open>Diverge\<close> is the result of a recursion whose fuel is used up, or of a program that waits
  forever. The theorems of the encoder and the decoder show that the fuel given at the entry
  points is always enough.
\<close>

datatype 'a res = Ok 'a | Err goerror | Panic gopanic | Diverge

type_synonym ('s, 'a) comp = "'s \<Rightarrow> 'a res \<times> 's"

definition ret :: "'a \<Rightarrow> ('s, 'a) comp" where
  "ret x s = (Ok x, s)"

definition bind_comp :: "('s, 'a) comp \<Rightarrow> ('a \<Rightarrow> ('s, 'b) comp) \<Rightarrow> ('s, 'b) comp" where
  "bind_comp m f s = (case m s of
      (Ok x, s') \<Rightarrow> f x s'
    | (Err e, s') \<Rightarrow> (Err e, s')
    | (Panic p, s') \<Rightarrow> (Panic p, s')
    | (Diverge, s') \<Rightarrow> (Diverge, s'))"

text \<open>A sequence of statements, left at the first error or panic.\<close>

primrec steps :: "('s, unit) comp list \<Rightarrow> ('s, unit) comp" where
  "steps [] = ret ()"
| "steps (m # ms) = bind_comp m (\<lambda>_. steps ms)"

text \<open>A call whose error result the source drops: a panic still propagates.\<close>

definition ignore_err :: "('s, unit) comp \<Rightarrow> ('s, unit) comp" where
  "ignore_err m s = (case m s of (Err e, s') \<Rightarrow> (Ok (), s') | x \<Rightarrow> x)"

lemma ret_eq [comp_simps]: "ret x s = (Ok x, s)"
  by (simp add: ret_def)

lemma bind_comp_Ok [comp_simps]: "m s = (Ok x, s') \<Longrightarrow> bind_comp m f s = f x s'"
  by (simp add: bind_comp_def)

lemma bind_comp_Err [comp_simps]: "m s = (Err e, s') \<Longrightarrow> bind_comp m f s = (Err e, s')"
  by (simp add: bind_comp_def)

lemma bind_comp_Panic [comp_simps]: "m s = (Panic p, s') \<Longrightarrow> bind_comp m f s = (Panic p, s')"
  by (simp add: bind_comp_def)

lemma steps_append: "steps (xs @ ys) s = bind_comp (steps xs) (\<lambda>_. steps ys) s"
proof (induction xs arbitrary: s)
  case Nil
  show ?case by (simp add: bind_comp_def ret_def)
next
  case (Cons m xs)
  then show ?case by (auto simp: bind_comp_def split: prod.splits res.splits)
qed

lemma steps_append_Ok: "steps xs s = (Ok (), s') \<Longrightarrow> steps (xs @ ys) s = steps ys s'"
  by (simp add: steps_append bind_comp_def)

lemma steps_append_Err: "steps xs s = (Err e, s') \<Longrightarrow> steps (xs @ ys) s = (Err e, s')"
  by (simp add: steps_append bind_comp_def)

lemma steps_Ok_Cons [comp_simps]: "m s = (Ok (), s') \<Longrightarrow> steps (m # ms) s = steps ms s'"
  by (simp add: bind_comp_def)

lemma ignore_err_Ok [comp_simps]: "m s = (Ok (), s') \<Longrightarrow> ignore_err m s = (Ok (), s')"
  by (simp add: ignore_err_def)

text \<open>Sequencing of calls that change no state.\<close>

fun bind_res :: "'a res \<Rightarrow> ('a \<Rightarrow> 'b res) \<Rightarrow> 'b res" where
  "bind_res (Ok x) f = f x"
| "bind_res (Err e) f = Err e"
| "bind_res (Panic p) f = Panic p"
| "bind_res Diverge f = Diverge"

text \<open>Outcomes that are neither a panic nor used-up fuel.\<close>

fun safe :: "'a res \<Rightarrow> bool" where
  "safe (Ok _) = True"
| "safe (Err _) = True"
| "safe (Panic _) = False"
| "safe Diverge = False"

lemma safe_iff: "safe x \<longleftrightarrow> (\<exists>y. x = Ok y) \<or> (\<exists>e. x = Err e)"
  by (cases x) auto

section \<open>Go indexing and slicing\<close>

text \<open>Out of range, Go panics; a slice's capacity is taken to be its length.\<close>

definition go_index :: "'a list \<Rightarrow> int \<Rightarrow> 'a res" where
  "go_index xs i = (if 0 \<le> i \<and> i < int (length xs) then Ok (xs ! nat i) else Panic IndexOutOfRange)"

definition go_slice :: "'a list \<Rightarrow> int \<Rightarrow> int \<Rightarrow> 'a list res" where
  "go_slice xs lo hi =
     (if 0 \<le> lo \<and> lo \<le> hi \<and> hi \<le> int (length xs)
      then Ok (take (nat (hi - lo)) (drop (nat lo) xs)) else Panic SliceOutOfRange)"

lemma go_slice_append [simp]:
  "go_slice (pre @ xs @ post) (int (length pre)) (int (length pre) + int (length xs)) = Ok xs"
  by (simp add: go_slice_def)

section \<open>Strings and bytes\<close>

definition byte_of_char :: "char \<Rightarrow> byte" where
  "byte_of_char c = word_of_nat (of_char c)"

definition char_of_byte :: "byte \<Rightarrow> char" where
  "char_of_byte b = char_of (unat b)"

abbreviation bytes_of_string :: "string \<Rightarrow> byte list" where
  "bytes_of_string s \<equiv> map byte_of_char s"

abbreviation string_of_bytes :: "byte list \<Rightarrow> string" where
  "string_of_bytes bs \<equiv> map char_of_byte bs"

lemma char_of_byte_of_char [simp]: "char_of_byte (byte_of_char c) = c"
proof -
  have "(of_char c :: nat) < 256" using of_char_mod_256 [of c, where 'a = nat] by (metis mod_less_divisor zero_less_numeral)
  then show ?thesis by (simp add: char_of_byte_def byte_of_char_def unat_of_nat)
qed

lemma byte_of_char_of_byte [simp]: "byte_of_char (char_of_byte b) = b"
proof -
  have "unat b < 256" using unsigned_less [of b, where 'a = nat] by simp
  then show ?thesis by (simp add: char_of_byte_def byte_of_char_def)
qed

lemma string_of_bytes_of_string [simp]: "string_of_bytes (bytes_of_string s) = s"
  by (simp add: comp_def)

lemma byte_of_char_eq_0 [simp]: "byte_of_char c = 0 \<longleftrightarrow> c = CHR 0x00"
proof
  assume "byte_of_char c = 0"
  then have "c = char_of_byte 0" by (metis char_of_byte_of_char)
  then show "c = CHR 0x00" by (simp add: char_of_byte_def char_of_def)
next
  assume "c = CHR 0x00"
  then show "byte_of_char c = 0" by (simp add: byte_of_char_def)
qed

text \<open>A string that fits a null-terminated field: it holds no null byte.\<close>

definition nul_free :: "string \<Rightarrow> bool" where
  "nul_free s \<longleftrightarrow> CHR 0x00 \<notin> set s"

lemma nul_free_simps [simp]:
  "nul_free []" "nul_free (c # s) \<longleftrightarrow> c \<noteq> CHR 0x00 \<and> nul_free s"
  by (auto simp: nul_free_def)

lemma nul_free_bytes: "nul_free s \<Longrightarrow> b \<in> set (bytes_of_string s) \<Longrightarrow> b \<noteq> 0"
  by (auto simp: nul_free_def)

section \<open>Alignment\<close>

text \<open>The number of pad bytes from offset \<open>n\<close> to the next multiple of \<open>a\<close>.\<close>

definition pad_to :: "nat \<Rightarrow> nat \<Rightarrow> nat" where
  "pad_to a n = (if n mod a = 0 then 0 else a - n mod a)"

lemma pad_to_mod: "0 < a \<Longrightarrow> (n + pad_to a n) mod a = 0"
proof -
  assume a: "0 < a"
  have "n mod a \<noteq> 0 \<Longrightarrow> n + (a - n mod a) = (n div a + 1) * a"
    using mod_less_divisor [OF a, of n] div_mult_mod_eq [of n a]
    by (metis Nat.add_diff_assoc Nat.diff_add_assoc2 add.commute add_mult_distrib less_imp_le
        minus_mod_eq_div_mult mod_less_eq_dividend mult_1)
  then show ?thesis by (simp add: pad_to_def)
qed

lemma pad_to_add_mult [simp]: "pad_to a (k * a + n) = pad_to a n" "pad_to a (a + n) = pad_to a n"
  by (simp_all add: pad_to_def)

lemma pad_to_0 [simp]: "pad_to a 0 = 0"
  by (simp add: pad_to_def)

section \<open>Association lists as Go maps\<close>

text \<open>
  A Go map is an association list in the order in which \<^verbatim>\<open>MapKeys\<close> enumerates it;
  assignment overwrites the entry of a key that is present and appends one otherwise.
\<close>

fun alist_set :: "'k \<Rightarrow> 'v \<Rightarrow> ('k \<times> 'v) list \<Rightarrow> ('k \<times> 'v) list" where
  "alist_set k v [] = [(k, v)]"
| "alist_set k v ((k', v') # m) = (if k = k' then (k, v) # m else (k', v') # alist_set k v m)"

lemma map_of_alist_set: "map_of (alist_set k v m) = (map_of m)(k \<mapsto> v)"
  by (induction m) auto

lemma alist_set_new: "k \<notin> fst ` set m \<Longrightarrow> alist_set k v m = m @ [(k, v)]"
  by (induction m) auto

lemma keys_alist_set: "fst ` set (alist_set k v m) = insert k (fst ` set m)"
  by (induction k v m rule: alist_set.induct) (simp_all add: insert_commute)

lemma distinct_alist_set: "distinct (map fst m) \<Longrightarrow> distinct (map fst (alist_set k v m))"
proof (induction m)
  case Nil
  show ?case by simp
next
  case (Cons a m)
  then show ?case using keys_alist_set [of k v m] by (cases a) auto
qed

lemma fold_alist_set_distinct:
  assumes "distinct (map fst m @ map fst xs)"
  shows "fold (\<lambda>(k, v). alist_set k v) xs m = m @ xs"
  using assms
proof (induction xs arbitrary: m)
  case Nil
  show ?case by simp
next
  case (Cons x xs)
  obtain k v where x: "x = (k, v)" by (cases x)
  from Cons.prems x have "k \<notin> fst ` set m" by auto
  then have "alist_set k v m = m @ [(k, v)]" by (rule alist_set_new)
  with Cons x show ?case by simp
qed

end
