(* ===== verification/Go_Binary.thy ===== *)
theory Go_Binary
  imports Nv_Prelude
begin

text \<open>
  What the program uses of Go's \<^verbatim>\<open>encoding/binary\<close> and \<^verbatim>\<open>io\<close>: the two byte orders
  on integers of one to eight bytes, arrays of such integers, and \<^verbatim>\<open>io.ReadFull\<close>.
  An integer of \<open>n\<close> bytes is the bit pattern of its low \<open>8 * n\<close> bits in a 64-bit word.
  The locale \<open>byte_codec\<close> is the contract of a byte order; \<open>io_reader\<close> is the
  contract of a \<^verbatim>\<open>Read\<close> method over a bounded window of a buffer.
\<close>

section \<open>Byte orders\<close>

datatype byteorder = BigEndian | LittleEndian

primrec le_bytes :: "nat \<Rightarrow> uint64 \<Rightarrow> byte list" where
  "le_bytes 0 w = []"
| "le_bytes (Suc n) w = ucast w # le_bytes n (drop_bit 8 w)"

primrec le_value :: "byte list \<Rightarrow> uint64" where
  "le_value [] = 0"
| "le_value (b # bs) = ucast b OR push_bit 8 (le_value bs)"

fun put_uint :: "byteorder \<Rightarrow> nat \<Rightarrow> uint64 \<Rightarrow> byte list" where
  "put_uint LittleEndian n w = le_bytes n w"
| "put_uint BigEndian n w = rev (le_bytes n w)"

fun get_uint :: "byteorder \<Rightarrow> byte list \<Rightarrow> uint64" where
  "get_uint LittleEndian bs = le_value bs"
| "get_uint BigEndian bs = le_value (rev bs)"

text \<open>The first \<open>k\<close> pieces of \<open>n\<close> bytes each: what filling a slice of integers reads.\<close>

primrec chunks :: "nat \<Rightarrow> nat \<Rightarrow> byte list \<Rightarrow> byte list list" where
  "chunks n 0 bs = []"
| "chunks n (Suc k) bs = take n bs # chunks n k (drop n bs)"

section \<open>The contract of a byte order\<close>

locale byte_codec =
  fixes put :: "nat \<Rightarrow> uint64 \<Rightarrow> byte list"
    and get :: "byte list \<Rightarrow> uint64"
  assumes length_put: "length (put n w) = n"
    and get_put: "get (put n w) = take_bit (8 * n) w"
    and put_get: "length bs \<le> 8 \<Longrightarrow> put (length bs) (get bs) = bs"
begin

lemma get_put_fits: "take_bit (8 * n) w = w \<Longrightarrow> get (put n w) = w"
  by (simp add: get_put)

lemma length_put_array: "length (concat (map (put n) ws)) = n * length ws"
  by (induction ws) (simp_all add: length_put)

lemma chunks_put_array:
  "map get (chunks n (length ws) (concat (map (put n) ws) @ rest)) = map (take_bit (8 * n)) ws"
  by (induction ws) (simp_all add: length_put get_put)

lemma chunks_put_array_fits:
  "(\<And>w. w \<in> set ws \<Longrightarrow> take_bit (8 * n) w = w) \<Longrightarrow>
   map get (chunks n (length ws) (concat (map (put n) ws) @ rest)) = ws"
  by (simp add: chunks_put_array map_idI)

lemma put_inj: "put n v = put n w \<Longrightarrow> take_bit (8 * n) v = take_bit (8 * n) w"
  by (metis get_put)

end

lemma length_le_bytes [simp]: "length (le_bytes n w) = n"
  by (induction n arbitrary: w) simp_all

lemma ucast_ucast_byte: "(ucast (ucast (w :: uint64) :: byte) :: uint64) = take_bit 8 w"
  by (rule bit_word_eqI) (simp add: bit_simps)

lemma le_value_le_bytes: "le_value (le_bytes n w) = take_bit (8 * n) w"
proof (induction n arbitrary: w)
  case 0
  show ?case by simp
next
  case (Suc n)
  have "take_bit 8 w OR push_bit 8 (take_bit (8 * n) (drop_bit 8 w)) = take_bit (8 * Suc n) w"
    by (rule bit_word_eqI) (auto simp: bit_simps)
  with Suc show ?case by (simp add: ucast_ucast_byte)
qed

lemma le_value_byte: "(ucast (le_value (b # bs)) :: byte) = b"
  by (rule bit_word_eqI) (auto simp: bit_simps)

lemma drop_le_value:
  "length bs < 8 \<Longrightarrow> drop_bit 8 (le_value (b # bs)) = take_bit 56 (le_value bs)"
  by (rule bit_word_eqI) (auto simp: bit_simps dest: bit_imp_le_length)

lemma le_bytes_take_bit: "8 * n \<le> m \<Longrightarrow> le_bytes n (take_bit m w) = le_bytes n w"
proof (induction n arbitrary: m w)
  case 0
  show ?case by simp
next
  case (Suc n)
  have "(ucast (take_bit m w) :: byte) = ucast w"
    using Suc.prems by (intro bit_word_eqI) (auto simp: bit_simps)
  moreover have "drop_bit 8 (take_bit m w) = take_bit (m - 8) (drop_bit 8 w)"
    by (simp add: drop_bit_take_bit)
  ultimately show ?case using Suc by simp
qed

lemma le_bytes_le_value: "length bs \<le> 8 \<Longrightarrow> le_bytes (length bs) (le_value bs) = bs"
proof (induction bs)
  case Nil
  show ?case by simp
next
  case (Cons b bs)
  then have "length bs < 8" by simp
  then have "drop_bit 8 (le_value (b # bs)) = take_bit 56 (le_value bs)"
    by (rule drop_le_value)
  moreover have "le_bytes (length bs) (take_bit 56 (le_value bs)) = bs"
    using Cons by (simp add: le_bytes_take_bit)
  ultimately show ?case using le_value_byte [of b bs] by simp
qed

interpretation le: byte_codec "put_uint LittleEndian" "get_uint LittleEndian"
  by unfold_locales (simp_all add: le_value_le_bytes le_bytes_le_value)

interpretation be: byte_codec "put_uint BigEndian" "get_uint BigEndian"
proof unfold_locales
  show "length bs \<le> 8 \<Longrightarrow> put_uint BigEndian (length bs) (get_uint BigEndian bs) = bs" for bs
    using le_bytes_le_value [of "rev bs"] by simp
qed (simp_all add: le_value_le_bytes)

text \<open>The same contract for a byte order chosen at run time, as the reader's field is.\<close>

interpretation ord: byte_codec "put_uint bo" "get_uint bo" for bo
  by (cases bo) (simp_all only: le.byte_codec_axioms be.byte_codec_axioms)

lemmas put_uint_length [simp] = ord.length_put
lemmas get_put_uint [simp] = ord.get_put

section \<open>Reading\<close>

text \<open>
  A \<^verbatim>\<open>Read\<close> method, by the length of the buffer it is given: the bytes stored, the count
  it reports (which may be negative) and the error it reports.
\<close>

type_synonym 's read_method = "nat \<Rightarrow> ('s, byte list \<times> int \<times> goerror option) comp"

text \<open>
  \<^verbatim>\<open>io.ReadFull\<close>. It would call \<^verbatim>\<open>Read\<close> again after a short count with no error; the two
  \<^verbatim>\<open>Read\<close> methods of the program never report that, and the model diverges there.
\<close>

definition readFull :: "'s read_method \<Rightarrow> nat \<Rightarrow> ('s, byte list) comp" where
  "readFull rd n =
     (if n = 0 then ret []
      else bind_comp (rd n) (\<lambda>(bs, k, err) s.
        if int n \<le> k then (Ok bs, s)
        else if 0 < k \<and> err = Some ErrEOF then (Err ErrUnexpectedEOF, s)
        else (case err of Some e \<Rightarrow> (Err e, s) | None \<Rightarrow> (Diverge, s))))"

text \<open>
  \<open>pos\<close> and \<open>lim\<close> bound the window of \<open>buf\<close> that is left to read; \<open>adv\<close> is the state
  after the given number of bytes.
\<close>

locale io_reader =
  fixes rd :: "'s read_method"
    and buf :: "'s \<Rightarrow> byte list"
    and pos :: "'s \<Rightarrow> int"
    and lim :: "'s \<Rightarrow> int"
    and adv :: "int \<Rightarrow> 's \<Rightarrow> 's"
    and inv :: "'s \<Rightarrow> bool"
  assumes rd_full: "inv s \<Longrightarrow> 0 < n \<Longrightarrow> pos s + int n \<le> lim s \<Longrightarrow>
      \<exists>err. rd n s = (Ok (take n (drop (nat (pos s)) (buf s)), int n, err), adv (int n) s)"
    and rd_short: "inv s \<Longrightarrow> 0 < n \<Longrightarrow> lim s < pos s + int n \<Longrightarrow>
      \<exists>bs. rd n s = (Ok (bs, lim s - pos s, Some ErrEOF), adv (lim s - pos s) s)"
    and adv_0: "adv 0 s = s"
begin

lemma readFull_full:
  assumes "inv s" and "pos s + int n \<le> lim s"
  shows "readFull rd n s = (Ok (take n (drop (nat (pos s)) (buf s))), adv (int n) s)"
proof (cases "n = 0")
  case True
  then show ?thesis by (simp add: readFull_def ret_def adv_0)
next
  case False
  then obtain err where
    "rd n s = (Ok (take n (drop (nat (pos s)) (buf s)), int n, err), adv (int n) s)"
    using rd_full assms by blast
  then show ?thesis using False by (simp add: readFull_def bind_comp_def)
qed

lemma readFull_short:
  assumes "inv s" and "0 < n" and "lim s < pos s + int n"
  shows "readFull rd n s =
     (Err (if pos s < lim s then ErrUnexpectedEOF else ErrEOF), adv (lim s - pos s) s)"
proof -
  obtain bs where "rd n s = (Ok (bs, lim s - pos s, Some ErrEOF), adv (lim s - pos s) s)"
    using rd_short assms by blast
  then show ?thesis using assms by (simp add: readFull_def bind_comp_def)
qed

lemma readFull_safe: "inv s \<Longrightarrow> safe (fst (readFull rd n s))"
  using readFull_full [of s n] readFull_short [of s n] by (cases "pos s + int n \<le> lim s"; cases "n = 0")
    (auto simp: readFull_def ret_def)

lemma readFull_OkD:
  assumes "inv s" and "readFull rd n s = (Ok bs, s')" and "0 < n"
  shows "pos s + int n \<le> lim s" and "bs = take n (drop (nat (pos s)) (buf s))"
    and "s' = adv (int n) s"
  using readFull_full [of s n] readFull_short [of s n] assms by (force simp: not_le)+

end

end
