(* ===== verification/Go_Reflect.thy ===== *)
theory Go_Reflect
  imports Go_Binary
begin

text \<open>
  The part of Go's type system and of package \<^verbatim>\<open>reflect\<close> that the nvlist codec works on:
  kinds, types with defined names and struct tags, values, assignability and zero values, and
  the two helpers \<^verbatim>\<open>unpackVal\<close>, \<^verbatim>\<open>unpackType\<close> and \<^verbatim>\<open>isEmptyValue\<close> of
  \<^verbatim>\<open>nvlist/encoder.go\<close>. Struct fields are exported (every struct the program encodes or
  decodes has exported fields only) and interface types are the empty interface.
\<close>

section \<open>Kinds and types\<close>

datatype gkind =
    KInvalid | KBool | KInt | KInt8 | KInt16 | KInt32 | KInt64
  | KUint | KUint8 | KUint16 | KUint32 | KUint64 | KUintptr
  | KFloat32 | KFloat64 | KComplex64 | KComplex128
  | KArray | KChan | KFunc | KInterface | KMap | KPtr | KSlice | KString | KStruct
  | KUnsafePointer

text \<open>
  \<open>TBasic\<close> is a predeclared type, \<open>TNamed\<close> a defined type with its underlying type and
  \<open>TRec\<close> a reference from inside a defined type to that type itself (below a pointer, slice
  or map), of which only the name and the kind are kept. A struct field is its name, the value
  of its \<^verbatim>\<open>nvlist\<close> tag (empty if absent) and its type.
\<close>

datatype gotype =
    TBasic gkind
  | TNamed string gotype
  | TRec string gkind
  | TMap gotype gotype
  | TSlice gotype
  | TArray nat gotype
  | TPtr gotype
  | TIface
  | TStruct "(string \<times> string \<times> gotype) list"

fun underlying :: "gotype \<Rightarrow> gotype" where
  "underlying (TNamed n T) = underlying T"
| "underlying T = T"

fun kind :: "gotype \<Rightarrow> gkind" where
  "kind (TBasic k) = k"
| "kind (TNamed n T) = kind T"
| "kind (TRec n k) = k"
| "kind (TMap k e) = KMap"
| "kind (TSlice e) = KSlice"
| "kind (TArray n e) = KArray"
| "kind (TPtr e) = KPtr"
| "kind TIface = KInterface"
| "kind (TStruct fs) = KStruct"

text \<open>\<^verbatim>\<open>Type.hasName\<close>: the predeclared and the defined types.\<close>

fun has_name :: "gotype \<Rightarrow> bool" where
  "has_name (TBasic k) = True"
| "has_name (TNamed n T) = True"
| "has_name (TRec n k) = True"
| "has_name T = False"

text \<open>\<^verbatim>\<open>reflect\<close>'s rule for \<^verbatim>\<open>Set\<close> and \<^verbatim>\<open>SetMapIndex\<close>: may a value of type \<open>V\<close> be stored at type \<open>T\<close>?\<close>

definition assignable :: "gotype \<Rightarrow> gotype \<Rightarrow> bool" where
  "assignable V T \<longleftrightarrow>
     V = T \<or> kind T = KInterface \<or>
     (\<not> (has_name T \<and> has_name V) \<and> kind T = kind V \<and> underlying T = underlying V)"

text \<open>Bytes of a fixed-size number kind, as \<^verbatim>\<open>encoding/binary\<close> lays it out.\<close>

fun kind_size :: "gkind \<Rightarrow> nat" where
  "kind_size KInt8 = 1" | "kind_size KUint8 = 1"
| "kind_size KInt16 = 2" | "kind_size KUint16 = 2"
| "kind_size KInt32 = 4" | "kind_size KUint32 = 4"
| "kind_size KInt64 = 8" | "kind_size KUint64 = 8"
| "kind_size KFloat64 = 8" | "kind_size KFloat32 = 4"
| "kind_size _ = 0"

abbreviation "TBool \<equiv> TBasic KBool"
abbreviation "TString \<equiv> TBasic KString"
abbreviation "TInt32 \<equiv> TBasic KInt32"
abbreviation "TInt64 \<equiv> TBasic KInt64"
abbreviation "TUint8 \<equiv> TBasic KUint8"
abbreviation "TUint64 \<equiv> TBasic KUint64"

text \<open>\<^verbatim>\<open>map[string]interface{}\<close>\<close>

abbreviation "TAnyMap \<equiv> TMap TString TIface"

section \<open>Values\<close>

text \<open>
  \<open>VInvalid\<close> is the zero \<^verbatim>\<open>reflect.Value\<close>. A number is the bit pattern of its type's
  width, zero-extended to 64 bits. A map is \<open>None\<close> when nil; the keys of a map whose key kind
  is not string are opaque names. \<open>VOther\<close> stands for channels, functions and the like.
\<close>

datatype gval =
    VInvalid
  | VBool gotype bool
  | VNum gotype uint64
  | VString gotype string
  | VMap gotype "(string \<times> gval) list option"
  | VStruct gotype "gval list"
  | VSlice gotype "gval list"
  | VArray gotype "gval list"
  | VPtr gotype "gval option"
  | VIface "gval option"
  | VOther gotype

fun kind_of :: "gval \<Rightarrow> gkind" where
  "kind_of VInvalid = KInvalid"
| "kind_of (VBool T b) = KBool"
| "kind_of (VNum T w) = kind T"
| "kind_of (VString T s) = KString"
| "kind_of (VMap T m) = KMap"
| "kind_of (VStruct T vs) = KStruct"
| "kind_of (VSlice T vs) = KSlice"
| "kind_of (VArray T vs) = KArray"
| "kind_of (VPtr T p) = KPtr"
| "kind_of (VIface p) = KInterface"
| "kind_of (VOther T) = kind T"

fun typ_of :: "gval \<Rightarrow> gotype" where
  "typ_of VInvalid = TBasic KInvalid"
| "typ_of (VBool T b) = T"
| "typ_of (VNum T w) = T"
| "typ_of (VString T s) = T"
| "typ_of (VMap T m) = T"
| "typ_of (VStruct T vs) = T"
| "typ_of (VSlice T vs) = T"
| "typ_of (VArray T vs) = T"
| "typ_of (VPtr T p) = T"
| "typ_of (VIface p) = TIface"
| "typ_of (VOther T) = T"

fun retype :: "gotype \<Rightarrow> gval \<Rightarrow> gval" where
  "retype T (VBool _ b) = VBool T b"
| "retype T (VNum _ w) = VNum T w"
| "retype T (VString _ s) = VString T s"
| "retype T (VMap _ m) = VMap T m"
| "retype T (VStruct _ vs) = VStruct T vs"
| "retype T (VSlice _ vs) = VSlice T vs"
| "retype T (VArray _ vs) = VArray T vs"
| "retype T (VPtr _ p) = VPtr T p"
| "retype T (VOther _) = VOther T"
| "retype T v = v"

text \<open>The value stored at a location of type \<open>T\<close> by an assignment: an interface wraps it.\<close>

definition assign_to :: "gotype \<Rightarrow> gval \<Rightarrow> gval res" where
  "assign_to T v =
     (if \<not> assignable (typ_of v) T then Panic NotAssignable
      else if kind T = KInterface then Ok (VIface (Some v))
      else Ok (retype T v))"

fun zero_value :: "gotype \<Rightarrow> gval" where
  "zero_value (TBasic k) =
     (if k = KBool then VBool (TBasic k) False
      else if k = KString then VString (TBasic k) []
      else if k \<in> {KComplex64, KComplex128, KUnsafePointer} then VOther (TBasic k)
      else VNum (TBasic k) 0)"
| "zero_value (TNamed n T) = retype (TNamed n T) (zero_value T)"
| "zero_value (TRec n k) = VOther (TRec n k)"
| "zero_value (TMap k e) = VMap (TMap k e) None"
| "zero_value (TSlice e) = VSlice (TSlice e) []"
| "zero_value (TArray n e) = VArray (TArray n e) (replicate n (zero_value e))"
| "zero_value (TPtr e) = VPtr (TPtr e) None"
| "zero_value TIface = VIface None"
| "zero_value (TStruct fs) = VStruct (TStruct fs) (map (\<lambda>(n, t, T). zero_value T) fs)"

text \<open>\<^verbatim>\<open>Type.Elem\<close> and the fields of a struct type, where they exist.\<close>

fun elem_type :: "gotype \<Rightarrow> gotype" where
  "elem_type (TNamed n T) = elem_type T"
| "elem_type (TMap k e) = e"
| "elem_type (TSlice e) = e"
| "elem_type (TArray n e) = e"
| "elem_type (TPtr e) = e"
| "elem_type T = TBasic KInvalid"

fun key_type :: "gotype \<Rightarrow> gotype" where
  "key_type (TNamed n T) = key_type T"
| "key_type (TMap k e) = k"
| "key_type T = TBasic KInvalid"

fun struct_fields :: "gotype \<Rightarrow> (string \<times> string \<times> gotype) list" where
  "struct_fields (TNamed n T) = struct_fields T"
| "struct_fields (TStruct fs) = fs"
| "struct_fields T = []"

fun map_entries :: "gval \<Rightarrow> (string \<times> gval) list" where
  "map_entries (VMap T (Some m)) = m"
| "map_entries v = []"

fun val_elems :: "gval \<Rightarrow> gval list" where
  "val_elems (VSlice T vs) = vs"
| "val_elems (VArray T vs) = vs"
| "val_elems v = []"

text \<open>\<^verbatim>\<open>Value.Bool\<close> panics on any other kind; \<^verbatim>\<open>Value.String\<close> describes it instead.\<close>

fun val_bool :: "gval \<Rightarrow> bool res" where
  "val_bool (VBool T b) = Ok b"
| "val_bool v = Panic ZeroValueMethod"

fun type_name :: "gotype \<Rightarrow> string" where
  "type_name (TNamed n T) = n"
| "type_name (TRec n k) = n"
| "type_name T = []"

fun val_string :: "gval \<Rightarrow> string" where
  "val_string (VString T s) = s"
| "val_string VInvalid = ''<invalid Value>''"
| "val_string v = ''<'' @ type_name (typ_of v) @ '' Value>''"

section \<open>Helpers of the encoder\<close>

text \<open>\<^verbatim>\<open>strings.Split(s, ",")\<close>\<close>

fun split_comma :: "string \<Rightarrow> string list" where
  "split_comma [] = [[]]"
| "split_comma (c # s) =
     (if c = CHR '','' then [] # split_comma s
      else (case split_comma s of [] \<Rightarrow> [[c]] | p # ps \<Rightarrow> (c # p) # ps))"

text \<open>One pointer is followed, then one interface; a nil one gives the zero Value.\<close>

definition unpack_ptr :: "gval \<Rightarrow> gval" where
  "unpack_ptr v = (case v of VPtr T None \<Rightarrow> VInvalid | VPtr T (Some x) \<Rightarrow> x | _ \<Rightarrow> v)"

definition unpack_iface :: "gval \<Rightarrow> gval" where
  "unpack_iface v = (case v of VIface None \<Rightarrow> VInvalid | VIface (Some x) \<Rightarrow> x | _ \<Rightarrow> v)"

definition unpackVal :: "gval \<Rightarrow> gval" where
  "unpackVal v = unpack_iface (unpack_ptr v)"

definition unpackType :: "gotype \<Rightarrow> gotype res" where
  "unpackType t =
     (let t = (if kind t = KPtr then elem_type t else t)
      in if kind t = KInterface then Panic ElemOfInterfaceType else Ok t)"

definition float_is_zero :: "gkind \<Rightarrow> uint64 \<Rightarrow> bool" where
  "float_is_zero k w \<longleftrightarrow> take_bit (8 * kind_size k - 1) w = 0"

fun isEmptyValue :: "gval \<Rightarrow> bool" where
  "isEmptyValue (VArray T vs) = (vs = [])"
| "isEmptyValue (VMap T m) = (map_entries (VMap T m) = [])"
| "isEmptyValue (VSlice T vs) = (vs = [])"
| "isEmptyValue (VString T s) = (s = [])"
| "isEmptyValue (VBool T b) = (\<not> b)"
| "isEmptyValue (VNum T w) =
     (if kind T \<in> {KFloat32, KFloat64} then float_is_zero (kind T) w
      else if kind T \<in> {KInt, KInt8, KInt16, KInt32, KInt64,
                         KUint, KUint8, KUint16, KUint32, KUint64, KUintptr} then w = 0
      else False)"
| "isEmptyValue (VIface p) = (p = None)"
| "isEmptyValue (VPtr T p) = (p = None)"
| "isEmptyValue v = False"

section \<open>Lemmas\<close>

lemma kind_underlying [simp]: "kind (underlying T) = kind T"
  by (induction T rule: underlying.induct) simp_all

lemma assignable_refl [simp]: "assignable T T"
  by (simp add: assignable_def)

lemma assignable_iface [simp]: "assignable T TIface"
  by (simp add: assignable_def)

lemma assign_to_iface [simp]: "assign_to TIface v = Ok (VIface (Some v))"
  by (simp add: assign_to_def)

lemma retype_typ_of [simp]: "retype (typ_of v) v = v"
  by (cases v) simp_all

lemma split_comma_nonempty [simp]: "split_comma s \<noteq> []"
  by (induction s) (auto split: list.splits)

lemma split_comma_plain: "CHR '','' \<notin> set s \<Longrightarrow> split_comma s = [s]"
  by (induction s) auto

text \<open>Unpacking a value never makes it larger, and reaches below one level.\<close>

lemma size_unpackVal: "size (unpackVal v) \<le> size v"
proof -
  have "size (unpack_ptr v) \<le> size v" for v
    by (auto simp: unpack_ptr_def split: gval.splits option.splits)
  moreover have "size (unpack_iface v) \<le> size v" for v
    by (auto simp: unpack_iface_def split: gval.splits option.splits)
  ultimately show ?thesis unfolding unpackVal_def by (meson le_trans)
qed

end
