(* ===== verification/Nv_Types.thy ===== *)
theory Nv_Types
  imports Go_Reflect
begin

text \<open>
  The constants and wire structs of the nvlist package: \<^verbatim>\<open>nvlist/consts.go\<close>,
  \<^verbatim>\<open>nvlist/types.go\<close> and the encoding constants of \<^verbatim>\<open>nvlist/decode.go\<close>. An
  \<^verbatim>\<open>nvtype\<close> is a 32-bit number, since the decoder meets any number on the wire.
\<close>

type_synonym nvtype = uint32

definition typeUnknown :: nvtype where "typeUnknown = 0"
definition typeBoolean :: nvtype where "typeBoolean = 1"
definition typeByte :: nvtype where "typeByte = 2"
definition typeInt16 :: nvtype where "typeInt16 = 3"
definition typeUint16 :: nvtype where "typeUint16 = 4"
definition typeInt32 :: nvtype where "typeInt32 = 5"
definition typeUint32 :: nvtype where "typeUint32 = 6"
definition typeInt64 :: nvtype where "typeInt64 = 7"
definition typeUint64 :: nvtype where "typeUint64 = 8"
definition typeString :: nvtype where "typeString = 9"
definition typeByteArray :: nvtype where "typeByteArray = 10"
definition typeInt16Array :: nvtype where "typeInt16Array = 11"
definition typeUint16Array :: nvtype where "typeUint16Array = 12"
definition typeInt32Array :: nvtype where "typeInt32Array = 13"
definition typeUint32Array :: nvtype where "typeUint32Array = 14"
definition typeInt64Array :: nvtype where "typeInt64Array = 15"
definition typeUint64Array :: nvtype where "typeUint64Array = 16"
definition typeStringArray :: nvtype where "typeStringArray = 17"
definition typeHrtime :: nvtype where "typeHrtime = 18"
definition typeNvlist :: nvtype where "typeNvlist = 19"
definition typeNvlistArray :: nvtype where "typeNvlistArray = 20"
definition typeBooleanValue :: nvtype where "typeBooleanValue = 21"
definition typeInt8 :: nvtype where "typeInt8 = 22"
definition typeUint8 :: nvtype where "typeUint8 = 23"
definition typeBooleanArray :: nvtype where "typeBooleanArray = 24"
definition typeInt8Array :: nvtype where "typeInt8Array = 25"
definition typeUint8Array :: nvtype where "typeUint8Array = 26"
definition typeDouble :: nvtype where "typeDouble = 27"

lemmas nvtype_defs =
  typeUnknown_def typeBoolean_def typeByte_def typeInt16_def typeUint16_def typeInt32_def
  typeUint32_def typeInt64_def typeUint64_def typeString_def typeByteArray_def
  typeInt16Array_def typeUint16Array_def typeInt32Array_def typeUint32Array_def
  typeInt64Array_def typeUint64Array_def typeStringArray_def typeHrtime_def typeNvlist_def
  typeNvlistArray_def typeBooleanValue_def typeInt8_def typeUint8_def typeBooleanArray_def
  typeInt8Array_def typeUint8Array_def typeDouble_def

definition nvlistHeaderSize :: nat where "nvlistHeaderSize = 16"
definition uniqueNameFlag :: uint32 where "uniqueNameFlag = 1"

datatype encoding = EncodingNative | EncodingXDR

definition bigEndian :: byte where "bigEndian = 0"
definition littleEndian :: byte where "littleEndian = 1"

fun encoding_byte :: "encoding \<Rightarrow> byte" where
  "encoding_byte EncodingNative = 0"
| "encoding_byte EncodingXDR = 1"

record nvpair =
  nvp_Size :: "32 word"
  nvp_Name_sz :: "16 word"
  nvp_Reserve :: "16 word"
  nvp_Value_elem :: "32 word"
  nvp_Type :: nvtype

record nvlist_hdr =
  nvl_Version :: "32 word"
  nvl_Nvflag :: "32 word"
  nvl_Priv :: "64 word"
  nvl_Flag :: "32 word"
  nvl_Pad :: "32 word"

fun nvtypeFromKindMap :: "gkind \<Rightarrow> nvtype option" where
  "nvtypeFromKindMap KBool = Some typeBooleanValue"
| "nvtypeFromKindMap KInt8 = Some typeInt8"
| "nvtypeFromKindMap KInt16 = Some typeInt16"
| "nvtypeFromKindMap KInt32 = Some typeInt32"
| "nvtypeFromKindMap KInt64 = Some typeInt64"
| "nvtypeFromKindMap KUint8 = Some typeByte"
| "nvtypeFromKindMap KUint16 = Some typeUint16"
| "nvtypeFromKindMap KUint32 = Some typeUint32"
| "nvtypeFromKindMap KUint64 = Some typeUint64"
| "nvtypeFromKindMap KFloat64 = Some typeDouble"
| "nvtypeFromKindMap KMap = Some typeNvlist"
| "nvtypeFromKindMap KString = Some typeString"
| "nvtypeFromKindMap KStruct = Some typeNvlist"
| "nvtypeFromKindMap _ = None"

fun nvtypeFromArrayKindMap :: "gkind \<Rightarrow> nvtype option" where
  "nvtypeFromArrayKindMap KBool = Some typeBooleanArray"
| "nvtypeFromArrayKindMap KInt8 = Some typeInt8Array"
| "nvtypeFromArrayKindMap KInt16 = Some typeInt16Array"
| "nvtypeFromArrayKindMap KInt32 = Some typeInt32Array"
| "nvtypeFromArrayKindMap KInt64 = Some typeInt64Array"
| "nvtypeFromArrayKindMap KUint8 = Some typeByteArray"
| "nvtypeFromArrayKindMap KUint16 = Some typeUint16Array"
| "nvtypeFromArrayKindMap KUint32 = Some typeUint32Array"
| "nvtypeFromArrayKindMap KUint64 = Some typeUint64Array"
| "nvtypeFromArrayKindMap KMap = Some typeNvlistArray"
| "nvtypeFromArrayKindMap KString = Some typeStringArray"
| "nvtypeFromArrayKindMap KStruct = Some typeNvlistArray"
| "nvtypeFromArrayKindMap _ = None"

definition nvtypeFromKind :: "gkind \<Rightarrow> nvtype" where
  "nvtypeFromKind k = (case nvtypeFromKindMap k of None \<Rightarrow> typeUnknown | Some t \<Rightarrow> t)"

definition nvtypeFromArrayKind :: "gkind \<Rightarrow> nvtype" where
  "nvtypeFromArrayKind k = (case nvtypeFromArrayKindMap k of None \<Rightarrow> typeUnknown | Some t \<Rightarrow> t)"

text \<open>The integer kinds the encoder writes in arrays, and with \<^verbatim>\<open>float64\<close> as scalars.\<close>

definition int_kinds :: "gkind list" where
  "int_kinds = [KInt8, KUint8, KInt16, KUint16, KInt32, KUint32, KInt64, KUint64]"

definition num_kinds :: "gkind list" where
  "num_kinds = int_kinds @ [KFloat64]"

end
