(* ===== verification/Nv_Decoder.thy ===== *)
theory Nv_Decoder
  imports Nv_Types
begin

text \<open>
  Model of \<^verbatim>\<open>nvlist/decode.go\<close>: the readers \<^verbatim>\<open>nvlistReader\<close> and
  \<^verbatim>\<open>nvPairReader\<close> with their methods, and \<^verbatim>\<open>Unmarshal\<close>. Positions are mathematical
  integers (they stay far below \<open>2 ^ 63\<close>). A pair reader holds a pointer to its list reader,
  which is passed as the first argument. The target of decoding is a Go value, returned as the
  decoding left it, also after an error; \<open>st\<close> tells whether the target is settable.
  The recursion of \<^verbatim>\<open>readPairs\<close> has a fuel argument, one unit for each pair read;
  \<^verbatim>\<open>Unmarshal\<close> starts it with one more than the number of bytes, which is enough
  (\<open>Unmarshal_terminates\<close> in \<open>Nv_Decoder_Safe\<close>).
\<close>

section \<open>The list reader\<close>

record nvlistReader =
  r_nvlist :: "byte list"
  r_currentByte :: int
  r_endianness :: "byteorder option"
  r_encoding :: encoding
  r_flags :: uint32
  r_version :: "32 word"

definition fail :: "goerror \<Rightarrow> ('s, 'a) comp" where
  "fail e s = (Err e, s)"

definition lift_res :: "'a res \<Rightarrow> ('s, 'a) comp" where
  "lift_res x s = (x, s)"

text \<open>The copy loop of the two \<^verbatim>\<open>Read\<close> methods.\<close>

definition go_copy :: "byte list \<Rightarrow> int \<Rightarrow> int \<Rightarrow> byte list res" where
  "go_copy xs lo n =
     (if n \<le> 0 then Ok []
      else if 0 \<le> lo \<and> lo + n \<le> int (length xs) then Ok (take (nat n) (drop (nat lo) xs))
      else Panic IndexOutOfRange)"

definition r_ReadByte :: "(nvlistReader, byte) comp" where
  "r_ReadByte r =
     (if r_currentByte r < int (length (r_nvlist r)) then
        bind_comp (lift_res (go_index (r_nvlist r) (r_currentByte r)))
          (\<lambda>val r. (Ok val, r\<lparr>r_currentByte := r_currentByte r + 1\<rparr>)) r
      else (Err ErrInvalidData, r))"

definition r_Read :: "nvlistReader read_method" where
  "r_Read len r =
     (let short = \<not> (r_currentByte r + int len < int (length (r_nvlist r)));
          n = (if short then int (length (r_nvlist r)) - r_currentByte r else int len);
          err = (if short then Some ErrEOF else None)
      in bind_comp (lift_res (go_copy (r_nvlist r) (r_currentByte r) n))
           (\<lambda>p r. (Ok (p, n, err), r\<lparr>r_currentByte := r_currentByte r + n\<rparr>)) r)"

definition r_skipN :: "int \<Rightarrow> (nvlistReader, unit) comp" where
  "r_skipN n r = (Ok (), r\<lparr>r_currentByte := r_currentByte r + n\<rparr>)"

text \<open>\<^verbatim>\<open>binary.Read\<close> into an integer of \<open>n\<close> bytes, as its bit pattern.\<close>

definition r_readInt :: "nat \<Rightarrow> (nvlistReader, uint64) comp" where
  "r_readInt n r =
     bind_comp (readFull r_Read n)
       (\<lambda>bs r. case r_endianness r of
          None \<Rightarrow> (Panic NilDereference, r) | Some bo \<Rightarrow> (Ok (get_uint bo bs), r)) r"

definition set_encoding :: "byte \<Rightarrow> (nvlistReader, unit) comp" where
  "set_encoding b r =
     (if b = encoding_byte EncodingNative then (Ok (), r\<lparr>r_encoding := EncodingNative\<rparr>)
      else if b = encoding_byte EncodingXDR then (Ok (), r\<lparr>r_encoding := EncodingXDR\<rparr>)
      else (Err ErrInvalidEncoding, r))"

definition set_endianness :: "byte \<Rightarrow> (nvlistReader, unit) comp" where
  "set_endianness b r =
     (if b = bigEndian then (Ok (), r\<lparr>r_endianness := Some BigEndian\<rparr>)
      else if b = littleEndian then (Ok (), r\<lparr>r_endianness := Some LittleEndian\<rparr>)
      else (Err ErrInvalidEndianess, r))"

definition readNvHeader :: "(nvlistReader, unit) comp" where
  "readNvHeader =
     steps [bind_comp r_ReadByte set_encoding,
            bind_comp r_ReadByte set_endianness,
            r_skipN 2,
            bind_comp (r_readInt 4) (\<lambda>x r. (Ok (), r\<lparr>r_version := ucast x\<rparr>)),
            bind_comp (r_readInt 4) (\<lambda>x r. (Ok (), r\<lparr>r_flags := ucast x\<rparr>))]"

section \<open>The pair reader\<close>

record nvPairReader =
  p_startByte :: int
  p_sizeBytes :: int
  p_currentByte :: int

definition p_limit :: "nvPairReader \<Rightarrow> int" where
  "p_limit p = p_startByte p + p_sizeBytes p"

definition p_ReadByte :: "nvlistReader \<Rightarrow> (nvPairReader, byte) comp" where
  "p_ReadByte r p =
     (if p_currentByte p \<le> p_limit p then
        bind_comp (lift_res (go_index (r_nvlist r) (p_currentByte p)))
          (\<lambda>val p. (Ok val, p\<lparr>p_currentByte := p_currentByte p + 1\<rparr>)) p
      else (Err ErrInvalidData, p))"

text \<open>The search loop of \<^verbatim>\<open>ReadBytes\<close>: the position of the delimiter up to \<open>lim\<close>.\<close>

function find_delim :: "byte list \<Rightarrow> byte \<Rightarrow> int \<Rightarrow> int \<Rightarrow> int option res" where
  "find_delim xs delim lim cur =
     (if cur \<le> lim then
        (case go_index xs cur of
           Ok b \<Rightarrow> if b = delim then Ok (Some cur) else find_delim xs delim lim (cur + 1)
         | Err e \<Rightarrow> Err e | Panic p \<Rightarrow> Panic p | Diverge \<Rightarrow> Diverge)
      else Ok None)"
  by pat_completeness auto
termination
  by (relation "measure (\<lambda>(xs, delim, lim, cur). nat (lim + 1 - cur))") auto

declare find_delim.simps [simp del]

definition p_ReadBytes :: "nvlistReader \<Rightarrow> byte \<Rightarrow> (nvPairReader, byte list) comp" where
  "p_ReadBytes r delim p =
     (let startByte = p_currentByte p in
      bind_comp (lift_res (find_delim (r_nvlist r) delim (p_limit p) startByte))
        (\<lambda>found p. case found of
            Some cur \<Rightarrow> (go_slice (r_nvlist r) startByte (cur + 1), p\<lparr>p_currentByte := cur + 1\<rparr>)
          | None \<Rightarrow> (Err ErrInvalidData,
                      p\<lparr>p_currentByte := max startByte (p_limit p + 1)\<rparr>)) p)"

definition p_readN :: "nvlistReader \<Rightarrow> int \<Rightarrow> (nvPairReader, byte list) comp" where
  "p_readN r n p =
     (if p_currentByte p + n \<le> p_limit p then
        bind_comp (lift_res (go_slice (r_nvlist r) (p_currentByte p) (p_currentByte p + n)))
          (\<lambda>val p. (Ok val, p\<lparr>p_currentByte := p_currentByte p + n\<rparr>)) p
      else (Err ErrInvalidData, p))"

definition p_Read :: "nvlistReader \<Rightarrow> nvPairReader read_method" where
  "p_Read r len p =
     (let short = \<not> (p_currentByte p + int len \<le> p_limit p);
          n = (if short then p_limit p - p_currentByte p else int len);
          err = (if short then Some ErrEOF else None)
      in bind_comp (lift_res (go_copy (r_nvlist r) (p_currentByte p) n))
           (\<lambda>bs p. (Ok (bs, n, err), p\<lparr>p_currentByte := p_currentByte p + n\<rparr>)) p)"

definition p_readInt :: "nvlistReader \<Rightarrow> nat \<Rightarrow> (nvPairReader, uint64) comp" where
  "p_readInt r n =
     bind_comp (readFull (p_Read r) n)
       (\<lambda>bs. case r_endianness r of
          None \<Rightarrow> lift_res (Panic NilDereference) | Some bo \<Rightarrow> ret (get_uint bo bs))"

fun alignment :: "encoding \<Rightarrow> int" where
  "alignment EncodingNative = 8"
| "alignment EncodingXDR = 4"

text \<open>The offset is never negative, so Go's remainder is \<open>mod\<close>.\<close>

definition p_skipToAlign :: "nvlistReader \<Rightarrow> (nvPairReader, unit) comp" where
  "p_skipToAlign r p =
     (let al = alignment (r_encoding r); off = (p_currentByte p - p_startByte p) mod al
      in (Ok (), if off \<noteq> 0 then p\<lparr>p_currentByte := p_currentByte p + (al - off)\<rparr> else p))"

definition p_skipN :: "int \<Rightarrow> (nvPairReader, unit) comp" where
  "p_skipN n p = (Ok (), p\<lparr>p_currentByte := p_currentByte p + n\<rparr>)"

section \<open>One pair: header and name\<close>

abbreviation int32_of :: "uint64 \<Rightarrow> int" where
  "int32_of x \<equiv> sint (ucast x :: 32 word)"

abbreviation int16_of :: "uint64 \<Rightarrow> int" where
  "int16_of x \<equiv> sint (ucast x :: 16 word)"

definition read_pair_fields :: "nvlistReader \<Rightarrow> uint64 \<Rightarrow> (nvPairReader, nvpair \<times> string) comp" where
  "read_pair_fields r sz =
     bind_comp (p_readInt r 2) (\<lambda>name_sz.
       if int16_of name_sz \<le> 0 then fail ErrInvalidData
       else bind_comp (p_readInt r 2) (\<lambda>reserve.
         bind_comp (p_readInt r 4) (\<lambda>value_elem.
           if int32_of value_elem < 0 then fail ErrInvalidData
           else if int32_of value_elem > 65535 then fail ErrInvalidData
           else bind_comp (p_readInt r 4) (\<lambda>ty.
             bind_comp (p_readN r (int16_of name_sz)) (\<lambda>nameRaw.
               bind_comp (lift_res (go_slice nameRaw 0 (int (length nameRaw) - 1))) (\<lambda>name.
                 bind_comp (p_skipToAlign r) (\<lambda>_.
                   ret (\<lparr>nvp_Size = ucast sz, nvp_Name_sz = ucast name_sz,
                         nvp_Reserve = ucast reserve, nvp_Value_elem = ucast value_elem,
                         nvp_Type = ucast ty\<rparr>, string_of_bytes name))))))))"

text \<open>
  Reading the header of the next pair: \<open>None\<close> at the end of the list. The list reader moves to
  the next pair before the fields of this one are read.
\<close>

definition skip_pair :: "int \<Rightarrow> nvlistReader \<Rightarrow> nvlistReader" where
  "skip_pair sz r =
     (let r = r\<lparr>r_currentByte := r_currentByte r + (sz - 4)\<rparr>
      in if r_encoding r = EncodingXDR then r\<lparr>r_currentByte := r_currentByte r + 4\<rparr> else r)"

definition read_pair_head ::
  "(nvlistReader, (nvpair \<times> string \<times> nvPairReader) option) comp" where
  "read_pair_head r0 =
     (let nvpr = \<lparr>p_startByte = r_currentByte r0, p_sizeBytes = 0,
                  p_currentByte = r_currentByte r0 + 4\<rparr> in
      bind_comp (r_readInt 4) (\<lambda>sz r.
        if int32_of sz < 0 then (Err ErrInvalidData, r)
        else if int32_of sz = 0 then (Ok None, r)
        else if int32_of sz + r_currentByte r > int (length (r_nvlist r)) then
          (Err ErrInvalidData, r)
        else
          let nvpr = nvpr\<lparr>p_sizeBytes := int32_of sz\<rparr>;
              r = skip_pair (int32_of sz) r
          in (case read_pair_fields r sz nvpr of
                (Ok (nvp, name), nvpr') \<Rightarrow> (Ok (Some (nvp, name, nvpr')), r)
              | (Err e, _) \<Rightarrow> (Err e, r)
              | (Panic p, _) \<Rightarrow> (Panic p, r)
              | (Diverge, _) \<Rightarrow> (Diverge, r))) r0)"

section \<open>One pair: the value\<close>

definition elem_count :: "nvpair \<Rightarrow> nat" where
  "elem_count nvp = nat (sint (nvp_Value_elem nvp))"

definition int_types :: "(nvtype \<times> gkind) list" where
  "int_types =
     [(typeInt16, KInt16), (typeUint16, KUint16), (typeInt32, KInt32), (typeUint32, KUint32),
      (typeInt64, KInt64), (typeUint64, KUint64), (typeInt8, KInt8), (typeUint8, KUint8)]"

definition int_array_types :: "(nvtype \<times> gkind) list" where
  "int_array_types =
     [(typeInt16Array, KInt16), (typeUint16Array, KUint16), (typeInt32Array, KInt32),
      (typeUint32Array, KUint32), (typeInt64Array, KInt64), (typeUint64Array, KUint64),
      (typeInt8Array, KInt8), (typeUint8Array, KUint8)]"

definition read_cstring :: "nvlistReader \<Rightarrow> (nvPairReader, string) comp" where
  "read_cstring r =
     bind_comp (p_ReadBytes r 0) (\<lambda>data.
       bind_comp (lift_res (go_slice data 0 (int (length data) - 1)))
         (\<lambda>bs. ret (string_of_bytes bs)))"

definition read_bool :: "nvlistReader \<Rightarrow> (nvPairReader, bool) comp" where
  "read_bool r =
     bind_comp (p_readInt r 4) (\<lambda>tmp.
       if int32_of tmp = 0 then ret False
       else if int32_of tmp = 1 then ret True
       else fail ErrInvalidData)"

primrec read_many :: "nat \<Rightarrow> ('s, 'a) comp \<Rightarrow> ('s, 'a list) comp" where
  "read_many 0 m = ret []"
| "read_many (Suc n) m = bind_comp m (\<lambda>x. bind_comp (read_many n m) (\<lambda>xs. ret (x # xs)))"

text \<open>\<^verbatim>\<open>binary.Read\<close> into a slice of \<open>n\<close> integers of kind \<open>k\<close>.\<close>

definition read_int_array :: "nvlistReader \<Rightarrow> gkind \<Rightarrow> nat \<Rightarrow> (nvPairReader, gval) comp" where
  "read_int_array r k n =
     bind_comp (readFull (p_Read r) (kind_size k * n)) (\<lambda>bs.
       case r_endianness r of
         None \<Rightarrow> lift_res (Panic NilDereference)
       | Some bo \<Rightarrow> ret (VSlice (TSlice (TBasic k))
           (map (\<lambda>c. VNum (TBasic k) (get_uint bo c)) (chunks (kind_size k) n bs))))"

text \<open>
  The cases of the type switch other than the two nvlist types: the value to store, \<open>None\<close>
  for a type with no case, which is skipped.
\<close>

definition read_value :: "nvlistReader \<Rightarrow> nvpair \<Rightarrow> (nvPairReader, gval option) comp" where
  "read_value r nvp =
     (let ty = nvp_Type nvp; n = elem_count nvp in
      if ty = typeUnknown then fail ErrInvalidData
      else if ty = typeBoolean then ret (Some (VBool TBool True))
      else case map_of int_types ty of
        Some k \<Rightarrow> bind_comp (p_readInt r (kind_size k)) (\<lambda>x. ret (Some (VNum (TBasic k) x)))
      | None \<Rightarrow>
      if ty = typeByte then
        bind_comp (p_ReadByte r) (\<lambda>b. ret (Some (VNum TUint8 (ucast b))))
      else if ty = typeString then
        bind_comp (read_cstring r) (\<lambda>s. ret (Some (VString TString s)))
      else if ty = typeBooleanValue then
        bind_comp (read_bool r) (\<lambda>b. ret (Some (VBool TBool b)))
      else case map_of int_array_types ty of
        Some k \<Rightarrow> bind_comp (read_int_array r k n) (\<lambda>v. ret (Some v))
      | None \<Rightarrow>
      if ty = typeByteArray then
        bind_comp (p_readN r (int n)) (\<lambda>bs.
          ret (Some (VSlice (TSlice TUint8) (map (\<lambda>b. VNum TUint8 (ucast b)) bs))))
      else if ty = typeStringArray then
        bind_comp (p_skipN (int (8 * n))) (\<lambda>_.
          bind_comp (read_many n (read_cstring r)) (\<lambda>ss.
            ret (Some (VSlice (TSlice TString) (map (VString TString) ss)))))
      else if ty = typeBooleanArray then
        bind_comp (read_many n (read_bool r)) (\<lambda>bs.
          ret (Some (VSlice (TSlice TBool) (map (VBool TBool) bs))))
      else ret None)"

section \<open>Storing into the target\<close>

text \<open>The name a struct field answers to; of two fields with one name the later one wins.\<close>

definition field_key :: "string \<times> string \<times> gotype \<Rightarrow> string" where
  "field_key f =
     (case f of (fname, tag, T) \<Rightarrow>
        let t = hd (split_comma tag) in if t \<noteq> [] then t else fname)"

definition field_index :: "(string \<times> string \<times> gotype) list \<Rightarrow> string \<Rightarrow> nat option" where
  "field_index fs name =
     (let is = filter (\<lambda>i. field_key (fs ! i) = name) [0..<length fs]
      in if is = [] then None else Some (last is))"

definition SetMapIndex :: "gotype \<Rightarrow> (string \<times> gval) list option \<Rightarrow> string \<Rightarrow> gval \<Rightarrow> gval res" where
  "SetMapIndex T m name x =
     (if \<not> assignable TString (key_type T) then Panic NotAssignable
      else case assign_to (elem_type T) x of
          Ok x' \<Rightarrow> (case m of None \<Rightarrow> Panic NilMapWrite
                    | Some es \<Rightarrow> Ok (VMap T (Some (alist_set name x' es))))
        | Err e \<Rightarrow> Err e | Panic p \<Rightarrow> Panic p | Diverge \<Rightarrow> Diverge)"

fun set_primitive :: "bool \<Rightarrow> string \<Rightarrow> gval \<Rightarrow> gval \<Rightarrow> gval res" where
  "set_primitive st name x (VStruct T vs) =
     (case field_index (struct_fields T) name of
        None \<Rightarrow> Ok (VStruct T vs)
      | Some i \<Rightarrow>
          if st then
            (case assign_to (snd (snd (struct_fields T ! i))) x of
               Ok x' \<Rightarrow> Ok (VStruct T (vs[i := x']))
             | Err e \<Rightarrow> Err e | Panic p \<Rightarrow> Panic p | Diverge \<Rightarrow> Diverge)
          else Ok (VStruct T vs))"
| "set_primitive st name x (VMap T m) = SetMapIndex T m name x"
| "set_primitive st name x v = Ok v"

text \<open>Running a store on the target half of the state.\<close>

definition store :: "(gval \<Rightarrow> gval res) \<Rightarrow> (nvlistReader \<times> gval, unit) comp" where
  "store f s =
     (case f (snd s) of
        Ok v' \<Rightarrow> (Ok (), (fst s, v'))
      | Err e \<Rightarrow> (Err e, s) | Panic p \<Rightarrow> (Panic p, s) | Diverge \<Rightarrow> (Diverge, s))"

section \<open>Nested nvlists\<close>

type_synonym pairs_reader = "bool \<Rightarrow> (nvlistReader \<times> gval, unit) comp"

text \<open>The fresh value a nested list is decoded into when the target is a map.\<close>

definition fresh_elem :: "gotype \<Rightarrow> gval res" where
  "fresh_elem T =
     (if kind T = KInterface then Ok (VMap TAnyMap (Some []))
      else if kind T = KStruct then Ok (VPtr (TPtr T) (Some (zero_value T)))
      else if kind T = KMap then Ok (VMap (TMap TString (elem_type T)) (Some []))
      else Panic (PanicText ''Cannot currently handle complex hybrid types''))"

definition deref_ptr :: "gval \<Rightarrow> gval" where
  "deref_ptr v = (case v of VPtr T (Some x) \<Rightarrow> x | _ \<Rightarrow> v)"

definition read_nvlist :: "pairs_reader \<Rightarrow> bool \<Rightarrow> string \<Rightarrow> (nvlistReader \<times> gval, unit) comp" where
  "read_nvlist rec st name s =
     (case s of (r, v) \<Rightarrow>
        (case v of
           VStruct T vs \<Rightarrow>
             (case field_index (struct_fields T) name of
                None \<Rightarrow> (Ok (), s)
              | Some i \<Rightarrow>
                  if st then
                    (case rec True (r, vs ! i) of (x, (r', f')) \<Rightarrow> (x, (r', VStruct T (vs[i := f']))))
                  else (Ok (), s))
         | VMap T m \<Rightarrow>
             (case fresh_elem (elem_type T) of
                Ok val \<Rightarrow>
                  (case rec False (r, val) of
                     (Ok _, (r', val')) \<Rightarrow> store (set_primitive False name (deref_ptr val')) (r', v)
                   | (Err e, (r', _)) \<Rightarrow> (Err e, (r', v))
                   | (Panic p, (r', _)) \<Rightarrow> (Panic p, (r', v))
                   | (Diverge, (r', _)) \<Rightarrow> (Diverge, (r', v)))
              | Err e \<Rightarrow> (Err e, s) | Panic p \<Rightarrow> (Panic p, s) | Diverge \<Rightarrow> (Diverge, s))
         | _ \<Rightarrow> (Panic (PanicText ''Invalid pair type (not map or struct)''), s)))"

primrec read_maps :: "pairs_reader \<Rightarrow> nat \<Rightarrow> (nvlistReader, gval list) comp" where
  "read_maps rec 0 r = (Ok [], r)"
| "read_maps rec (Suc n) r =
     (case rec True (r, VMap TAnyMap (Some [])) of
        (Ok _, (r', x)) \<Rightarrow> bind_comp (read_maps rec n) (\<lambda>xs. ret (x # xs)) r'
      | (Err e, (r', _)) \<Rightarrow> (Err e, r')
      | (Panic p, (r', _)) \<Rightarrow> (Panic p, r')
      | (Diverge, (r', _)) \<Rightarrow> (Diverge, r'))"

definition read_nvlist_array ::
  "pairs_reader \<Rightarrow> string \<Rightarrow> nat \<Rightarrow> (nvlistReader \<times> gval, unit) comp" where
  "read_nvlist_array rec name n s =
     (case s of (r, v) \<Rightarrow>
        (case v of
           VStruct T vs \<Rightarrow>
             (Panic (PanicText ''Deserializing NVListArrays into structs currently unsupported''), s)
         | VMap T m \<Rightarrow>
             (case read_maps rec n r of
                (Ok xs, r') \<Rightarrow> store (set_primitive False name (VSlice (TSlice TAnyMap) xs)) (r', v)
              | (Err e, r') \<Rightarrow> (Err e, (r', v))
              | (Panic p, r') \<Rightarrow> (Panic p, (r', v))
              | (Diverge, r') \<Rightarrow> (Diverge, (r', v)))
         | _ \<Rightarrow> (Panic (PanicText ''Invalid pair type (not map or struct)''), s)))"

definition handle_pair ::
  "pairs_reader \<Rightarrow> bool \<Rightarrow> nvpair \<times> string \<times> nvPairReader \<Rightarrow> (nvlistReader \<times> gval, unit) comp" where
  "handle_pair rec st h s =
     (case h of (nvp, name, nvpr) \<Rightarrow>
        if nvp_Type nvp = typeNvlist then read_nvlist rec st name s
        else if nvp_Type nvp = typeNvlistArray then read_nvlist_array rec name (elem_count nvp) s
        else (case read_value (fst s) nvp nvpr of
                (Ok None, _) \<Rightarrow> (Ok (), s)
              | (Ok (Some x), _) \<Rightarrow> store (set_primitive st name x) s
              | (Err e, _) \<Rightarrow> (Err e, s)
              | (Panic p, _) \<Rightarrow> (Panic p, s)
              | (Diverge, _) \<Rightarrow> (Diverge, s)))"

section \<open>readPairs\<close>

text \<open>The head of \<^verbatim>\<open>readPairs\<close>: a pointer is followed, an empty interface gets a new map.\<close>

definition check_target :: "pairs_reader \<Rightarrow> pairs_reader" where
  "check_target loop st s =
     (if kind_of (snd s) = KStruct \<or> kind_of (snd s) = KMap then loop st s
      else (Err ErrInvalidData, s))"

definition enter_iface :: "pairs_reader \<Rightarrow> pairs_reader" where
  "enter_iface loop st s =
     (case snd s of
        VIface _ \<Rightarrow>
          if st then
            (case check_target loop False (fst s, VMap TAnyMap (Some [])) of
               (x, (r', m')) \<Rightarrow> (x, (r', VIface (Some m'))))
          else (Panic NotSettable, s)
      | _ \<Rightarrow> check_target loop st s)"

definition enter_pairs :: "pairs_reader \<Rightarrow> pairs_reader" where
  "enter_pairs loop st s =
     (case snd s of
        VPtr T None \<Rightarrow> (Err ErrInvalidData, s)
      | VPtr T (Some x) \<Rightarrow>
          (case enter_iface loop True (fst s, x) of
             (y, (r', x')) \<Rightarrow> (y, (r', VPtr T (Some x'))))
      | _ \<Rightarrow> enter_iface loop st s)"

primrec read_loop :: "nat \<Rightarrow> pairs_reader" where
  "read_loop 0 st s = (Diverge, s)"
| "read_loop (Suc fuel) st s =
     (case read_pair_head (fst s) of
        (Ok None, r') \<Rightarrow> (Ok (), (r', snd s))
      | (Ok (Some h), r') \<Rightarrow>
          bind_comp (handle_pair (enter_pairs (read_loop fuel)) st h)
            (\<lambda>_. read_loop fuel st) (r', snd s)
      | (Err e, r') \<Rightarrow> (Err e, (r', snd s))
      | (Panic p, r') \<Rightarrow> (Panic p, (r', snd s))
      | (Diverge, r') \<Rightarrow> (Diverge, (r', snd s)))"

definition readPairs :: "nat \<Rightarrow> pairs_reader" where
  "readPairs fuel = enter_pairs (read_loop fuel)"

section \<open>Unmarshal\<close>

definition new_reader :: "byte list \<Rightarrow> nvlistReader" where
  "new_reader data = \<lparr>r_nvlist = data, r_currentByte = 0, r_endianness = None,
     r_encoding = EncodingNative, r_flags = 0, r_version = 0\<rparr>"

text \<open>The error, if any, and the value \<^verbatim>\<open>val\<close> refers to afterwards.\<close>

definition Unmarshal :: "byte list \<Rightarrow> gval \<Rightarrow> unit res \<times> gval" where
  "Unmarshal data val =
     (case readNvHeader (new_reader data) of
        (Ok _, r) \<Rightarrow>
          (case readPairs (Suc (length data)) False (r, val) of (x, (_, v)) \<Rightarrow> (x, v))
      | (Err e, _) \<Rightarrow> (Err e, val)
      | (Panic p, _) \<Rightarrow> (Panic p, val)
      | (Diverge, _) \<Rightarrow> (Diverge, val))"

text \<open>\<^verbatim>\<open>new(interface{})\<close>, the target used to decode data of unknown shape.\<close>

definition new_iface :: gval where
  "new_iface = VPtr (TPtr TIface) (Some (VIface None))"

section \<open>The fuzzing harness\<close>

text \<open>Its target is \<^verbatim>\<open>&out\<close> for \<^verbatim>\<open>out := new(interface{})\<close>, a pointer to a pointer.\<close>

definition Fuzz :: "byte list \<Rightarrow> int res" where
  "Fuzz data =
     (case fst (Unmarshal data (VPtr (TPtr (TPtr TIface)) (Some new_iface))) of
        Ok _ \<Rightarrow> Ok 1 | Err e \<Rightarrow> Ok 0 | Panic p \<Rightarrow> Panic p | Diverge \<Rightarrow> Diverge)"

end
