(* ===== verification/Nv_Decoder_Safe.thy ===== *)
theory Nv_Decoder_Safe
  imports Nv_Decoder
begin

text \<open>
  Safety and termination of the decoder on arbitrary bytes. Both \<^verbatim>\<open>Read\<close> methods meet the
  contract \<open>io_reader\<close>; every read of a pair stays inside the data; the list reader moves
  forward with every pair, so decoding ends for every target (\<open>Unmarshal_terminates\<close>); with a
  target that has no static type it never panics (\<open>Unmarshal_untyped_safe\<close>).
\<close>

section \<open>The two Read methods meet the reader contract\<close>

interpretation nlr: io_reader r_Read r_nvlist r_currentByte "\<lambda>r. int (length (r_nvlist r))"
  "\<lambda>n r. r\<lparr>r_currentByte := r_currentByte r + n\<rparr>" "\<lambda>r. 0 \<le> r_currentByte r"
proof unfold_locales
  fix s :: nvlistReader and n :: nat
  assume "0 \<le> r_currentByte s" "0 < n" "r_currentByte s + int n \<le> int (length (r_nvlist s))"
  then show "\<exists>err. r_Read n s =
      (Ok (take n (drop (nat (r_currentByte s)) (r_nvlist s)), int n, err),
       s\<lparr>r_currentByte := r_currentByte s + int n\<rparr>)"
    by (cases "r_currentByte s + int n < int (length (r_nvlist s))")
      (auto simp: r_Read_def Let_def go_copy_def bind_comp_def lift_res_def)
next
  fix s :: nvlistReader and n :: nat
  assume "0 \<le> r_currentByte s" "0 < n" "int (length (r_nvlist s)) < r_currentByte s + int n"
  then show "\<exists>bs. r_Read n s =
      (Ok (bs, int (length (r_nvlist s)) - r_currentByte s, Some ErrEOF),
       s\<lparr>r_currentByte := r_currentByte s + (int (length (r_nvlist s)) - r_currentByte s)\<rparr>)"
    by (auto simp: r_Read_def Let_def go_copy_def bind_comp_def lift_res_def)
qed simp

interpretation npr: io_reader "p_Read r" "\<lambda>_. r_nvlist r" p_currentByte p_limit
  "\<lambda>n p. p\<lparr>p_currentByte := p_currentByte p + n\<rparr>"
  "\<lambda>p. 0 \<le> p_currentByte p \<and> p_limit p \<le> int (length (r_nvlist r))" for r
proof unfold_locales
  fix s :: nvPairReader and n :: nat
  assume "0 \<le> p_currentByte s \<and> p_limit s \<le> int (length (r_nvlist r))" "0 < n"
    "p_currentByte s + int n \<le> p_limit s"
  then show "\<exists>err. p_Read r n s = (Ok (take n (drop (nat (p_currentByte s)) (r_nvlist r)), int n, err),
      s\<lparr>p_currentByte := p_currentByte s + int n\<rparr>)"
    by (auto simp: p_Read_def Let_def go_copy_def bind_comp_def lift_res_def)
next
  fix s :: nvPairReader and n :: nat
  assume "0 \<le> p_currentByte s \<and> p_limit s \<le> int (length (r_nvlist r))" "0 < n"
    "p_limit s < p_currentByte s + int n"
  then show "\<exists>bs. p_Read r n s = (Ok (bs, p_limit s - p_currentByte s, Some ErrEOF),
      s\<lparr>p_currentByte := p_currentByte s + (p_limit s - p_currentByte s)\<rparr>)"
    by (auto simp: p_Read_def Let_def go_copy_def bind_comp_def lift_res_def)
qed simp

section \<open>Reader invariants\<close>

text \<open>The list reader inside \<^verbatim>\<open>readPairs\<close>: within the data, with a byte order.\<close>

definition reader_ok :: "nvlistReader \<Rightarrow> bool" where
  "reader_ok r \<longleftrightarrow>
     0 \<le> r_currentByte r \<and> r_currentByte r \<le> int (length (r_nvlist r)) \<and> r_endianness r \<noteq> None"

text \<open>\<open>r'\<close> is \<open>r\<close> after reading on in the same data.\<close>

definition reader_ext :: "nvlistReader \<Rightarrow> nvlistReader \<Rightarrow> bool" where
  "reader_ext r r' \<longleftrightarrow>
     reader_ok r' \<and> r_nvlist r' = r_nvlist r \<and> r_endianness r' = r_endianness r \<and>
     r_encoding r' = r_encoding r \<and> r_currentByte r \<le> r_currentByte r'"

text \<open>A pair reader: its window ends before the last byte of the data.\<close>

definition pair_ok :: "nvlistReader \<Rightarrow> nvPairReader \<Rightarrow> bool" where
  "pair_ok r p \<longleftrightarrow> 0 \<le> p_currentByte p \<and> p_limit p < int (length (r_nvlist r))"

lemma reader_ext_trans: "reader_ext r1 r2 \<Longrightarrow> reader_ext r2 r3 \<Longrightarrow> reader_ext r1 r3"
  by (auto simp: reader_ext_def)

lemma reader_ext_refl: "reader_ok r \<Longrightarrow> reader_ext r r"
  by (simp add: reader_ext_def)

text \<open>A computation on a pair reader that neither panics nor diverges and keeps it in its window.\<close>

definition pair_safe :: "nvlistReader \<Rightarrow> (nvPairReader, 'a) comp \<Rightarrow> bool" where
  "pair_safe r m \<longleftrightarrow> (\<forall>p x p'. pair_ok r p \<longrightarrow> m p = (x, p') \<longrightarrow> safe x \<and> (\<forall>y. x = Ok y \<longrightarrow> pair_ok r p'))"

lemma pair_safe_bind [intro]:
  assumes "pair_safe r m" and "\<And>x. pair_safe r (f x)"
  shows "pair_safe r (bind_comp m f)"
  unfolding pair_safe_def
proof (intro allI impI)
  fix p x p'
  assume p: "pair_ok r p" and eq: "bind_comp m f p = (x, p')"
  obtain x1 p1 where m: "m p = (x1, p1)" by force
  with assms(1) p have s: "safe x1" "\<And>y. x1 = Ok y \<Longrightarrow> pair_ok r p1"
    by (auto simp: pair_safe_def)
  show "safe x \<and> (\<forall>y. x = Ok y \<longrightarrow> pair_ok r p')"
  proof (cases x1)
    case (Ok y)
    with eq m have "f y p1 = (x, p')" by (simp add: bind_comp_def)
    then show ?thesis using assms(2) [of y] s(2) [OF Ok] by (auto simp: pair_safe_def)
  qed (use eq m s in \<open>auto simp: bind_comp_def\<close>)
qed

lemma pair_safe_simple [intro]:
  "pair_safe r (ret x)" "pair_safe r (fail e)"
  by (auto simp: pair_safe_def ret_def fail_def)

lemma pair_safe_readFull [intro]: "pair_safe r (readFull (p_Read r) n)"
  unfolding pair_safe_def
proof (intro allI impI)
  fix p x p'
  assume "pair_ok r p" and eq: "readFull (p_Read r) n p = (x, p')"
  then have inv: "0 \<le> p_currentByte p \<and> p_limit p \<le> int (length (r_nvlist r))"
    and ok: "pair_ok r p" by (auto simp: pair_ok_def)
  have "safe x" using npr.readFull_safe [OF inv, of n] eq by simp
  moreover have "pair_ok r p'" if "x = Ok y" for y
  proof (cases "n = 0")
    case True
    then show ?thesis using eq ok by (simp add: readFull_def ret_def)
  next
    case False
    then show ?thesis
      using npr.readFull_OkD(3) [OF inv, of n y p'] eq that ok by (simp add: pair_ok_def p_limit_def)
  qed
  ultimately show "safe x \<and> (\<forall>y. x = Ok y \<longrightarrow> pair_ok r p')" by blast
qed

lemma pair_safe_readInt [intro]: "r_endianness r \<noteq> None \<Longrightarrow> pair_safe r (p_readInt r n)"
  unfolding p_readInt_def by (rule pair_safe_bind) (auto split: option.splits)

lemma find_delim_result:
  assumes "0 \<le> cur" and "lim < int (length xs)"
  shows "find_delim xs d lim cur = Ok None \<or>
     (\<exists>c. find_delim xs d lim cur = Ok (Some c) \<and> cur \<le> c \<and> c \<le> lim)"
  using assms
proof (induction xs d lim cur rule: find_delim.induct)
  case (1 xs d lim cur)
  show ?case
  proof (cases "cur \<le> lim")
    case False
    then show ?thesis by (simp add: find_delim.simps [of xs d lim cur])
  next
    case True
    then have i: "go_index xs cur = Ok (xs ! nat cur)" using "1.prems" by (simp add: go_index_def)
    show ?thesis
    proof (cases "xs ! nat cur = d")
      case True
      then show ?thesis using \<open>cur \<le> lim\<close> i by (simp add: find_delim.simps [of xs d lim cur])
    next
      case False
      have "find_delim xs d lim (cur + 1) = Ok None \<or>
          (\<exists>c. find_delim xs d lim (cur + 1) = Ok (Some c) \<and> cur + 1 \<le> c \<and> c \<le> lim)"
        using "1.IH" [OF \<open>cur \<le> lim\<close> i False] "1.prems" by simp
      then show ?thesis
        using False \<open>cur \<le> lim\<close> i by (auto simp: find_delim.simps [of xs d lim cur])
    qed
  qed
qed

lemma p_ReadBytes_result:
  assumes "pair_ok r p" and "p_ReadBytes r d p = (x, p')"
  shows "safe x \<and> (\<forall>bs. x = Ok bs \<longrightarrow> pair_ok r p' \<and> bs \<noteq> [])"
proof -
  from assms(1) have b: "0 \<le> p_currentByte p" "p_limit p < int (length (r_nvlist r))"
    by (auto simp: pair_ok_def)
  from find_delim_result [OF this, of d] show ?thesis
  proof
    assume "find_delim (r_nvlist r) d (p_limit p) (p_currentByte p) = Ok None"
    then show ?thesis
      using assms(2) by (auto simp: p_ReadBytes_def bind_comp_def lift_res_def Let_def)
  next
    assume "\<exists>c. find_delim (r_nvlist r) d (p_limit p) (p_currentByte p) = Ok (Some c) \<and>
       p_currentByte p \<le> c \<and> c \<le> p_limit p"
    then show ?thesis
      using assms(2) b
      by (auto simp: p_ReadBytes_def bind_comp_def lift_res_def go_slice_def pair_ok_def p_limit_def
          Let_def)
  qed
qed

lemma pair_safe_read_cstring [intro]: "pair_safe r (read_cstring r)"
  unfolding pair_safe_def
proof (intro allI impI)
  fix p x p'
  assume p: "pair_ok r p" and eq: "read_cstring r p = (x, p')"
  obtain y p1 where y: "p_ReadBytes r 0 p = (y, p1)" by force
  with p_ReadBytes_result [OF p] have "safe y" "\<And>bs. y = Ok bs \<Longrightarrow> pair_ok r p1 \<and> bs \<noteq> []"
    by auto
  then show "safe x \<and> (\<forall>z. x = Ok z \<longrightarrow> pair_ok r p')"
    using y eq
    by (cases y) (auto simp: read_cstring_def bind_comp_def lift_res_def go_slice_def ret_def)
qed

lemma pair_safe_ReadByte [intro]: "pair_safe r (p_ReadByte r)"
  by (auto simp: pair_safe_def p_ReadByte_def bind_comp_def lift_res_def go_index_def pair_ok_def p_limit_def)

lemma pair_safe_readN [intro]: "0 \<le> n \<Longrightarrow> pair_safe r (p_readN r n)"
  by (auto simp: pair_safe_def p_readN_def bind_comp_def lift_res_def go_slice_def pair_ok_def p_limit_def
      split: if_splits)

lemma pair_safe_skipN [intro]: "0 \<le> n \<Longrightarrow> pair_safe r (p_skipN n)"
  by (auto simp: pair_safe_def p_skipN_def pair_ok_def p_limit_def)

lemma pair_safe_skipToAlign [intro]: "pair_safe r (p_skipToAlign r)"
proof -
  have "0 < alignment (r_encoding r)" by (cases "r_encoding r") simp_all
  then have "(k :: int) mod alignment (r_encoding r) \<le> alignment (r_encoding r)" for k
    by (simp add: order_less_imp_le)
  then show ?thesis
    by (auto simp: pair_safe_def p_skipToAlign_def Let_def pair_ok_def p_limit_def)
qed

lemma pair_safe_read_bool [intro]: "r_endianness r \<noteq> None \<Longrightarrow> pair_safe r (read_bool r)"
  unfolding read_bool_def by (intro pair_safe_bind) auto

lemma pair_safe_read_many [intro]: "pair_safe r m \<Longrightarrow> pair_safe r (read_many n m)"
  by (induction n) (auto intro!: pair_safe_bind)

lemma pair_safe_read_int_array [intro]: "r_endianness r \<noteq> None \<Longrightarrow> pair_safe r (read_int_array r k n)"
  unfolding read_int_array_def by (rule pair_safe_bind) (auto split: option.splits)

lemma pair_safe_if: "pair_safe r a \<Longrightarrow> pair_safe r b \<Longrightarrow> pair_safe r (if c then a else b)"
  by simp

lemma pair_safe_option:
  "pair_safe r a \<Longrightarrow> (\<And>k. pair_safe r (f k)) \<Longrightarrow> pair_safe r (case x of None \<Rightarrow> a | Some k \<Rightarrow> f k)"
  by (simp split: option.split)

lemma read_value_safe:
  assumes "r_endianness r \<noteq> None"
  shows "pair_safe r (read_value r nvp)"
  unfolding read_value_def Let_def
  by (intro pair_safe_if pair_safe_option pair_safe_bind pair_safe_simple pair_safe_readInt
      pair_safe_ReadByte pair_safe_read_cstring pair_safe_read_bool pair_safe_read_int_array
      pair_safe_readN pair_safe_skipN pair_safe_read_many assms of_nat_0_le_iff)

section \<open>Reading the header of a pair\<close>

lemma pair_safe_name:
  assumes "0 < n" and "\<And>x. pair_safe r (f x)"
  shows "pair_safe r (bind_comp (p_readN r n) (\<lambda>raw.
     bind_comp (lift_res (go_slice raw 0 (int (length raw) - 1))) f))"
  unfolding pair_safe_def
proof (intro allI impI)
  fix p x p'
  assume p: "pair_ok r p"
    and eq: "bind_comp (p_readN r n) (\<lambda>raw. bind_comp (lift_res (go_slice raw 0 (int (length raw) - 1))) f) p = (x, p')"
  show "safe x \<and> (\<forall>y. x = Ok y \<longrightarrow> pair_ok r p')"
  proof (cases "p_currentByte p + n \<le> p_limit p")
    case False
    with eq show ?thesis by (auto simp: p_readN_def bind_comp_def)
  next
    case True
    let ?raw = "take (nat n) (drop (nat (p_currentByte p)) (r_nvlist r))"
    and ?p = "p\<lparr>p_currentByte := p_currentByte p + n\<rparr>"
    from True p assms(1) have "p_readN r n p = (Ok ?raw, ?p)" "?raw \<noteq> []"
      by (auto simp: p_readN_def bind_comp_def lift_res_def go_slice_def pair_ok_def)
    with eq have "f (take (length ?raw - 1) ?raw) ?p = (x, p')"
      by (auto simp: bind_comp_def lift_res_def go_slice_def nat_diff_distrib' split: if_splits)
    moreover have "pair_ok r ?p" using p assms(1) by (simp add: pair_ok_def p_limit_def)
    ultimately show ?thesis using assms(2) unfolding pair_safe_def by blast
  qed
qed

lemma read_pair_fields_safe:
  assumes "r_endianness r \<noteq> None"
  shows "pair_safe r (read_pair_fields r sz)"
  unfolding read_pair_fields_def
proof (intro pair_safe_bind pair_safe_readInt assms)
  fix name_sz
  show "pair_safe r (if int16_of name_sz \<le> 0 then fail ErrInvalidData
       else bind_comp (p_readInt r 2) (\<lambda>reserve.
         bind_comp (p_readInt r 4) (\<lambda>value_elem.
           if int32_of value_elem < 0 then fail ErrInvalidData
           else if int32_of value_elem > 65535 then fail ErrInvalidData
           else bind_comp (p_readInt r 4) (\<lambda>ty.
             bind_comp (p_readN r (int16_of name_sz)) (\<lambda>nameRaw.
               bind_comp (lift_res (go_slice nameRaw 0 (int (length nameRaw) - 1))) (\<lambda>name.
                 bind_comp (p_skipToAlign r) (\<lambda>_.
                   ret (\<lparr>nvp_Size = ucast sz, nvp_Name_sz = ucast name_sz,
                         nvp_Reserve = ucast reserve, nvp_Value_elem = ucast value_elem,
                         nvp_Type = ucast ty\<rparr>, string_of_bytes name))))))))"
  proof (cases "int16_of name_sz \<le> 0")
    case True
    then show ?thesis by auto
  next
    case False
    then have "0 < int16_of name_sz" by simp
    then show ?thesis
      using False
      by (simp only: if_False)
        (intro pair_safe_bind pair_safe_readInt assms pair_safe_if pair_safe_name pair_safe_simple
          pair_safe_skipToAlign)
  qed
qed

lemma r_readInt_cases:
  assumes "0 \<le> r_currentByte r" and "r_endianness r = Some bo"
  shows "r_currentByte r + int n \<le> int (length (r_nvlist r)) \<Longrightarrow>
      r_readInt n r = (Ok (get_uint bo (take n (drop (nat (r_currentByte r)) (r_nvlist r)))),
        r\<lparr>r_currentByte := r_currentByte r + int n\<rparr>)"
    and "0 < n \<Longrightarrow> int (length (r_nvlist r)) < r_currentByte r + int n \<Longrightarrow>
      \<exists>e. r_readInt n r = (Err e, r\<lparr>r_currentByte := int (length (r_nvlist r))\<rparr>)"
  using nlr.readFull_full [OF assms(1), of n] nlr.readFull_short [OF assms(1), of n] assms(2)
  by (auto simp: r_readInt_def bind_comp_def)

lemma r_readInt_result:
  assumes "reader_ok r" and "0 < n" and "r_readInt n r = (x, r')"
  shows "safe x \<and> reader_ext r r' \<and>
     (\<forall>y. x = Ok y \<longrightarrow> r_currentByte r' = r_currentByte r + int n)"
proof -
  obtain bo where r: "0 \<le> r_currentByte r" "r_endianness r = Some bo"
    using assms(1) by (auto simp: reader_ok_def)
  show ?thesis
    using r_readInt_cases [OF r, of n] assms
    by (cases "r_currentByte r + int n \<le> int (length (r_nvlist r))")
      (auto simp: reader_ok_def reader_ext_def)
qed

lemma read_pair_head_result:
  assumes ok: "reader_ok r" and eq: "read_pair_head r = (x, r')"
  shows "safe x \<and> reader_ext r r' \<and>
     (\<forall>nvp name p. x = Ok (Some (nvp, name, p)) \<longrightarrow> r_currentByte r < r_currentByte r' \<and> pair_ok r' p)"
proof -
  obtain y r1 where y: "r_readInt 4 r = (y, r1)" by force
  from r_readInt_result [OF ok _ y]
  have s: "safe y" "reader_ext r r1" "\<And>z. y = Ok z \<Longrightarrow> r_currentByte r1 = r_currentByte r + 4" by auto
  show ?thesis
  proof (cases y)
    case (Ok sz)
    note r1 = s(3) [OF Ok]
    show ?thesis
    proof (cases "int32_of sz \<le> 0 \<or> int32_of sz + r_currentByte r1 > int (length (r_nvlist r1))")
      case True
      with Ok y eq s show ?thesis
        by (auto simp: read_pair_head_def bind_comp_def Let_def split: if_splits)
    next
      case False
      define p0 where "p0 = \<lparr>p_startByte = r_currentByte r, p_sizeBytes = int32_of sz,
          p_currentByte = r_currentByte r + 4\<rparr>"
      define r2 where "r2 = skip_pair (int32_of sz) r1"
      obtain z p1 where z: "read_pair_fields r2 sz p0 = (z, p1)" by force
      have r2: "reader_ext r r2" "r_currentByte r < r_currentByte r2"
        using s(2) False r1 ok by (auto simp: r2_def skip_pair_def Let_def reader_ext_def reader_ok_def)
      have "pair_ok r2 p0"
        using False r1 ok
        by (simp add: pair_ok_def p0_def p_limit_def r2_def skip_pair_def Let_def reader_ok_def)
      moreover have "r_endianness r2 \<noteq> None" using r2(1) by (auto simp: reader_ext_def reader_ok_def)
      ultimately have z': "safe z" "\<And>a. z = Ok a \<Longrightarrow> pair_ok r2 p1"
        using read_pair_fields_safe [of r2 sz] z by (auto simp: pair_safe_def)
      have "read_pair_head r = (case read_pair_fields r2 sz p0 of
          (Ok (nvp, name), nvpr') \<Rightarrow> (Ok (Some (nvp, name, nvpr')), r2)
        | (Err e, _) \<Rightarrow> (Err e, r2) | (Panic p, _) \<Rightarrow> (Panic p, r2) | (Diverge, _) \<Rightarrow> (Diverge, r2))"
        using y Ok False unfolding p0_def r2_def
        by (simp add: read_pair_head_def bind_comp_def Let_def)
      then show ?thesis using z z' r2 eq by (cases z) auto
    qed
  qed (use y s eq in \<open>auto simp: read_pair_head_def bind_comp_def Let_def\<close>)
qed

section \<open>Reading pairs: termination and safety\<close>

text \<open>The target of decoding data of unknown shape: a non-nil \<^verbatim>\<open>map[string]interface{}\<close>.\<close>

definition any_map :: "gval \<Rightarrow> bool" where
  "any_map v \<longleftrightarrow> (\<exists>m. v = VMap TAnyMap (Some m))"

definition bytes_left :: "nvlistReader \<Rightarrow> nat" where
  "bytes_left r = nat (int (length (r_nvlist r)) - r_currentByte r)"

definition pairs_result ::
  "nvlistReader \<Rightarrow> gval \<Rightarrow> unit res \<times> nvlistReader \<times> gval \<Rightarrow> bool" where
  "pairs_result r v y \<longleftrightarrow>
     (case y of (x, r', v') \<Rightarrow>
        x \<noteq> Diverge \<and> reader_ext r r' \<and> (any_map v \<longrightarrow> safe x \<and> any_map v'))"

text \<open>
  With at most \<open>N\<close> bytes left the reader returns, moves forward only, and does not panic on an
  \<open>any_map\<close> target.
\<close>

definition reads_ok :: "nat \<Rightarrow> pairs_reader \<Rightarrow> bool" where
  "reads_ok N f \<longleftrightarrow>
     (\<forall>st r v. reader_ok r \<longrightarrow> bytes_left r < N \<longrightarrow> pairs_result r v (f st (r, v)))"

lemma reads_okD:
  "reads_ok N f \<Longrightarrow> reader_ok r \<Longrightarrow> bytes_left r < N \<Longrightarrow> pairs_result r v (f st (r, v))"
  by (simp add: reads_ok_def)

lemma pairs_result_fail:
  "reader_ok r \<Longrightarrow> safe x \<Longrightarrow> pairs_result r v (x, r, v)"
  by (cases x) (auto simp: pairs_result_def reader_ext_refl)

lemma bytes_left_ext: "reader_ext r r' \<Longrightarrow> bytes_left r' \<le> bytes_left r"
  by (auto simp: reader_ext_def bytes_left_def)

lemma set_primitive_any_map:
  "any_map v \<Longrightarrow> \<exists>v'. set_primitive st name x v = Ok v' \<and> any_map v'"
  by (auto simp: any_map_def SetMapIndex_def)

lemma set_primitive_returns: "set_primitive st name x v \<noteq> Diverge"
  by (cases v) (auto simp: SetMapIndex_def assign_to_def split: option.splits)

lemma pairs_result_store:
  assumes "reader_ext r r'"
  shows "pairs_result r v (store (set_primitive st name x) (r', v))"
  using assms set_primitive_any_map [of v st name x] set_primitive_returns [of st name x v]
  by (cases "set_primitive st name x v") (auto simp: store_def pairs_result_def)

lemma check_target_ok: "reads_ok N loop \<Longrightarrow> reads_ok N (check_target loop)"
  unfolding reads_ok_def check_target_def
  by (auto simp: pairs_result_fail pairs_result_def any_map_def reader_ext_refl)

lemma enter_iface_ok:
  assumes "reads_ok N loop"
  shows "reads_ok N (enter_iface loop)"
  unfolding reads_ok_def
proof (intro allI impI)
  fix st r v
  assume r: "reader_ok r" "bytes_left r < N"
  note loop = reads_okD [OF check_target_ok [OF assms] r]
  show "pairs_result r v (enter_iface loop st (r, v))"
  proof (cases v)
    case (VIface p)
    then show ?thesis
      using loop [of "VMap TAnyMap (Some [])" False] r(1)
      by (auto simp: enter_iface_def pairs_result_def any_map_def reader_ext_refl split: prod.splits)
  qed (use loop in \<open>auto simp: enter_iface_def\<close>)
qed

lemma enter_pairs_ok:
  assumes "reads_ok N loop"
  shows "reads_ok N (enter_pairs loop)"
  unfolding reads_ok_def
proof (intro allI impI)
  fix st r v
  assume r: "reader_ok r" "bytes_left r < N"
  note loop = reads_okD [OF enter_iface_ok [OF assms] r]
  show "pairs_result r v (enter_pairs loop st (r, v))"
  proof (cases v)
    case (VPtr T p)
    then show ?thesis
      using loop [of "the p" True] r(1)
      by (cases p) (auto simp: enter_pairs_def pairs_result_def any_map_def reader_ext_refl
          split: prod.splits)
  qed (use loop in \<open>auto simp: enter_pairs_def\<close>)
qed

lemma fresh_elem_returns: "fresh_elem T \<noteq> Diverge"
  by (simp add: fresh_elem_def)

lemma read_nvlist_ok:
  assumes rec: "reads_ok N rec" and r: "reader_ok r" "bytes_left r < N"
  shows "pairs_result r v (read_nvlist rec st name (r, v))"
proof (cases v)
  case (VStruct T vs)
  then show ?thesis
    using reads_okD [OF rec r, of "vs ! the (field_index (struct_fields T) name)" True] r(1)
    by (auto simp: read_nvlist_def pairs_result_def any_map_def reader_ext_refl
        split: option.splits prod.splits)
next
  case (VMap T m)
  show ?thesis
  proof (cases "fresh_elem (elem_type T)")
    case (Ok val)
    obtain x r' val' where rv: "rec False (r, val) = (x, (r', val'))" by (metis surj_pair)
    have res: "pairs_result r val (x, r', val')" using reads_okD [OF rec r, of val False] rv by simp
    have "any_map v \<Longrightarrow> any_map val"
      using Ok VMap by (auto simp: any_map_def fresh_elem_def)
    then show ?thesis
      using Ok VMap rv res pairs_result_store [of r r' v False name "deref_ptr val'"]
      by (cases x) (auto simp: read_nvlist_def pairs_result_def)
  next
    case (Panic p)
    then have "\<not> any_map v" using VMap by (auto simp: any_map_def fresh_elem_def)
    then show ?thesis
      using Panic VMap r(1) by (auto simp: read_nvlist_def pairs_result_def reader_ext_refl)
  qed (use VMap fresh_elem_returns in \<open>auto simp: fresh_elem_def split: if_splits\<close>)
qed (use r(1) in \<open>auto simp: read_nvlist_def pairs_result_def any_map_def reader_ext_refl\<close>)

lemma read_maps_result:
  assumes rec: "reads_ok N rec"
  shows "reader_ok r \<Longrightarrow> bytes_left r < N \<Longrightarrow> read_maps rec n r = (x, r') \<Longrightarrow>
    safe x \<and> reader_ext r r'"
proof (induction n arbitrary: r x r')
  case 0
  then show ?case by (auto simp: reader_ext_refl)
next
  case (Suc n)
  let ?v = "VMap TAnyMap (Some [])"
  obtain y r1 v1 where y: "rec True (r, ?v) = (y, (r1, v1))" by (metis surj_pair)
  have "pairs_result r ?v (y, r1, v1)" using reads_okD [OF rec Suc.prems(1,2), of ?v True] y by simp
  then have s: "safe y" "reader_ext r r1" by (auto simp: pairs_result_def any_map_def)
  show ?case
  proof (cases y)
    case (Ok u)
    obtain z r2 where z: "read_maps rec n r1 = (z, r2)" by force
    have "safe z \<and> reader_ext r1 r2"
      using Suc.IH [OF _ _ z] s(2) bytes_left_ext [OF s(2)] Suc.prems(2)
      by (auto simp: reader_ext_def)
    then show ?thesis
      using Ok y z s(2) Suc.prems(3) reader_ext_trans
      by (cases z) (auto simp: bind_comp_def ret_def)
  qed (use y s Suc.prems(3) in auto)
qed

lemma read_nvlist_array_ok:
  assumes rec: "reads_ok N rec" and r: "reader_ok r" "bytes_left r < N"
  shows "pairs_result r v (read_nvlist_array rec name n (r, v))"
proof (cases v)
  case (VMap T m)
  obtain x r' where x: "read_maps rec n r = (x, r')" by force
  with read_maps_result [OF rec r] have s: "safe x" "reader_ext r r'" by auto
  show ?thesis
    using VMap x s pairs_result_store [OF s(2), of v False name]
    by (cases x) (auto simp: read_nvlist_array_def pairs_result_def)
qed (use r(1) in \<open>auto simp: read_nvlist_array_def pairs_result_def any_map_def reader_ext_refl\<close>)

lemma handle_pair_ok:
  assumes rec: "reads_ok N rec" and r: "reader_ok r" "bytes_left r < N" and p: "pair_ok r p"
  shows "pairs_result r v (handle_pair rec st (nvp, name, p) (r, v))"
proof -
  obtain x p' where x: "read_value r nvp p = (x, p')" by force
  have "safe x"
    using read_value_safe [of r nvp] r(1) p x by (auto simp: pair_safe_def reader_ok_def)
  then show ?thesis
    using x read_nvlist_ok [OF rec r] read_nvlist_array_ok [OF rec r] pairs_result_store
      pairs_result_fail [OF r(1)] reader_ext_refl [OF r(1)]
    by (cases x) (auto simp: handle_pair_def split: option.splits)
qed

lemma read_loop_ok: "reads_ok fuel (read_loop fuel)"
proof (induction fuel)
  case 0
  show ?case by (simp add: reads_ok_def)
next
  case (Suc fuel)
  show ?case
    unfolding reads_ok_def
  proof (intro allI impI)
    fix st r v
    assume r: "reader_ok r" "bytes_left r < Suc fuel"
    obtain x r1 where x: "read_pair_head r = (x, r1)" by force
    from read_pair_head_result [OF r(1) x] have s: "safe x" "reader_ext r r1"
      "\<And>nvp name p. x = Ok (Some (nvp, name, p)) \<Longrightarrow> r_currentByte r < r_currentByte r1 \<and> pair_ok r1 p"
      by auto
    have r1: "reader_ok r1" using s(2) by (simp add: reader_ext_def)
    show "pairs_result r v (read_loop (Suc fuel) st (r, v))"
    proof (cases "\<exists>h. x = Ok (Some h)")
      case False
      then show ?thesis
        using x s(1,2) by (cases x) (auto simp: pairs_result_def split: option.splits)
    next
      case True
      then obtain nvp name p where h: "x = Ok (Some (nvp, name, p))" by (metis prod_cases3)
      have left: "bytes_left r1 < fuel"
        using s(2) s(3) [OF h] r1 r by (auto simp: bytes_left_def reader_ok_def reader_ext_def)
      obtain y r2 v2 where y: "handle_pair (enter_pairs (read_loop fuel)) st (nvp, name, p) (r1, v) = (y, (r2, v2))"
        by (metis surj_pair)
      have res: "pairs_result r1 v (y, r2, v2)"
        using handle_pair_ok [OF enter_pairs_ok [OF Suc.IH] r1 left, of p v st nvp name] s(3) [OF h] y
        by simp
      then have r2: "reader_ok r2" "bytes_left r2 < fuel" "reader_ext r r2"
        using left bytes_left_ext [of r1 r2] reader_ext_trans [OF s(2)]
        by (auto simp: pairs_result_def reader_ext_def)
      have "pairs_result r2 v2 (read_loop fuel st (r2, v2))" by (rule reads_okD [OF Suc.IH r2(1,2)])
      then show ?thesis
        using x h y res r2(3) reader_ext_trans
        by (cases y) (auto simp: pairs_result_def bind_comp_def split: prod.splits)
    qed
  qed
qed

lemma readPairs_ok: "reads_ok fuel (readPairs fuel)"
  unfolding readPairs_def by (rule enter_pairs_ok [OF read_loop_ok])

section \<open>The stream header\<close>

text \<open>Any data gives an error, or a reader that is ready for the pairs.\<close>

definition reader_triple ::
  "(nvlistReader \<Rightarrow> bool) \<Rightarrow> (nvlistReader, 'a) comp \<Rightarrow> (nvlistReader \<Rightarrow> bool) \<Rightarrow> bool" where
  "reader_triple P m Q \<longleftrightarrow>
     (\<forall>r x r'. P r \<longrightarrow> m r = (x, r') \<longrightarrow> safe x \<and> (\<forall>y. x = Ok y \<longrightarrow> Q r'))"

lemma reader_triple_bind:
  assumes "reader_triple P m R" and "\<And>x. reader_triple R (f x) Q"
  shows "reader_triple P (bind_comp m f) Q"
  unfolding reader_triple_def
proof (intro allI impI)
  fix r x r'
  assume P: "P r" and eq: "bind_comp m f r = (x, r')"
  obtain y r1 where y: "m r = (y, r1)" by force
  with assms(1) P have s: "safe y" "\<And>z. y = Ok z \<Longrightarrow> R r1" by (auto simp: reader_triple_def)
  show "safe x \<and> (\<forall>y. x = Ok y \<longrightarrow> Q r')"
  proof (cases y)
    case (Ok z)
    then have "f z r1 = (x, r')" using eq y by (simp add: bind_comp_def)
    then show ?thesis using assms(2) [of z] s(2) [OF Ok] by (auto simp: reader_triple_def)
  qed (use eq y s in \<open>auto simp: bind_comp_def\<close>)
qed

lemma reader_triple_steps:
  "reader_triple P m R \<Longrightarrow> reader_triple R (steps ms) Q \<Longrightarrow> reader_triple P (steps (m # ms)) Q"
  by (simp add: reader_triple_bind)

lemma reader_triple_steps_Nil: "reader_triple P (steps []) P"
  by (simp add: reader_triple_def ret_def)

definition header_at :: "byte list \<Rightarrow> nvlistReader \<Rightarrow> bool" where
  "header_at data r \<longleftrightarrow> 0 \<le> r_currentByte r \<and> r_nvlist r = data"

lemma header_ReadByte: "reader_triple (header_at data) r_ReadByte (header_at data)"
  by (auto simp: reader_triple_def header_at_def r_ReadByte_def bind_comp_def lift_res_def go_index_def
      split: if_splits)

lemma header_set_encoding: "reader_triple (header_at data) (set_encoding b) (header_at data)"
  by (auto simp: reader_triple_def header_at_def set_encoding_def split: if_splits)

lemma header_set_endianness:
  "reader_triple (header_at data) (set_endianness b) (\<lambda>r. header_at data r \<and> r_endianness r \<noteq> None)"
  by (auto simp: reader_triple_def header_at_def set_endianness_def split: if_splits)

lemma header_skipN:
  "0 \<le> n \<Longrightarrow> reader_triple (\<lambda>r. header_at data r \<and> r_endianness r \<noteq> None) (r_skipN n)
     (\<lambda>r. header_at data r \<and> r_endianness r \<noteq> None)"
  by (auto simp: reader_triple_def header_at_def r_skipN_def)

lemma header_readInt:
  assumes "0 < n"
  shows "reader_triple (\<lambda>r. header_at data r \<and> r_endianness r \<noteq> None) (r_readInt n)
     (\<lambda>r. header_at data r \<and> reader_ok r)"
  unfolding reader_triple_def
proof (intro allI impI)
  fix r x r'
  assume "header_at data r \<and> r_endianness r \<noteq> None" and eq: "r_readInt n r = (x, r')"
  then obtain bo where r: "0 \<le> r_currentByte r" "r_endianness r = Some bo" "r_nvlist r = data"
    by (auto simp: header_at_def)
  show "safe x \<and> (\<forall>y. x = Ok y \<longrightarrow> header_at data r' \<and> reader_ok r')"
    using r_readInt_cases [OF r(1,2), of n] eq assms r
    by (cases "r_currentByte r + int n \<le> int (length (r_nvlist r))")
      (auto simp: header_at_def reader_ok_def)
qed

lemma header_store_field:
  "(\<And>r. r_currentByte (f r) = r_currentByte r \<and> r_nvlist (f r) = r_nvlist r \<and>
     r_endianness (f r) = r_endianness r) \<Longrightarrow>
   reader_triple (\<lambda>r. header_at data r \<and> reader_ok r) (\<lambda>r. (Ok (), f r))
     (\<lambda>r. header_at data r \<and> r_endianness r \<noteq> None \<and> reader_ok r)"
  by (auto simp: reader_triple_def header_at_def reader_ok_def)

lemma reader_triple_weaken: "reader_triple P m Q \<Longrightarrow> (\<And>r. P' r \<Longrightarrow> P r) \<Longrightarrow> reader_triple P' m Q"
  by (auto simp: reader_triple_def)

lemma readNvHeader_triple:
  "reader_triple (header_at data) readNvHeader
     (\<lambda>r. header_at data r \<and> r_endianness r \<noteq> None \<and> reader_ok r)"
proof -
  let ?h = "header_at data"
  let ?he = "\<lambda>r. ?h r \<and> r_endianness r \<noteq> None"
  let ?ok = "\<lambda>r. ?h r \<and> r_endianness r \<noteq> None \<and> reader_ok r"
  let ?version = "bind_comp (r_readInt 4) (\<lambda>x r. (Ok (), r\<lparr>r_version := ucast x\<rparr>))"
  let ?flags = "bind_comp (r_readInt 4) (\<lambda>x r. (Ok (), r\<lparr>r_flags := ucast x\<rparr>))"
  have version: "reader_triple ?he ?version ?ok"
    by (rule reader_triple_bind [OF header_readInt header_store_field]) simp_all
  have "reader_triple ?he ?flags ?ok"
    by (rule reader_triple_bind [OF header_readInt header_store_field]) simp_all
  then have flags: "reader_triple ?ok ?flags ?ok" by (rule reader_triple_weaken) simp
  have "reader_triple ?ok (steps [?flags]) ?ok"
    by (rule reader_triple_steps [OF flags reader_triple_steps_Nil])
  then have "reader_triple ?he (steps [?version, ?flags]) ?ok"
    by (rule reader_triple_steps [OF version])
  then have "reader_triple ?he (steps [r_skipN 2, ?version, ?flags]) ?ok"
    by (rule reader_triple_steps [OF header_skipN, rotated]) simp
  then have "reader_triple ?h (steps [bind_comp r_ReadByte set_endianness, r_skipN 2, ?version, ?flags]) ?ok"
    by (rule reader_triple_steps [OF reader_triple_bind [OF header_ReadByte header_set_endianness]])
  then show ?thesis
    unfolding readNvHeader_def
    by (rule reader_triple_steps [OF reader_triple_bind [OF header_ReadByte header_set_encoding]])
qed

lemma readNvHeader_result:
  assumes "readNvHeader (new_reader data) = (x, r)"
  shows "safe x \<and> (\<forall>y. x = Ok y \<longrightarrow> reader_ok r \<and> r_nvlist r = data)"
proof -
  have "header_at data (new_reader data)" by (simp add: header_at_def new_reader_def)
  then show ?thesis
    using readNvHeader_triple [of data] assms unfolding reader_triple_def header_at_def by blast
qed

section \<open>Unmarshal\<close>

lemma bytes_left_le: "reader_ok r \<Longrightarrow> bytes_left r \<le> length (r_nvlist r)"
  by (auto simp: bytes_left_def reader_ok_def)

lemma Unmarshal_terminates: "fst (Unmarshal data v) \<noteq> Diverge"
proof -
  obtain x r where x: "readNvHeader (new_reader data) = (x, r)" by force
  from readNvHeader_result [OF this]
  have s: "safe x" "\<And>y. x = Ok y \<Longrightarrow> reader_ok r \<and> r_nvlist r = data" by auto
  show ?thesis
  proof (cases x)
    case (Ok u)
    with s(2) have r: "reader_ok r" "bytes_left r < Suc (length data)"
      using bytes_left_le [of r] by auto
    then show ?thesis
      using reads_okD [OF readPairs_ok r, of v False] x Ok
      by (auto simp: Unmarshal_def pairs_result_def split: prod.splits)
  qed (use x s in \<open>auto simp: Unmarshal_def\<close>)
qed

text \<open>Targets without static type: \<^verbatim>\<open>map[string]interface{}\<close> and \<^verbatim>\<open>*interface{}\<close>.\<close>

fun untyped_target :: "gval \<Rightarrow> bool" where
  "untyped_target (VMap T m) = (T = TAnyMap \<and> m \<noteq> None)"
| "untyped_target (VPtr T (Some (VIface p))) = True"
| "untyped_target v = False"

lemma readPairs_untyped:
  assumes "untyped_target v" and r: "reader_ok r" "bytes_left r < fuel"
  shows "safe (fst (readPairs fuel False (r, v)))"
proof (cases "any_map v")
  case True
  then show ?thesis
    using reads_okD [OF readPairs_ok r, of v False] by (auto simp: pairs_result_def split: prod.splits)
next
  case False
  with assms(1) obtain T p where v: "v = VPtr T (Some (VIface p))"
    by (cases v rule: untyped_target.cases) (auto simp: any_map_def)
  have "pairs_result r (VMap TAnyMap (Some []))
      (check_target (read_loop fuel) False (r, VMap TAnyMap (Some [])))"
    by (rule reads_okD [OF check_target_ok [OF read_loop_ok] r])
  then show ?thesis
    by (auto simp: v readPairs_def enter_pairs_def enter_iface_def pairs_result_def any_map_def
        split: prod.splits)
qed

lemma Unmarshal_untyped_safe:
  assumes "untyped_target v"
  shows "safe (fst (Unmarshal data v))"
proof -
  obtain x r where x: "readNvHeader (new_reader data) = (x, r)" by force
  from readNvHeader_result [OF this]
  have s: "safe x" "\<And>y. x = Ok y \<Longrightarrow> reader_ok r \<and> r_nvlist r = data" by auto
  show ?thesis
  proof (cases x)
    case (Ok u)
    with s(2) have r: "reader_ok r" "bytes_left r < Suc (length data)"
      using bytes_left_le [of r] by auto
    then show ?thesis
      using readPairs_untyped [OF assms r] x Ok by (auto simp: Unmarshal_def split: prod.splits)
  qed (use x s in \<open>auto simp: Unmarshal_def\<close>)
qed

end
