(* ===== verification/Nv_Wire.thy ===== *)
theory Nv_Wire
  imports Nv_Types
begin

text \<open>
  The abstract specification of the native nvlist format, after \<^verbatim>\<open>nvlist/doc.md\<close> and the
  layout comments of \<^verbatim>\<open>nvlist/types.h\<close>: abstract nvlist data, its bytes in either byte
  order, and the Go value that stands for it. The encoder is shown to produce these bytes and
  the decoder to read them back, independently of each other.
\<close>

section \<open>Abstract nvlists\<close>

text \<open>Numbers are bit patterns of the width of their wire type.\<close>

datatype nvdata =
    NBoolean
  | NNum nvtype uint64
  | NString string
  | NBooleanValue bool
  | NDouble uint64
  | NNumArray nvtype "uint64 list"
  | NStringArray "string list"
  | NBooleanArray "bool list"
  | NNvlist "(string \<times> nvdata) list"
  | NNvlistArray "(string \<times> nvdata) list list"

type_synonym nvpairs = "(string \<times> nvdata) list"

text \<open>The wire types of scalar numbers and of number arrays, with the Go kind each holds.\<close>

definition scalar_types :: "(nvtype \<times> gkind) list" where
  "scalar_types =
     [(typeByte, KUint8), (typeInt16, KInt16), (typeUint16, KUint16), (typeInt32, KInt32),
      (typeUint32, KUint32), (typeInt64, KInt64), (typeUint64, KUint64), (typeInt8, KInt8),
      (typeUint8, KUint8)]"

definition array_types :: "(nvtype \<times> gkind) list" where
  "array_types =
     [(typeByteArray, KUint8), (typeInt16Array, KInt16), (typeUint16Array, KUint16),
      (typeInt32Array, KInt32), (typeUint32Array, KUint32), (typeInt64Array, KInt64),
      (typeUint64Array, KUint64), (typeInt8Array, KInt8), (typeUint8Array, KUint8)]"

definition scalar_kind :: "nvtype \<Rightarrow> gkind" where
  "scalar_kind t = (case map_of scalar_types t of Some k \<Rightarrow> k | None \<Rightarrow> KInvalid)"

definition array_kind :: "nvtype \<Rightarrow> gkind" where
  "array_kind t = (case map_of array_types t of Some k \<Rightarrow> k | None \<Rightarrow> KInvalid)"

section \<open>The bytes of an nvlist\<close>

fun data_type :: "nvdata \<Rightarrow> nvtype" where
  "data_type NBoolean = typeBoolean"
| "data_type (NNum t w) = t"
| "data_type (NString s) = typeString"
| "data_type (NBooleanValue b) = typeBooleanValue"
| "data_type (NDouble w) = typeDouble"
| "data_type (NNumArray t ws) = t"
| "data_type (NStringArray ss) = typeStringArray"
| "data_type (NBooleanArray bs) = typeBooleanArray"
| "data_type (NNvlist ps) = typeNvlist"
| "data_type (NNvlistArray pss) = typeNvlistArray"

fun data_count :: "nvdata \<Rightarrow> nat" where
  "data_count NBoolean = 0"
| "data_count (NNumArray t ws) = length ws"
| "data_count (NStringArray ss) = length ss"
| "data_count (NBooleanArray bs) = length bs"
| "data_count (NNvlistArray pss) = length pss"
| "data_count _ = 1"

definition nvlist_hdr_bytes :: "byteorder \<Rightarrow> byte list" where
  "nvlist_hdr_bytes bo =
     put_uint bo 4 0 @ put_uint bo 4 1 @ put_uint bo 8 0 @ put_uint bo 4 0 @ put_uint bo 4 0"

abbreviation cstring :: "string \<Rightarrow> byte list" where
  "cstring s \<equiv> bytes_of_string s @ [0]"

fun data_payload :: "byteorder \<Rightarrow> nvdata \<Rightarrow> byte list" where
  "data_payload bo NBoolean = []"
| "data_payload bo (NNum t w) = put_uint bo (kind_size (scalar_kind t)) w"
| "data_payload bo (NString s) = cstring s"
| "data_payload bo (NBooleanValue b) = put_uint bo 4 (of_bool b)"
| "data_payload bo (NDouble w) = put_uint bo 8 w"
| "data_payload bo (NNumArray t ws) = concat (map (put_uint bo (kind_size (array_kind t))) ws)"
| "data_payload bo (NStringArray ss) = replicate (8 * length ss) 0 @ concat (map cstring ss)"
| "data_payload bo (NBooleanArray bs) = concat (map (\<lambda>b. put_uint bo 4 (of_bool b)) bs)"
| "data_payload bo (NNvlist ps) = nvlist_hdr_bytes bo"
| "data_payload bo (NNvlistArray pss) =
     replicate (8 * length pss) 0 @ concat (replicate (length pss) (nvlist_hdr_bytes bo))"

text \<open>Name and payload, each padded so that the pair's length is a multiple of eight.\<close>

definition align8 :: "byte list \<Rightarrow> byte list" where
  "align8 bs = bs @ replicate (pad_to 8 (length bs)) 0"

definition pair_body :: "byteorder \<Rightarrow> string \<Rightarrow> nvdata \<Rightarrow> byte list" where
  "pair_body bo name d = align8 (align8 (cstring name) @ data_payload bo d)"

definition pair_size :: "byteorder \<Rightarrow> string \<Rightarrow> nvdata \<Rightarrow> nat" where
  "pair_size bo name d = 16 + length (pair_body bo name d)"

definition pair_bytes :: "byteorder \<Rightarrow> string \<Rightarrow> nvdata \<Rightarrow> byte list" where
  "pair_bytes bo name d =
     put_uint bo 4 (word_of_nat (pair_size bo name d)) @
     put_uint bo 2 (word_of_nat (length name + 1)) @
     put_uint bo 2 0 @
     put_uint bo 4 (word_of_nat (data_count d)) @
     put_uint bo 4 (ucast (data_type d)) @
     pair_body bo name d"

text \<open>
  The pairs of an embedded nvlist follow its pair; every list ends with four zero bytes.
\<close>

fun data_nested :: "byteorder \<Rightarrow> nvdata \<Rightarrow> byte list" where
  "data_nested bo (NNvlist ps) =
     concat (map (\<lambda>(n, d). pair_bytes bo n d @ data_nested bo d) ps) @ replicate 4 0"
| "data_nested bo (NNvlistArray pss) =
     concat (map (\<lambda>ps. concat (map (\<lambda>(n, d). pair_bytes bo n d @ data_nested bo d) ps) @
       replicate 4 0) pss)"
| "data_nested bo d = []"

definition item_bytes :: "byteorder \<Rightarrow> string \<times> nvdata \<Rightarrow> byte list" where
  "item_bytes bo p = pair_bytes bo (fst p) (snd p) @ data_nested bo (snd p)"

definition pairs_bytes :: "byteorder \<Rightarrow> nvpairs \<Rightarrow> byte list" where
  "pairs_bytes bo ps = concat (map (item_bytes bo) ps) @ replicate 4 0"

fun order_byte :: "byteorder \<Rightarrow> byte" where
  "order_byte BigEndian = bigEndian"
| "order_byte LittleEndian = littleEndian"

definition wire_header :: "encoding \<Rightarrow> byteorder \<Rightarrow> uint32 \<Rightarrow> uint32 \<Rightarrow> byte list" where
  "wire_header enc bo version flags =
     [encoding_byte enc, order_byte bo, 0, 0] @
     put_uint bo 4 (ucast version) @ put_uint bo 4 (ucast flags)"

definition nvlist_bytes :: "byteorder \<Rightarrow> nvpairs \<Rightarrow> byte list" where
  "nvlist_bytes bo ps = wire_header EncodingNative bo 0 uniqueNameFlag @ pairs_bytes bo ps"

section \<open>Well-formed nvlists\<close>

text \<open>
  What fits the fields of the format and the decoder's limit of 65535 elements: names and
  strings without null bytes, numbers within their width, sizes below \<open>2 ^ 31\<close>.
\<close>

definition fits :: "gkind \<Rightarrow> uint64 \<Rightarrow> bool" where
  "fits k w \<longleftrightarrow> take_bit (8 * kind_size k) w = w"

definition wf_name :: "string \<Rightarrow> bool" where
  "wf_name n \<longleftrightarrow> nul_free n \<and> int (length n + 1) < 2 ^ 15"

definition wf_pair_size :: "string \<Rightarrow> nvdata \<Rightarrow> bool" where
  "wf_pair_size n d \<longleftrightarrow> int (pair_size LittleEndian n d) < 2 ^ 31 \<and> int (data_count d) \<le> 65535"

fun wf_data :: "nvdata \<Rightarrow> bool" where
  "wf_data (NNum t w) = (t \<in> fst ` set scalar_types \<and> fits (scalar_kind t) w)"
| "wf_data (NString s) = nul_free s"
| "wf_data (NNumArray t ws) = (t \<in> fst ` set array_types \<and> list_all (fits (array_kind t)) ws)"
| "wf_data (NStringArray ss) = list_all nul_free ss"
| "wf_data (NNvlist ps) =
     list_all (\<lambda>(n, d). wf_name n \<and> wf_pair_size n d \<and> wf_data d) ps"
| "wf_data (NNvlistArray pss) =
     list_all (list_all (\<lambda>(n, d). wf_name n \<and> wf_pair_size n d \<and> wf_data d)) pss"
| "wf_data _ = True"

definition wf_pair :: "string \<times> nvdata \<Rightarrow> bool" where
  "wf_pair p \<longleftrightarrow> wf_name (fst p) \<and> wf_pair_size (fst p) (snd p) \<and> wf_data (snd p)"

definition wf_nvpairs :: "nvpairs \<Rightarrow> bool" where
  "wf_nvpairs ps \<longleftrightarrow> list_all wf_pair ps"

section \<open>Lemmas\<close>

lemma data_nested_simps [simp]:
  "data_nested bo (NNvlist ps) = pairs_bytes bo ps"
  "data_nested bo (NNvlistArray pss) = concat (map (pairs_bytes bo) pss)"
  by (simp_all add: pairs_bytes_def [abs_def] item_bytes_def [abs_def] case_prod_unfold)

declare data_nested.simps(1,2) [simp del]

lemma wf_data_nvlist [simp]:
  "wf_data (NNvlist ps) = wf_nvpairs ps"
  "wf_data (NNvlistArray pss) = list_all wf_nvpairs pss"
  by (simp_all add: wf_nvpairs_def [abs_def] wf_pair_def [abs_def] case_prod_unfold)

declare wf_data.simps(5,6) [simp del]

lemma pairs_bytes_simps [simp]:
  "pairs_bytes bo [] = replicate 4 0"
  "pairs_bytes bo (p # ps) = item_bytes bo p @ pairs_bytes bo ps"
  by (simp_all add: pairs_bytes_def)

lemma wf_nvpairs_simps [simp]:
  "wf_nvpairs []" "wf_nvpairs (p # ps) \<longleftrightarrow> wf_pair p \<and> wf_nvpairs ps"
  by (simp_all add: wf_nvpairs_def)

lemma length_nvlist_hdr_bytes [simp]: "length (nvlist_hdr_bytes bo) = 24"
  by (simp add: nvlist_hdr_bytes_def)

lemma length_align8: "length (align8 bs) mod 8 = 0"
  by (simp add: align8_def pad_to_mod)

lemma length_pair_bytes [simp]: "length (pair_bytes bo n d) = pair_size bo n d"
  by (simp add: pair_bytes_def pair_size_def)

text \<open>Lengths do not depend on the byte order.\<close>

lemma length_data_payload: "length (data_payload bo d) = length (data_payload bo' d)"
  by (cases d) (simp_all add: length_concat sum_list_replicate comp_def)

lemma pair_size_order: "pair_size bo n d = pair_size bo' n d"
  using length_data_payload [of bo d bo'] by (simp add: pair_size_def pair_body_def align8_def)

lemma pair_size_ge: "24 \<le> pair_size bo n d"
proof -
  have "0 < length (pair_body bo n d)"
    by (simp add: pair_body_def align8_def)
  then have "8 \<le> length (pair_body bo n d)"
    using length_align8 [of "align8 (cstring n) @ data_payload bo d"]
    by (metis dvd_imp_le mod_0_imp_dvd pair_body_def)
  then show ?thesis by (simp add: pair_size_def)
qed

end
