(* ===== verification/Nv_Decoder_Correct.thy ===== *)
theory Nv_Decoder_Correct
  imports Nv_Decoder_Safe Nv_Wire
begin

text \<open>
  Correctness of the decoder against the format specification: the Go value that stands for an
  abstract nvlist, and that \<^verbatim>\<open>Unmarshal\<close> into an untyped target reads the bytes of a
  well-formed nvlist, in either byte order and with anything behind it, as that value.
\<close>

section \<open>The Go value of an nvlist\<close>

text \<open>\<open>None\<close> for data the decoder skips. A later pair of a name replaces an earlier one.\<close>

fun go_value :: "nvdata \<Rightarrow> gval option" where
  "go_value NBoolean = Some (VBool TBool True)"
| "go_value (NNum t w) = Some (VNum (TBasic (scalar_kind t)) w)"
| "go_value (NString s) = Some (VString TString s)"
| "go_value (NBooleanValue b) = Some (VBool TBool b)"
| "go_value (NDouble w) = None"
| "go_value (NNumArray t ws) =
     Some (VSlice (TSlice (TBasic (array_kind t))) (map (VNum (TBasic (array_kind t))) ws))"
| "go_value (NStringArray ss) = Some (VSlice (TSlice TString) (map (VString TString) ss))"
| "go_value (NBooleanArray bs) = Some (VSlice (TSlice TBool) (map (VBool TBool) bs))"
| "go_value (NNvlist ps) =
     Some (VMap TAnyMap (Some (fold (\<lambda>p m. case go_value (snd p) of
        None \<Rightarrow> m | Some v \<Rightarrow> alist_set (fst p) (VIface (Some v)) m) ps [])))"
| "go_value (NNvlistArray pss) =
     Some (VSlice (TSlice TAnyMap) (map (\<lambda>ps. VMap TAnyMap (Some (fold (\<lambda>p m. case go_value (snd p) of
        None \<Rightarrow> m | Some v \<Rightarrow> alist_set (fst p) (VIface (Some v)) m) ps []))) pss))"

definition add_entry :: "string \<times> nvdata \<Rightarrow> (string \<times> gval) list \<Rightarrow> (string \<times> gval) list" where
  "add_entry p m =
     (case go_value (snd p) of None \<Rightarrow> m | Some v \<Rightarrow> alist_set (fst p) (VIface (Some v)) m)"

definition add_entries :: "nvpairs \<Rightarrow> (string \<times> gval) list \<Rightarrow> (string \<times> gval) list" where
  "add_entries ps m = fold add_entry ps m"

definition go_map :: "nvpairs \<Rightarrow> gval" where
  "go_map ps = VMap TAnyMap (Some (add_entries ps []))"

lemma go_value_nvlist [simp]:
  "go_value (NNvlist ps) = Some (go_map ps)"
  "go_value (NNvlistArray pss) = Some (VSlice (TSlice TAnyMap) (map go_map pss))"
  by (simp_all add: go_map_def [abs_def] add_entries_def add_entry_def [abs_def])

declare go_value.simps(9,10) [simp del]

lemma add_entries_simps [simp]:
  "add_entries [] m = m" "add_entries (p # ps) m = add_entries ps (add_entry p m)"
  by (simp_all add: add_entries_def)

section \<open>Reading at a known position\<close>

text \<open>\<open>bs\<close> are the bytes from the reader's position to the end of the data.\<close>

definition p_at :: "nvlistReader \<Rightarrow> nvPairReader \<Rightarrow> byte list \<Rightarrow> bool" where
  "p_at r p bs \<longleftrightarrow> 0 \<le> p_currentByte p \<and> p_limit p \<le> int (length (r_nvlist r)) \<and>
     drop (nat (p_currentByte p)) (r_nvlist r) = bs"

definition p_adv :: "nat \<Rightarrow> nvPairReader \<Rightarrow> nvPairReader" where
  "p_adv n p = p\<lparr>p_currentByte := p_currentByte p + int n\<rparr>"

lemma p_adv_simps [simp]:
  "p_currentByte (p_adv n p) = p_currentByte p + int n"
  "p_limit (p_adv n p) = p_limit p" "p_startByte (p_adv n p) = p_startByte p"
  "p_adv 0 p = p" "p_adv m (p_adv n p) = p_adv (n + m) p"
  by (simp_all add: p_adv_def p_limit_def)

lemma p_at_adv: "p_at r p (xs @ ys) \<Longrightarrow> p_at r (p_adv (length xs) p) ys"
proof -
  assume at: "p_at r p (xs @ ys)"
  then have "drop (length xs + nat (p_currentByte p)) (r_nvlist r) = ys"
    by (metis append_eq_conv_conj drop_drop p_at_def)
  with at show ?thesis by (simp add: p_at_def nat_add_distrib add.commute)
qed

lemma readFull_at:
  assumes "p_at r p (xs @ ys)" and "p_currentByte p + int (length xs) \<le> p_limit p"
  shows "readFull (p_Read r) (length xs) p = (Ok xs, p_adv (length xs) p)"
  using npr.readFull_full [of p r "length xs"] assms by (simp add: p_at_def p_adv_def)

lemma p_readInt_at:
  assumes "p_at r p (put_uint bo n w @ ys)" and "p_currentByte p + int n \<le> p_limit p"
    and "r_endianness r = Some bo"
  shows "p_readInt r n p = (Ok (take_bit (8 * n) w), p_adv n p)"
  using readFull_at [OF assms(1)] assms(2,3) by (simp add: p_readInt_def bind_comp_def ret_def)

lemma p_readN_at:
  assumes "p_at r p (xs @ ys)" and "p_currentByte p + int (length xs) \<le> p_limit p"
  shows "p_readN r (int (length xs)) p = (Ok xs, p_adv (length xs) p)"
  using assms
  by (auto simp: p_readN_def p_at_def bind_comp_def lift_res_def go_slice_def p_adv_def)

lemma find_delim_at:
  assumes "0 \<le> cur" and "drop (nat cur) xs = bs @ d # ys" and "d \<notin> set bs"
    and "cur + int (length bs) \<le> lim"
  shows "find_delim xs d lim cur = Ok (Some (cur + int (length bs)))"
  using assms
proof (induction bs arbitrary: cur)
  case Nil
  then have "nat cur < length xs" by (metis append_Nil drop_eq_Nil list.discI not_le)
  moreover have "xs ! nat cur = d"
    using Nil calculation by (metis append_Nil hd_drop_conv_nth list.sel(1))
  ultimately show ?case
    using Nil by (simp add: find_delim.simps [of xs d lim cur] go_index_def)
next
  case (Cons b bs)
  then have len: "nat cur < length xs" by (metis append_Cons drop_eq_Nil list.discI not_le)
  have b: "xs ! nat cur = b" using Cons.prems(2) len by (metis append_Cons hd_drop_conv_nth list.sel(1))
  have "drop (nat (cur + 1)) xs = bs @ d # ys"
    using Cons.prems(1,2) by (metis Suc_nat_eq_nat_zadd1 add.commute append_Cons drop_Suc list.sel(3) tl_drop)
  then have "find_delim xs d lim (cur + 1) = Ok (Some (cur + 1 + int (length bs)))"
    using Cons by auto
  then show ?case
    using Cons.prems len b by (auto simp: find_delim.simps [of xs d lim cur] go_index_def)
qed

lemma read_cstring_at:
  assumes "p_at r p (cstring s @ ys)" and "p_currentByte p + int (length s + 1) \<le> p_limit p"
    and "nul_free s"
  shows "read_cstring r p = (Ok s, p_adv (length s + 1) p)"
proof -
  have at: "0 \<le> p_currentByte p" "drop (nat (p_currentByte p)) (r_nvlist r) = bytes_of_string s @ 0 # ys"
    "p_limit p \<le> int (length (r_nvlist r))"
    using assms(1) by (auto simp: p_at_def)
  have "find_delim (r_nvlist r) 0 (p_limit p) (p_currentByte p) = Ok (Some (p_currentByte p + int (length s)))"
    using find_delim_at [OF at(1,2)] assms(2,3) nul_free_bytes by fastforce
  moreover have "go_slice (r_nvlist r) (p_currentByte p) (p_currentByte p + int (length s) + 1) = Ok (cstring s)"
    using at assms(2) by (simp add: go_slice_def nat_add_distrib)
  ultimately show ?thesis
    by (simp add: read_cstring_def p_ReadBytes_def bind_comp_def lift_res_def Let_def ret_def
        go_slice_def p_adv_def comp_def)
qed

section \<open>The header of a pair on the wire\<close>

lemma int16_of_nat: "x < 2 ^ 15 \<Longrightarrow> int16_of (take_bit 16 (word_of_nat x)) = int x"
proof -
  assume x: "x < 2 ^ 15"
  have "(ucast (take_bit 16 (word_of_nat x :: uint64)) :: 16 word) = word_of_nat x"
    by (rule bit_word_eqI) (auto simp: bit_simps)
  then show ?thesis using x by (simp add: signed_of_nat signed_take_bit_int_eq_self)
qed

lemma int32_of_nat: "x < 2 ^ 31 \<Longrightarrow> int32_of (take_bit 32 (word_of_nat x)) = int x"
proof -
  assume x: "x < 2 ^ 31"
  have "(ucast (take_bit 32 (word_of_nat x :: uint64)) :: 32 word) = word_of_nat x"
    by (rule bit_word_eqI) (auto simp: bit_simps)
  then show ?thesis using x by (simp add: signed_of_nat signed_take_bit_int_eq_self)
qed

definition wire_nvpair :: "byteorder \<Rightarrow> string \<Rightarrow> nvdata \<Rightarrow> nvpair" where
  "wire_nvpair bo n d = \<lparr>nvp_Size = word_of_nat (pair_size bo n d),
     nvp_Name_sz = word_of_nat (length n + 1), nvp_Reserve = 0,
     nvp_Value_elem = word_of_nat (data_count d), nvp_Type = data_type d\<rparr>"

lemma ucast_word_of_nat:
  "(ucast (take_bit 32 (word_of_nat x :: uint64)) :: 32 word) = word_of_nat x"
  "(ucast (take_bit 16 (word_of_nat x :: uint64)) :: 16 word) = word_of_nat x"
  "(ucast (take_bit 32 (ucast t :: uint64)) :: 32 word) = t" for t :: "32 word"
  by (rule bit_word_eqI; auto simp: bit_simps)+

lemma elem_count_wire: "data_count d \<le> 65535 \<Longrightarrow> elem_count (wire_nvpair bo n d) = data_count d"
  by (simp add: elem_count_def wire_nvpair_def signed_of_nat signed_take_bit_int_eq_self)

lemma p_skipToAlign_name:
  assumes "r_encoding r = EncodingNative" and "p_currentByte p = p_startByte p + 16 + int (length bs)"
  shows "p_skipToAlign r p = (Ok (), p_adv (pad_to 8 (length bs)) p)"
proof -
  have "(16 + int (length bs)) mod 8 = int (length bs mod 8)"
    using mod_mult_self2 [of "int (length bs)" 8 2] by (simp only: zmod_int) (simp add: add.commute)
  moreover have "p_currentByte p - p_startByte p = 16 + int (length bs)" using assms(2) by simp
  ultimately have off: "(p_currentByte p - p_startByte p) mod 8 = int (length bs mod 8)" by metis
  have "int (8 - length bs mod 8) = 8 - int (length bs mod 8)" by (simp add: of_nat_diff)
  then show ?thesis
    using assms(1) off by (simp add: p_skipToAlign_def Let_def pad_to_def p_adv_def)
qed

lemma read_pair_fields_wire:
  assumes at: "p_at r p (put_uint bo 2 (word_of_nat (length n + 1)) @ put_uint bo 2 0 @
      put_uint bo 4 (word_of_nat (data_count d)) @ put_uint bo 4 (ucast (data_type d)) @
      cstring n @ rest)"
    and lim: "p_limit p = p_startByte p + int (pair_size bo n d)"
    and cur: "p_currentByte p = p_startByte p + 4"
    and r: "r_endianness r = Some bo" "r_encoding r = EncodingNative"
    and wf: "wf_name n" "data_count d \<le> 65535"
    and sz: "sz = take_bit 32 (word_of_nat (pair_size bo n d))"
  shows "read_pair_fields r sz p =
     (Ok (wire_nvpair bo n d, n), p_adv (12 + length (align8 (cstring n))) p)"
proof -
  have len: "int (length (cstring n)) + 16 \<le> int (pair_size bo n d)"
    by (simp add: pair_size_def pair_body_def align8_def)
  note at1 = p_at_adv [OF at, simplified]
  note at2 = p_at_adv [OF at1, simplified]
  note at3 = p_at_adv [OF at2, simplified]
  note at4 = p_at_adv [OF at3, simplified]
  have i1: "p_readInt r 2 p = (Ok (take_bit 16 (word_of_nat (length n + 1))), p_adv 2 p)"
    using p_readInt_at [OF at _ r(1)] lim cur len by simp
  have i2: "p_readInt r 2 (p_adv 2 p) = (Ok 0, p_adv 4 p)"
    using p_readInt_at [OF at1 _ r(1)] lim cur len by simp
  have i3: "p_readInt r 4 (p_adv 4 p) = (Ok (take_bit 32 (word_of_nat (data_count d))), p_adv 8 p)"
    using p_readInt_at [OF at2 _ r(1)] lim cur len by simp
  have i4: "p_readInt r 4 (p_adv 8 p) = (Ok (take_bit 32 (ucast (data_type d))), p_adv 12 p)"
    using p_readInt_at [OF at3 _ r(1)] lim cur len by simp
  have nm: "p_readN r (int (length n + 1)) (p_adv 12 p) = (Ok (cstring n), p_adv (12 + length (cstring n)) p)"
    using p_readN_at [of r "p_adv 12 p" "cstring n" rest] at4 lim cur len by simp
  have al: "p_skipToAlign r (p_adv (12 + length (cstring n)) p) =
      (Ok (), p_adv (12 + length (align8 (cstring n))) p)"
    using p_skipToAlign_name [of r "p_adv (12 + length (cstring n)) p" "cstring n"] cur r(2)
    by (simp add: align8_def add.assoc)
  have v: "int16_of (take_bit 16 (word_of_nat (length n + 1))) = int (length n + 1)"
    "int32_of (take_bit 32 (word_of_nat (data_count d))) = int (data_count d)"
    using wf int16_of_nat [of "length n + 1"] int32_of_nat [of "data_count d"] by (auto simp: wf_name_def)
  have nz: "\<not> int (length n + 1) \<le> 0" "\<not> int (data_count d) < 0" "\<not> 65535 < int (data_count d)"
    using wf(2) by auto
  have sl: "go_slice (cstring n) 0 (int (length (cstring n)) - 1) = Ok (bytes_of_string n)"
    by (simp add: go_slice_def)
  note bind = bind_comp_Ok [where m = "p_readInt r 2"] bind_comp_Ok [where m = "p_readInt r 4"]
    bind_comp_Ok [where m = "p_readN r k" for k] bind_comp_Ok [where m = "p_skipToAlign r"]
    bind_comp_Ok [where m = "lift_res x" for x]
  show ?thesis
    unfolding read_pair_fields_def
    by (simp only: bind i1 i2 i3 i4 v nz if_False nm lift_res_def sl al ret_def)
      (simp add: wire_nvpair_def sz ucast_word_of_nat comp_def del: of_nat_add of_nat_Suc)
qed

definition r_at :: "byteorder \<Rightarrow> nvlistReader \<Rightarrow> byte list \<Rightarrow> bool" where
  "r_at bo r bs \<longleftrightarrow> 0 \<le> r_currentByte r \<and> drop (nat (r_currentByte r)) (r_nvlist r) = bs \<and>
     r_currentByte r \<le> int (length (r_nvlist r)) \<and>
     r_endianness r = Some bo \<and> r_encoding r = EncodingNative"

definition r_adv :: "nat \<Rightarrow> nvlistReader \<Rightarrow> nvlistReader" where
  "r_adv n r = r\<lparr>r_currentByte := r_currentByte r + int n\<rparr>"

lemma r_adv_simps [simp]:
  "r_currentByte (r_adv n r) = r_currentByte r + int n" "r_nvlist (r_adv n r) = r_nvlist r"
  "r_endianness (r_adv n r) = r_endianness r" "r_encoding (r_adv n r) = r_encoding r"
  "r_adv m (r_adv n r) = r_adv (n + m) r"
  by (simp_all add: r_adv_def add.assoc)

lemma r_at_length: "r_at bo r bs \<Longrightarrow> int (length (r_nvlist r)) = r_currentByte r + int (length bs)"
  by (auto simp: r_at_def)

lemma r_at_adv:
  assumes "r_at bo r (xs @ ys)"
  shows "r_at bo (r_adv (length xs) r) ys"
proof -
  have "drop (length xs + nat (r_currentByte r)) (r_nvlist r) = ys"
    using assms by (metis append_eq_conv_conj drop_drop r_at_def)
  then show ?thesis
    using assms r_at_length [OF assms] by (simp add: r_at_def nat_add_distrib add.commute)
qed

lemma r_readInt_at:
  assumes "r_at bo r (put_uint bo n w @ ys)"
  shows "r_readInt n r = (Ok (take_bit (8 * n) w), r_adv n r)"
  using r_readInt_cases(1) [of r bo n] r_at_length [OF assms] assms
  by (auto simp: r_at_def r_adv_def)

definition wire_pair_reader :: "byteorder \<Rightarrow> string \<Rightarrow> nvdata \<Rightarrow> nvlistReader \<Rightarrow> nvPairReader" where
  "wire_pair_reader bo n d r =
     \<lparr>p_startByte = r_currentByte r, p_sizeBytes = int (pair_size bo n d),
      p_currentByte = r_currentByte r + 16 + int (length (align8 (cstring n)))\<rparr>"

lemma read_pair_head_wire:
  assumes at: "r_at bo r (pair_bytes bo n d @ rest)" and rest: "4 \<le> length rest"
    and wf: "wf_name n" "wf_pair_size n d"
  shows "read_pair_head r =
     (Ok (Some (wire_nvpair bo n d, n, wire_pair_reader bo n d r)), r_adv (pair_size bo n d) r)"
proof -
  let ?s = "pair_size bo n d"
  let ?p = "\<lparr>p_startByte = r_currentByte r, p_sizeBytes = int ?s, p_currentByte = r_currentByte r + 4\<rparr>"
  have s: "?s < 2 ^ 31" "data_count d \<le> 65535"
    using wf(2) pair_size_order [of bo n d LittleEndian] by (auto simp: wf_pair_size_def)
  have pos: "0 < ?s" using pair_size_ge [of bo n d] by simp
  have sz: "int32_of (take_bit 32 (word_of_nat ?s)) = int ?s" using int32_of_nat [OF s(1)] .
  have i: "r_readInt 4 r = (Ok (take_bit 32 (word_of_nat ?s)), r_adv 4 r)"
    using r_readInt_at [of bo r 4 "word_of_nat ?s"] at by (simp add: pair_bytes_def)
  have len: "\<not> int ?s + r_currentByte (r_adv 4 r) > int (length (r_nvlist (r_adv 4 r)))"
    using r_at_length [OF at] rest by simp
  have skip: "skip_pair (int ?s) (r_adv 4 r) = r_adv ?s r"
    using at pos by (simp add: skip_pair_def Let_def r_at_def r_adv_def)
  have at4: "r_at bo (r_adv 4 r) (put_uint bo 2 (word_of_nat (length n + 1)) @ put_uint bo 2 0 @
      put_uint bo 4 (word_of_nat (data_count d)) @ put_uint bo 4 (ucast (data_type d)) @
      cstring n @ (replicate (pad_to 8 (length (cstring n))) 0 @ data_payload bo d @
        replicate (pad_to 8 (length (align8 (cstring n) @ data_payload bo d))) 0 @ rest))"
    using r_at_adv [of bo r "put_uint bo 4 (word_of_nat ?s)"] at
    by (simp add: pair_bytes_def pair_body_def align8_def)
  have "read_pair_fields (r_adv ?s r) (take_bit 32 (word_of_nat ?s)) ?p =
      (Ok (wire_nvpair bo n d, n), p_adv (12 + length (align8 (cstring n))) ?p)"
    by (rule read_pair_fields_wire)
      (use at4 at wf(1) s r_at_length [OF at] in \<open>auto simp: p_at_def r_at_def p_limit_def\<close>)
  then show ?thesis
    using i sz len skip pos
    by (simp add: read_pair_head_def bind_comp_def Let_def wire_pair_reader_def p_adv_def)
qed

lemma read_pair_head_end:
  assumes "r_at bo r (replicate 4 0 @ rest)"
  shows "read_pair_head r = (Ok None, r_adv 4 r)"
proof -
  have "put_uint bo 4 0 = replicate 4 0"
    by (cases bo) (simp_all add: numeral_eq_Suc)
  then have "r_readInt 4 r = (Ok 0, r_adv 4 r)"
    using r_readInt_at [of bo r 4 0 rest] assms by simp
  then show ?thesis by (simp add: read_pair_head_def bind_comp_def Let_def)
qed

lemma payload_at:
  assumes at: "r_at bo r (pair_bytes bo n d @ rest)"
  shows "p_at r (wire_pair_reader bo n d r) (data_payload bo d @
      replicate (pad_to 8 (length (align8 (cstring n) @ data_payload bo d))) 0 @ rest)"
    and "p_currentByte (wire_pair_reader bo n d r) + int (length (data_payload bo d)) \<le>
      p_limit (wire_pair_reader bo n d r)"
proof -
  let ?h = "put_uint bo 4 (word_of_nat (pair_size bo n d)) @
     put_uint bo 2 (word_of_nat (length n + 1)) @ put_uint bo 2 0 @
     put_uint bo 4 (word_of_nat (data_count d)) @ put_uint bo 4 (ucast (data_type d)) @
     align8 (cstring n)"
  have "r_at bo r (?h @ (data_payload bo d @
      replicate (pad_to 8 (length (align8 (cstring n) @ data_payload bo d))) 0 @ rest))"
    using at by (simp add: pair_bytes_def pair_body_def align8_def [of "_ @ data_payload bo d"])
  from r_at_adv [OF this] r_at_length [OF at]
  show "p_at r (wire_pair_reader bo n d r) (data_payload bo d @
      replicate (pad_to 8 (length (align8 (cstring n) @ data_payload bo d))) 0 @ rest)"
    by (simp add: r_at_def p_at_def wire_pair_reader_def p_limit_def add.assoc)
  show "p_currentByte (wire_pair_reader bo n d r) + int (length (data_payload bo d)) \<le>
      p_limit (wire_pair_reader bo n d r)"
    by (simp add: wire_pair_reader_def p_limit_def pair_size_def pair_body_def
        align8_def [of "_ @ data_payload bo d"])
qed

section \<open>The value of a pair on the wire\<close>

lemma read_many_at:
  assumes step: "\<And>x p ys. x \<in> set xs \<Longrightarrow> p_at r p (enc x @ ys) \<Longrightarrow>
      p_currentByte p + int (length (enc x)) \<le> p_limit p \<Longrightarrow> m p = (Ok x, p_adv (length (enc x)) p)"
    and at: "p_at r p (concat (map enc xs) @ ys)"
    and lim: "p_currentByte p + int (length (concat (map enc xs))) \<le> p_limit p"
  shows "read_many (length xs) m p = (Ok xs, p_adv (length (concat (map enc xs))) p)"
  using assms
proof (induction xs arbitrary: p)
  case Nil
  then show ?case by (simp add: ret_def)
next
  case (Cons x xs)
  have "p_at r (p_adv (length (enc x)) p) (concat (map enc xs) @ ys)"
    using p_at_adv [of r p "enc x"] Cons.prems(2) by simp
  then have "read_many (length xs) m (p_adv (length (enc x)) p) =
      (Ok xs, p_adv (length (concat (map enc xs))) (p_adv (length (enc x)) p))"
    using Cons.prems by (intro Cons.IH) auto
  moreover have "m p = (Ok x, p_adv (length (enc x)) p)"
    using Cons.prems(1) [of x p "concat (map enc xs) @ ys"] Cons.prems(2,3) by simp
  ultimately show ?case by (simp add: bind_comp_def ret_def)
qed

lemma read_bool_at:
  assumes "p_at r p (put_uint bo 4 (of_bool b) @ ys)" and "p_currentByte p + 4 \<le> p_limit p"
    and "r_endianness r = Some bo"
  shows "read_bool r p = (Ok b, p_adv 4 p)"
proof -
  have "p_readInt r 4 p = (Ok (of_bool b), p_adv 4 p)"
    using p_readInt_at [OF assms(1) _ assms(3)] assms(2) by (cases b) simp_all
  then show ?thesis by (cases b) (simp_all add: read_bool_def bind_comp_def ret_def)
qed

lemma put_uint_1: "put_uint bo 1 w = [ucast w]"
  by (cases bo) simp_all

lemma fits_1: "fits k w \<Longrightarrow> kind_size k = 1 \<Longrightarrow> ucast (ucast w :: byte) = w"
  by (simp add: fits_def ucast_ucast_byte)

lemma read_int_array_at:
  assumes at: "p_at r p (concat (map (put_uint bo (kind_size k)) ws) @ ys)"
    and lim: "p_currentByte p + int (length (concat (map (put_uint bo (kind_size k)) ws))) \<le> p_limit p"
    and en: "r_endianness r = Some bo" and fit: "list_all (fits k) ws"
  shows "fst (read_int_array r k (length ws) p) =
    Ok (VSlice (TSlice (TBasic k)) (map (VNum (TBasic k)) ws))"
proof -
  have len: "length (concat (map (put_uint bo (kind_size k)) ws)) = kind_size k * length ws"
    by (rule ord.length_put_array)
  have "map (get_uint bo) (chunks (kind_size k) (length ws)
      (concat (map (put_uint bo (kind_size k)) ws))) = ws"
    using ord.chunks_put_array_fits [of ws "kind_size k" bo "[]"] fit
    by (simp add: list_all_iff fits_def)
  then have "map (VNum (TBasic k) \<circ> get_uint bo) (chunks (kind_size k) (length ws)
      (concat (map (put_uint bo (kind_size k)) ws))) = map (VNum (TBasic k)) ws"
    by (metis map_map)
  then show ?thesis
    using readFull_at [OF at lim] en unfolding len
    by (simp add: read_int_array_def bind_comp_def ret_def comp_def)
qed

text \<open>The type switch, by the kinds of data.\<close>

lemma int_types_scalar:
  "t \<in> fst ` set scalar_types \<Longrightarrow> t \<noteq> typeByte \<Longrightarrow> map_of int_types t = Some (scalar_kind t)"
  by (auto simp: scalar_types_def int_types_def scalar_kind_def nvtype_defs)

lemma int_types_array:
  "t \<in> fst ` set array_types \<Longrightarrow> t \<noteq> typeByteArray \<Longrightarrow> map_of int_array_types t = Some (array_kind t)"
  by (auto simp: array_types_def int_array_types_def array_kind_def nvtype_defs)

lemma map_of_int_types_None [simp]:
  "map_of int_types typeByte = None" "map_of int_types typeString = None"
  "map_of int_types typeBooleanValue = None" "map_of int_types typeByteArray = None"
  "map_of int_types typeStringArray = None" "map_of int_types typeBooleanArray = None"
  "map_of int_types typeDouble = None" "map_of int_array_types typeByteArray = None"
  "map_of int_array_types typeStringArray = None" "map_of int_array_types typeBooleanArray = None"
  "map_of int_array_types typeDouble = None"
  by (simp_all add: int_types_def int_array_types_def nvtype_defs)

lemma array_types_not_scalar:
  "t \<in> fst ` set array_types \<Longrightarrow> map_of int_types t = None \<and> t \<noteq> typeUnknown \<and> t \<noteq> typeBoolean \<and>
     t \<noteq> typeByte \<and> t \<noteq> typeString \<and> t \<noteq> typeBooleanValue \<and> t \<noteq> typeNvlist \<and> t \<noteq> typeNvlistArray"
  by (auto simp: array_types_def int_types_def nvtype_defs)

lemma scalar_types_known:
  "t \<in> fst ` set scalar_types \<Longrightarrow> t \<noteq> typeUnknown \<and> t \<noteq> typeBoolean \<and> t \<noteq> typeNvlist \<and> t \<noteq> typeNvlistArray"
  by (auto simp: scalar_types_def nvtype_defs)

lemma scalar_kind_byte: "scalar_kind typeByte = KUint8" "array_kind typeByteArray = KUint8"
  by (simp_all add: scalar_kind_def array_kind_def scalar_types_def array_types_def nvtype_defs)

lemma wire_nvpair_Type [simp]: "nvp_Type (wire_nvpair bo n d) = data_type d"
  by (simp add: wire_nvpair_def)

lemma p_ReadByte_at:
  assumes "p_at r p (b # ys)" and "p_currentByte p + 1 \<le> p_limit p"
  shows "p_ReadByte r p = (Ok b, p_adv 1 p)"
proof -
  have "r_nvlist r ! nat (p_currentByte p) = b"
    using assms by (auto simp: p_at_def) (metis drop_eq_Nil hd_drop_conv_nth list.discI list.sel(1) not_le)
  then show ?thesis
    using assms by (auto simp: p_ReadByte_def bind_comp_def lift_res_def go_index_def p_at_def p_adv_def)
qed

lemma type_switch [simp]:
  "typeByte \<noteq> typeUnknown" "typeByte \<noteq> typeBoolean" "typeString \<noteq> typeUnknown"
  "typeString \<noteq> typeBoolean" "typeString \<noteq> typeByte" "typeBooleanValue \<noteq> typeUnknown"
  "typeBooleanValue \<noteq> typeBoolean" "typeBooleanValue \<noteq> typeByte" "typeBooleanValue \<noteq> typeString"
  "typeBoolean \<noteq> typeUnknown"
  by (simp_all add: nvtype_defs)

lemma type_switch_arrays [simp]:
  "t \<in> {typeByteArray, typeStringArray, typeBooleanArray, typeDouble} \<Longrightarrow>
     t \<notin> {typeUnknown, typeBoolean, typeByte, typeString, typeBooleanValue}"
  "typeStringArray \<noteq> typeByteArray" "typeBooleanArray \<noteq> typeByteArray"
  "typeBooleanArray \<noteq> typeStringArray" "typeDouble \<notin> {typeByteArray, typeStringArray, typeBooleanArray}"
  by (auto simp: nvtype_defs)

lemma read_num_wire:
  assumes "wf_data (NNum t w)" and "p_at r p (data_payload bo (NNum t w) @ ys)"
    and "p_currentByte p + int (length (data_payload bo (NNum t w))) \<le> p_limit p"
    and "r_endianness r = Some bo"
  shows "fst (read_value r (wire_nvpair bo n (NNum t w)) p) = Ok (go_value (NNum t w))"
proof (cases "t = typeByte")
  case True
  then have "p_at r p (ucast w # ys)" "p_currentByte p + 1 \<le> p_limit p" "ucast (ucast w :: byte) = w"
    using assms fits_1 [of KUint8 w] by (auto simp: scalar_kind_byte put_uint_1 simp del: put_uint.simps One_nat_def)
  then show ?thesis
    using True by (simp add: read_value_def Let_def bind_comp_def p_ReadByte_at ret_def scalar_kind_byte type_switch)
next
  case False
  then show ?thesis
    using p_readInt_at [OF assms(2) [simplified] _ assms(4)] assms(1,3) scalar_types_known [of t]
    by (simp add: read_value_def Let_def int_types_scalar bind_comp_def ret_def fits_def)
qed


lemma read_num_array_wire:
  assumes wf: "wf_data (NNumArray t ws)" and at: "p_at r p (data_payload bo (NNumArray t ws) @ ys)"
    and lim: "p_currentByte p + int (length (data_payload bo (NNumArray t ws))) \<le> p_limit p"
    and en: "r_endianness r = Some bo" and cnt: "length ws \<le> 65535"
  shows "fst (read_value r (wire_nvpair bo n (NNumArray t ws)) p) = Ok (go_value (NNumArray t ws))"
proof -
  have n: "elem_count (wire_nvpair bo n (NNumArray t ws)) = length ws"
    using cnt by (simp add: elem_count_wire)
  note t = array_types_not_scalar [of t]
  show ?thesis
  proof (cases "t = typeByteArray")
    case True
    have "concat (map (put_uint bo 1) ws) = map ucast ws"
      by (induction ws) (simp_all add: put_uint_1 del: put_uint.simps One_nat_def)
    then have "p_readN r (int (length ws)) p = (Ok (map ucast ws), p_adv (length ws) p)"
      using p_readN_at [of r p "map ucast ws" ys] at lim True by (simp add: scalar_kind_byte)
    moreover have "ucast (ucast w :: byte) = w" if "w \<in> set ws" for w
      using that wf True fits_1 [of KUint8 w] by (simp add: scalar_kind_byte list_all_iff)
    ultimately show ?thesis
      using True n by (simp add: read_value_def Let_def bind_comp_def ret_def scalar_kind_byte
          type_switch_arrays(1) [of typeByteArray, simplified])
  next
    case False
    then show ?thesis
      using read_int_array_at [OF at [simplified] lim [simplified] en] wf t
      by (auto simp: read_value_def Let_def n int_types_array bind_comp_def ret_def split: prod.splits res.splits)
  qed
qed

lemma read_string_array_wire:
  assumes wf: "list_all nul_free ss" and at: "p_at r p (data_payload bo (NStringArray ss) @ ys)"
    and lim: "p_currentByte p + int (length (data_payload bo (NStringArray ss))) \<le> p_limit p"
    and cnt: "length ss \<le> 65535"
  shows "fst (read_value r (wire_nvpair bo n (NStringArray ss)) p) = Ok (go_value (NStringArray ss))"
proof -
  let ?p = "p_adv (8 * length ss) p"
  have n: "elem_count (wire_nvpair bo n (NStringArray ss)) = length ss"
    using cnt by (simp add: elem_count_wire)
  have "p_at r ?p (concat (map cstring ss) @ ys)"
    using p_at_adv [of r p "replicate (8 * length ss) 0"] at by simp
  then have "read_many (length ss) (read_cstring r) ?p =
      (Ok ss, p_adv (length (concat (map cstring ss))) ?p)"
    using wf lim read_cstring_at by (intro read_many_at) (auto simp: list_all_iff add.assoc)
  moreover have "p_skipN (int (8 * length ss)) p = (Ok (), ?p)"
    by (simp add: p_skipN_def p_adv_def)
  ultimately show ?thesis
    by (simp add: read_value_def Let_def n bind_comp_def ret_def
        type_switch_arrays(1) [of typeStringArray, simplified] del: of_nat_mult)
qed

lemma read_bool_array_wire:
  assumes at: "p_at r p (data_payload bo (NBooleanArray bs) @ ys)"
    and lim: "p_currentByte p + int (length (data_payload bo (NBooleanArray bs))) \<le> p_limit p"
    and en: "r_endianness r = Some bo" and cnt: "length bs \<le> 65535"
  shows "fst (read_value r (wire_nvpair bo n (NBooleanArray bs)) p) = Ok (go_value (NBooleanArray bs))"
proof -
  have n: "elem_count (wire_nvpair bo n (NBooleanArray bs)) = length bs"
    using cnt by (simp add: elem_count_wire)
  have "read_many (length bs) (read_bool r) p =
      (Ok bs, p_adv (length (concat (map (\<lambda>b. put_uint bo 4 (of_bool b)) bs))) p)"
    using read_many_at [OF _ at [simplified] lim [simplified]] read_bool_at [OF _ _ en] by simp
  then show ?thesis
    by (simp add: read_value_def Let_def n bind_comp_def ret_def
        type_switch_arrays(1) [of typeBooleanArray, simplified])
qed

lemma read_value_wire:
  assumes wf: "wf_data d" and at: "p_at r p (data_payload bo d @ ys)"
    and lim: "p_currentByte p + int (length (data_payload bo d)) \<le> p_limit p"
    and en: "r_endianness r = Some bo" and cnt: "data_count d \<le> 65535"
    and flat: "data_type d \<notin> {typeNvlist, typeNvlistArray}"
  shows "fst (read_value r (wire_nvpair bo n d) p) = Ok (go_value d)"
proof (cases d)
  case (NString s)
  then show ?thesis
    using read_cstring_at [of r p s ys] at lim wf
    by (simp add: read_value_def Let_def bind_comp_def ret_def)
next
  case (NBooleanValue b)
  then show ?thesis
    using read_bool_at [of r p bo b ys] at lim en
    by (simp add: read_value_def Let_def bind_comp_def ret_def)
next
  case (NDouble w)
  then show ?thesis
    by (simp add: read_value_def Let_def ret_def type_switch_arrays(1) [of typeDouble, simplified]
        type_switch_arrays(5) [simplified])
qed (use assms read_num_wire read_num_array_wire read_string_array_wire read_bool_array_wire in
  \<open>simp_all add: read_value_def Let_def ret_def\<close>)

section \<open>The pairs of a list on the wire\<close>

definition decodes :: "nat \<Rightarrow> pairs_reader \<Rightarrow> bool" where
  "decodes N rec \<longleftrightarrow> (\<forall>bo ps st r m post. wf_nvpairs ps \<longrightarrow> r_at bo r (pairs_bytes bo ps @ post) \<longrightarrow>
     length (pairs_bytes bo ps) \<le> N \<longrightarrow>
     rec st (r, VMap TAnyMap (Some m)) =
       (Ok (), (r_adv (length (pairs_bytes bo ps)) r, VMap TAnyMap (Some (add_entries ps m)))))"

lemma decodesD:
  "decodes N rec \<Longrightarrow> wf_nvpairs ps \<Longrightarrow> r_at bo r (pairs_bytes bo ps @ post) \<Longrightarrow>
   length (pairs_bytes bo ps) \<le> N \<Longrightarrow>
   rec st (r, VMap TAnyMap (Some m)) =
     (Ok (), (r_adv (length (pairs_bytes bo ps)) r, VMap TAnyMap (Some (add_entries ps m))))"
  unfolding decodes_def by blast

lemma enter_pairs_decodes: "decodes N loop \<Longrightarrow> decodes N (enter_pairs loop)"
  by (simp add: decodes_def enter_pairs_def enter_iface_def check_target_def)

lemma store_any_map:
  "store (set_primitive st name x) (r, VMap TAnyMap (Some m)) =
     (Ok (), (r, VMap TAnyMap (Some (alist_set name (VIface (Some x)) m))))"
  if "\<forall>y. x \<noteq> VIface y" and "x \<noteq> VInvalid"
  using that by (cases x) (simp_all add: store_def SetMapIndex_def)

lemma go_value_concrete: "go_value d = Some v \<Longrightarrow> (\<forall>y. v \<noteq> VIface y) \<and> v \<noteq> VInvalid"
  by (cases d) (auto simp: go_map_def)

lemma pairs_bytes_ge: "4 \<le> length (pairs_bytes bo ps)"
  by (simp add: pairs_bytes_def)

lemma read_maps_wire:
  assumes "decodes N rec" and "list_all wf_nvpairs pss"
    and "r_at bo r (concat (map (pairs_bytes bo) pss) @ post)"
    and "length (concat (map (pairs_bytes bo) pss)) \<le> N"
  shows "read_maps rec (length pss) r =
     (Ok (map go_map pss), r_adv (length (concat (map (pairs_bytes bo) pss))) r)"
  using assms(2-)
proof (induction pss arbitrary: r)
  case Nil
  then show ?case by (simp add: r_adv_def)
next
  case (Cons ps pss)
  let ?r = "r_adv (length (pairs_bytes bo ps)) r"
  have "rec True (r, VMap TAnyMap (Some [])) = (Ok (), (?r, go_map ps))"
    using decodesD [OF assms(1), of ps bo r] Cons.prems by (simp add: go_map_def)
  moreover have "r_at bo ?r (concat (map (pairs_bytes bo) pss) @ post)"
    using r_at_adv [of bo r "pairs_bytes bo ps"] Cons.prems(2) by simp
  then have "read_maps rec (length pss) ?r =
      (Ok (map go_map pss), r_adv (length (concat (map (pairs_bytes bo) pss))) ?r)"
    using Cons by simp
  ultimately show ?case by (simp add: bind_comp_def ret_def)
qed

lemma handle_pair_wire:
  assumes rec: "decodes N rec" and wf: "wf_pair (n, d)"
    and at: "r_at bo r (item_bytes bo (n, d) @ post)"
    and N: "length (data_nested bo d) \<le> N"
  shows "handle_pair rec st (wire_nvpair bo n d, n, wire_pair_reader bo n d r)
      (r_adv (pair_size bo n d) r, VMap TAnyMap (Some m)) =
    (Ok (), (r_adv (length (item_bytes bo (n, d))) r, VMap TAnyMap (Some (add_entry (n, d) m))))"
proof -
  let ?r = "r_adv (pair_size bo n d) r" and ?p = "wire_pair_reader bo n d r"
  have cnt: "data_count d \<le> 65535" using wf by (simp add: wf_pair_def wf_pair_size_def)
  have at': "r_at bo ?r (data_nested bo d @ post)"
    using r_at_adv [of bo r "pair_bytes bo n d"] at by (simp add: item_bytes_def)
  show ?thesis
  proof (cases "data_type d \<in> {typeNvlist, typeNvlistArray} \<and> \<not> (\<exists>t w. d = NNum t w) \<and> \<not> (\<exists>t ws. d = NNumArray t ws)")
    case True
    then consider ps where "d = NNvlist ps" | pss where "d = NNvlistArray pss"
      by (cases d) (auto simp: nvtype_defs)
    then show ?thesis
    proof cases
      case 1
      then show ?thesis
        using decodesD [OF rec, of ps bo ?r post False "[]"] at' wf N
        by (simp add: handle_pair_def read_nvlist_def fresh_elem_def wf_pair_def deref_ptr_def
            store_any_map add_entry_def item_bytes_def go_map_def)
    next
      case 2
      then show ?thesis
        using read_maps_wire [OF rec, of pss bo ?r post] at' wf N cnt
        by (simp add: handle_pair_def read_nvlist_array_def wf_pair_def elem_count_wire
            store_any_map add_entry_def item_bytes_def nvtype_defs)
    qed
  next
    case False
    have flat: "data_type d \<notin> {typeNvlist, typeNvlistArray}" "data_nested bo d = []"
      using False wf scalar_types_known array_types_not_scalar by (cases d; fastforce simp: wf_pair_def)+
    have "fst (read_value ?r (wire_nvpair bo n d) ?p) = Ok (go_value d)"
      using payload_at [of bo r n d] at wf cnt flat
      by (intro read_value_wire) (auto simp: p_at_def r_at_def item_bytes_def wf_pair_def)
    then obtain p' where "read_value ?r (wire_nvpair bo n d) ?p = (Ok (go_value d), p')"
      by (metis prod.collapse)
    then show ?thesis
      using flat go_value_concrete [of d] store_any_map [of _ st n ?r m]
      by (cases "go_value d") (simp_all add: handle_pair_def add_entry_def item_bytes_def)
  qed
qed

lemma read_loop_decodes: "decodes fuel (read_loop fuel)"
proof (induction fuel)
  case 0
  have "pairs_bytes bo ps \<noteq> []" for bo ps using pairs_bytes_ge [of bo ps] by auto
  then show ?case by (simp add: decodes_def)
next
  case (Suc fuel)
  have rec: "decodes fuel (enter_pairs (read_loop fuel))"
    using Suc by (rule enter_pairs_decodes)
  show ?case
    unfolding decodes_def
  proof (intro allI impI)
    fix bo ps st r m post
    assume wf: "wf_nvpairs ps" and at: "r_at bo r (pairs_bytes bo ps @ post)"
      and len: "length (pairs_bytes bo ps) \<le> Suc fuel"
    show "read_loop (Suc fuel) st (r, VMap TAnyMap (Some m)) = (Ok (),
        (r_adv (length (pairs_bytes bo ps)) r, VMap TAnyMap (Some (add_entries ps m))))"
    proof (cases ps)
      case Nil
      then show ?thesis using read_pair_head_end [of bo r post] at by simp
    next
      case (Cons p ps')
      obtain n d where p: "p = (n, d)" by fastforce
      let ?r = "r_adv (length (item_bytes bo p)) r"
      have item: "r_at bo r (item_bytes bo p @ (pairs_bytes bo ps' @ post))" using at Cons by simp
      have "read_pair_head r =
          (Ok (Some (wire_nvpair bo n d, n, wire_pair_reader bo n d r)), r_adv (pair_size bo n d) r)"
        using item wf Cons p pairs_bytes_ge [of bo ps']
        by (intro read_pair_head_wire [of bo r n d "data_nested bo d @ pairs_bytes bo ps' @ post"])
          (auto simp: item_bytes_def wf_pair_def)
      moreover have "handle_pair (enter_pairs (read_loop fuel)) st
          (wire_nvpair bo n d, n, wire_pair_reader bo n d r)
          (r_adv (pair_size bo n d) r, VMap TAnyMap (Some m)) =
          (Ok (), (?r, VMap TAnyMap (Some (add_entry p m))))"
        using handle_pair_wire [OF rec, of n d bo r] item wf Cons p len pair_size_ge [of bo n d]
        by (simp add: item_bytes_def)
      moreover have "r_at bo ?r (pairs_bytes bo ps' @ post)" using r_at_adv [OF item] .
      then have "read_loop fuel st (?r, VMap TAnyMap (Some (add_entry p m))) = (Ok (),
          (r_adv (length (pairs_bytes bo ps')) ?r, VMap TAnyMap (Some (add_entries ps' (add_entry p m)))))"
        using wf Cons len p pair_size_ge [of bo n d]
        by (intro decodesD [OF Suc, of ps' bo ?r post]) (auto simp: item_bytes_def)
      ultimately show ?thesis using Cons by (simp add: bind_comp_def)
    qed
  qed
qed

section \<open>Unmarshal on the bytes of an nvlist\<close>

lemma order_byte_set [simp]:
  "set_endianness (order_byte bo) r = (Ok (), r\<lparr>r_endianness := Some bo\<rparr>)"
  by (cases bo) (simp_all add: set_endianness_def bigEndian_def littleEndian_def)

lemma set_encoding_byte [simp]: "set_encoding (encoding_byte enc) r = (Ok (), r\<lparr>r_encoding := enc\<rparr>)"
  by (cases enc) (simp_all add: set_encoding_def)

text \<open>The reader after the header.\<close>

lemma readNvHeader_wire:
  assumes data_def: "data = wire_header enc bo version flags @ post"
  shows "readNvHeader (new_reader data) =
     (Ok (), \<lparr>r_nvlist = data, r_currentByte = 12, r_endianness = Some bo, r_encoding = enc,
              r_flags = flags, r_version = version\<rparr>)"
proof -
  let ?r = "\<lambda>k v f. \<lparr>r_nvlist = data, r_currentByte = k, r_endianness = Some bo, r_encoding = enc,
              r_flags = f, r_version = v\<rparr>"
  have data: "data = [encoding_byte enc, order_byte bo, 0, 0] @
      put_uint bo 4 (ucast version) @ put_uint bo 4 (ucast flags) @ post"
    by (simp add: data_def wire_header_def)
  have front: "steps [bind_comp r_ReadByte set_encoding, bind_comp r_ReadByte set_endianness, r_skipN 2]
      (new_reader data) = (Ok (), ?r 4 0 0)"
    by (simp add: data new_reader_def r_ReadByte_def go_index_def lift_res_def bind_comp_def r_skipN_def ret_def)
  have "r_readInt 4 (?r 4 0 0) = (Ok (take_bit 32 (ucast version)), ?r 8 0 0)"
    using r_readInt_cases(1) [of "?r 4 0 0" bo 4] by (simp add: data)
  moreover have "r_readInt 4 (?r 8 version 0) = (Ok (take_bit 32 (ucast flags)), ?r 12 version 0)"
    using r_readInt_cases(1) [of "?r 8 version 0" bo 4] by (simp add: data)
  moreover have "readNvHeader (new_reader data) =
      steps [bind_comp (r_readInt 4) (\<lambda>x r. (Ok (), r\<lparr>r_version := ucast x\<rparr>)),
        bind_comp (r_readInt 4) (\<lambda>x r. (Ok (), r\<lparr>r_flags := ucast x\<rparr>))] (?r 4 0 0)"
    using steps_append_Ok [OF front] by (simp add: readNvHeader_def del: steps.simps)
  ultimately show ?thesis by (simp add: bind_comp_def ret_def ucast_word_of_nat)
qed

lemma header_at_pairs:
  obtains r where "readNvHeader (new_reader (nvlist_bytes bo ps @ post)) = (Ok (), r)" "r_at bo r (pairs_bytes bo ps @ post)"
proof -
  let ?data = "nvlist_bytes bo ps @ post"
  obtain r where r: "readNvHeader (new_reader ?data) = (Ok (), r)"
      "r_nvlist r = ?data" "r_currentByte r = 12" "r_endianness r = Some bo" "r_encoding r = EncodingNative"
    using readNvHeader_wire [OF refl, of EncodingNative bo 0 uniqueNameFlag "pairs_bytes bo ps @ post"]
    by (auto simp: nvlist_bytes_def)
  then show thesis
    using that by (simp add: r_at_def nvlist_bytes_def wire_header_def)
qed

lemma readPairs_wire:
  assumes wf: "wf_nvpairs ps" and r: "r_at bo r (pairs_bytes bo ps @ post)"
    and fuel: "length (pairs_bytes bo ps) \<le> fuel"
  shows "readPairs fuel st (r, new_iface) =
      (Ok (), (r_adv (length (pairs_bytes bo ps)) r, VPtr (TPtr TIface) (Some (VIface (Some (go_map ps))))))"
    and "readPairs fuel st (r, VMap TAnyMap (Some m)) =
      (Ok (), (r_adv (length (pairs_bytes bo ps)) r, VMap TAnyMap (Some (add_entries ps m))))"
  using decodesD [OF read_loop_decodes wf r fuel]
  by (simp_all add: readPairs_def enter_pairs_def enter_iface_def check_target_def new_iface_def go_map_def)

lemma Unmarshal_wire:
  assumes wf: "wf_nvpairs ps"
  shows "Unmarshal (nvlist_bytes bo ps @ post) new_iface =
      (Ok (), VPtr (TPtr TIface) (Some (VIface (Some (go_map ps)))))"
    and "Unmarshal (nvlist_bytes bo ps @ post) (VMap TAnyMap (Some m)) =
      (Ok (), VMap TAnyMap (Some (add_entries ps m)))"
proof -
  let ?data = "nvlist_bytes bo ps @ post"
  obtain r where r: "readNvHeader (new_reader ?data) = (Ok (), r)" and at: "r_at bo r (pairs_bytes bo ps @ post)"
    by (rule header_at_pairs)
  have fuel: "length (pairs_bytes bo ps) \<le> Suc (length ?data)"
    by (simp add: nvlist_bytes_def)
  note rp = readPairs_wire [OF wf at fuel]
  show "Unmarshal ?data new_iface = (Ok (), VPtr (TPtr TIface) (Some (VIface (Some (go_map ps)))))"
    using r(1) rp(1) [of False] by (simp add: Unmarshal_def)
  show "Unmarshal ?data (VMap TAnyMap (Some m)) = (Ok (), VMap TAnyMap (Some (add_entries ps m)))"
    using r(1) rp(2) [of False m] by (simp add: Unmarshal_def)
qed

end
