(* ===== verification/Nv_Encoder.thy ===== *)
theory Nv_Encoder
  imports Nv_Types
begin

text \<open>
  Model of \<^verbatim>\<open>nvlist/encoder.go\<close>: the writer \<^verbatim>\<open>nvlistWriter\<close> and its methods, and
  \<^verbatim>\<open>Marshal\<close>. A method is a state-passing function over the writer whose outcome is a
  value, an error or a panic. The recursion of \<^verbatim>\<open>writeNvPairs\<close> through nested values has a
  fuel argument; \<^verbatim>\<open>Marshal\<close> starts it with the size of the value, which is enough
  (\<open>Marshal_progress\<close> in \<open>Nv_Encoder_Total\<close>).
\<close>

section \<open>The writer\<close>

record nvlistWriter =
  w_nvlist :: "byte list"
  w_nvpairStartByte :: nat
  w_modeWriteFromStartByte :: bool
  w_endianness :: "byteorder option"
  w_flags :: uint32
  w_version :: "32 word"

definition w_append :: "byte list \<Rightarrow> (nvlistWriter, unit) comp" where
  "w_append bs w = (Ok (), w\<lparr>w_nvlist := w_nvlist w @ bs\<rparr>)"

definition WriteByte :: "byte \<Rightarrow> (nvlistWriter, unit) comp" where
  "WriteByte c = w_append [c]"

definition w_skipN :: "nat \<Rightarrow> (nvlistWriter, unit) comp" where
  "w_skipN n = w_append (replicate n 0)"

definition w_skipToAlign :: "(nvlistWriter, unit) comp" where
  "w_skipToAlign w =
     (let off = length (w_nvlist w) - w_nvpairStartByte w;
          padSize = (if off mod 8 \<noteq> 0 then 8 - off mod 8 else 0)
      in steps (replicate padSize (WriteByte 0)) w)"

definition overwrite :: "'a list \<Rightarrow> nat \<Rightarrow> 'a list \<Rightarrow> 'a list" where
  "overwrite xs i ys = take i xs @ ys @ drop (i + length ys) xs"

definition w_Write :: "byte list \<Rightarrow> (nvlistWriter, unit) comp" where
  "w_Write buf w =
     (if w_modeWriteFromStartByte w then
        if w_nvpairStartByte w + length buf \<le> length (w_nvlist w) then
          (Ok (), w\<lparr>w_nvlist := overwrite (w_nvlist w) (w_nvpairStartByte w) buf,
                    w_nvpairStartByte := w_nvpairStartByte w + length buf\<rparr>)
        else (Panic IndexOutOfRange, w)
      else w_append buf w)"

text \<open>
  \<^verbatim>\<open>binary.Write\<close> of a number of \<open>n\<close> bytes; with the byte order still nil it would call a
  method of a nil interface.
\<close>

definition w_writeInt :: "nat \<Rightarrow> uint64 \<Rightarrow> (nvlistWriter, unit) comp" where
  "w_writeInt n val w =
     (case w_endianness w of
        None \<Rightarrow> (Panic NilDereference, w)
      | Some bo \<Rightarrow> w_Write (put_uint bo n val) w)"

primrec writeString :: "string \<Rightarrow> (nvlistWriter, unit) comp" where
  "writeString [] w = w_append [0] w"
| "writeString (c # str) w =
     (if byte_of_char c = 0 then (Err ErrInvalidValue, w)
      else bind_comp (w_append [byte_of_char c]) (\<lambda>_. writeString str) w)"

definition w_set_endianness :: "byteorder \<Rightarrow> (nvlistWriter, unit) comp" where
  "w_set_endianness bo w = (Ok (), w\<lparr>w_endianness := Some bo\<rparr>)"

definition writeNvHeader :: "(nvlistWriter, unit) comp" where
  "writeNvHeader =
     steps [WriteByte (encoding_byte EncodingNative),
            WriteByte littleEndian,
            w_set_endianness LittleEndian,
            w_skipN 2,
            (\<lambda>w. ignore_err (w_writeInt 4 (ucast (w_version w))) w),
            (\<lambda>w. ignore_err (w_writeInt 4 (ucast (w_flags w))) w)]"

definition startNvPair :: "(nvlistWriter, unit) comp" where
  "startNvPair w =
     (Ok (), w\<lparr>w_nvpairStartByte := length (w_nvlist w),
               w_nvlist := w_nvlist w @ replicate nvlistHeaderSize 0\<rparr>)"

definition w_set_mode :: "bool \<Rightarrow> (nvlistWriter, unit) comp" where
  "w_set_mode b w = (Ok (), w\<lparr>w_modeWriteFromStartByte := b\<rparr>)"

definition w_reset_start :: "(nvlistWriter, unit) comp" where
  "w_reset_start w = (Ok (), w\<lparr>w_nvpairStartByte := 0\<rparr>)"

definition write_pair_fields :: "nvpair \<Rightarrow> (nvlistWriter, unit) comp" where
  "write_pair_fields nvp =
     steps [ignore_err (w_writeInt 4 (ucast (nvp_Size nvp))),
            ignore_err (w_writeInt 2 (ucast (nvp_Name_sz nvp))),
            ignore_err (w_writeInt 2 (ucast (nvp_Reserve nvp))),
            ignore_err (w_writeInt 4 (ucast (nvp_Value_elem nvp))),
            ignore_err (w_writeInt 4 (ucast (nvp_Type nvp)))]"

definition endNvPair :: "nvpair \<Rightarrow> (nvlistWriter, unit) comp" where
  "endNvPair nvp w =
     (if nvp_Type nvp = typeUnknown then (Panic (PanicText ''Unknown type hit''), w)
      else if w_nvpairStartByte w = 0 then (Panic (PanicText ''nvPair was not started''), w)
      else steps [w_skipToAlign,
                  w_set_mode True,
                  (\<lambda>w. write_pair_fields
                     (nvp\<lparr>nvp_Size := word_of_nat (length (w_nvlist w) - w_nvpairStartByte w)\<rparr>) w),
                  w_set_mode False,
                  w_reset_start] w)"

definition writeNvlistHeader :: "(nvlistWriter, unit) comp" where
  "writeNvlistHeader =
     (let nvl = \<lparr>nvl_Version = 0, nvl_Nvflag = uniqueNameFlag, nvl_Priv = 0, nvl_Flag = 0,
                 nvl_Pad = 0\<rparr>
      in steps [ignore_err (w_writeInt 4 (ucast (nvl_Version nvl))),
                ignore_err (w_writeInt 4 (ucast (nvl_Nvflag nvl))),
                ignore_err (w_writeInt 8 (nvl_Priv nvl)),
                ignore_err (w_writeInt 4 (ucast (nvl_Flag nvl))),
                ignore_err (w_writeInt 4 (ucast (nvl_Pad nvl)))])"

section \<open>The pairs of a map or struct\<close>

definition collect_map :: "gval \<Rightarrow> (string \<times> gval) list res" where
  "collect_map v =
     (if map_entries v \<noteq> [] \<and> kind (key_type (typ_of v)) \<noteq> KString then Err ErrInvalidValue
      else Ok (concat (map (\<lambda>(key, x). let val = unpackVal x in
             if val \<noteq> VInvalid then [(key, val)] else []) (map_entries v))))"

definition collect_field :: "(string \<times> string \<times> gotype) \<Rightarrow> gval \<Rightarrow> (string \<times> gval) list" where
  "collect_field f x =
     (case f of (fname, tag, T) \<Rightarrow>
        let tags = split_comma tag;
            name = hd tags;
            val = unpackVal x;
            skip = (case tags of
                      _ # opt # _ \<Rightarrow> (opt = ''omitempty'' \<and> isEmptyValue val) \<or> opt = ''ro''
                    | _ \<Rightarrow> False)
        in if skip then []
           else if val \<noteq> VInvalid then [(if name = [] then fname else name, val)]
           else [])"

fun collect_struct :: "gval \<Rightarrow> (string \<times> gval) list" where
  "collect_struct (VStruct T vs) =
     concat (map (\<lambda>(f, x). collect_field f x) (zip (struct_fields T) vs))"
| "collect_struct v = []"

definition collect_pairs :: "gval \<Rightarrow> (string \<times> gval) list res" where
  "collect_pairs v =
     (case kind_of v of
        KMap \<Rightarrow> collect_map v
      | KStruct \<Rightarrow> Ok (collect_struct v)
      | _ \<Rightarrow> Err ErrInvalidValue)"

section \<open>Writing one pair\<close>

text \<open>
  After a pair the loop goes on, or the function returns nil at once: that is what the code
  does when a nested list fails.
\<close>

datatype flow = NextPair | ReturnNil

abbreviation next_after :: "(nvlistWriter, unit) comp \<Rightarrow> (nvlistWriter, flow) comp" where
  "next_after m \<equiv> bind_comp m (\<lambda>_. ret NextPair)"

text \<open>\<^verbatim>\<open>binary.Write\<close> of a slice element, which may be a pointer to a number.\<close>

definition write_elem :: "gval \<Rightarrow> (nvlistWriter, unit) comp" where
  "write_elem x w =
     (case x of
        VNum T n \<Rightarrow> w_writeInt (kind_size (kind T)) n w
      | VPtr T (Some (VNum T' n)) \<Rightarrow> w_writeInt (kind_size (kind T')) n w
      | VPtr T None \<Rightarrow>
          (case elem_type T of TBasic _ \<Rightarrow> (Panic NilDereference, w)
           | _ \<Rightarrow> (Err (ErrText ''binary.Write: some values are not fixed-sized''), w))
      | _ \<Rightarrow> (Err (ErrText ''binary.Write: some values are not fixed-sized''), w))"

definition write_bool_elem :: "gval \<Rightarrow> (nvlistWriter, unit) comp" where
  "write_bool_elem x w =
     (case val_bool (unpackVal x) of
        Ok b \<Rightarrow> w_writeInt 4 (if b then 1 else 0) w
      | Err e \<Rightarrow> (Err e, w) | Panic p \<Rightarrow> (Panic p, w) | Diverge \<Rightarrow> (Diverge, w))"

definition write_array ::
  "(gval \<Rightarrow> (nvlistWriter, unit) comp) \<Rightarrow> nvpair \<Rightarrow> gval \<Rightarrow> (nvlistWriter, flow) comp" where
  "write_array rec nvp0 v w =
     (let xs = val_elems v; n = length xs in
      if int n \<ge> 2 ^ 31 - 1 then (Err ErrInvalidValue, w)
      else
        let nvp = nvp0\<lparr>nvp_Value_elem := word_of_nat n\<rparr> in
        case unpackType (elem_type (typ_of v)) of
          Ok et \<Rightarrow>
            (let elemKind = kind et in
             if elemKind \<in> set int_kinds then
               next_after (steps (map write_elem xs @
                 [endNvPair (nvp\<lparr>nvp_Type := nvtypeFromArrayKind elemKind\<rparr>)])) w
             else if elemKind = KBool then
               next_after (steps (map write_bool_elem xs @
                 [endNvPair (nvp\<lparr>nvp_Type := typeBooleanArray\<rparr>)])) w
             else if elemKind = KString then
               next_after (steps ([w_skipN (8 * n)] @
                 map (\<lambda>x. ignore_err (writeString (val_string (unpackVal x)))) xs @
                 [endNvPair (nvp\<lparr>nvp_Type := typeStringArray\<rparr>)])) w
             else if elemKind = KStruct \<or> elemKind = KMap then
               next_after (steps ([w_skipN (8 * n)] @
                 replicate n writeNvlistHeader @
                 [endNvPair (nvp\<lparr>nvp_Type := typeNvlistArray\<rparr>)] @
                 map rec xs)) w
             else (Err ErrInvalidValue, w))
        | Err e \<Rightarrow> (Err e, w) | Panic p \<Rightarrow> (Panic p, w) | Diverge \<Rightarrow> (Diverge, w))"

definition write_nested ::
  "(gval \<Rightarrow> (nvlistWriter, unit) comp) \<Rightarrow> gval \<Rightarrow> (nvlistWriter, flow) comp" where
  "write_nested rec v w =
     (case rec v w of
        (Err e, w') \<Rightarrow> (Ok ReturnNil, w')
      | (Ok _, w') \<Rightarrow> (Ok NextPair, w')
      | (Panic p, w') \<Rightarrow> (Panic p, w')
      | (Diverge, w') \<Rightarrow> (Diverge, w'))"

definition write_value ::
  "(gval \<Rightarrow> (nvlistWriter, unit) comp) \<Rightarrow> nvpair \<Rightarrow> gval \<Rightarrow> (nvlistWriter, flow) comp" where
  "write_value rec nvp v w =
     (let t = kind_of v in
      if t \<in> set num_kinds then
        next_after (steps [write_elem v, endNvPair (nvp\<lparr>nvp_Type := nvtypeFromKind t\<rparr>)]) w
      else if t = KBool then
        next_after (endNvPair (nvp\<lparr>nvp_Type := typeBoolean, nvp_Value_elem := 0\<rparr>)) w
      else if t = KMap \<or> t = KStruct then
        bind_comp (steps [writeNvlistHeader, endNvPair (nvp\<lparr>nvp_Type := typeNvlist\<rparr>)])
          (\<lambda>_. write_nested rec v) w
      else if t = KString then
        next_after (steps [ignore_err (writeString (val_string v)),
                           endNvPair (nvp\<lparr>nvp_Type := typeString\<rparr>)]) w
      else if t = KArray \<or> t = KSlice then write_array rec nvp v w
      else (Err ErrInvalidValue, w))"

definition write_pair ::
  "(gval \<Rightarrow> (nvlistWriter, unit) comp) \<Rightarrow> string \<times> gval \<Rightarrow> (nvlistWriter, flow) comp" where
  "write_pair rec nv w =
     (case nv of (name, v) \<Rightarrow>
        let nameLen = length name + 1 in
        if int nameLen \<ge> 2 ^ 15 - 1 then (Err ErrInvalidValue, w)
        else
          let nvp = \<lparr>nvp_Size = 0, nvp_Name_sz = word_of_nat nameLen, nvp_Reserve = 0,
                     nvp_Value_elem = 1, nvp_Type = 0\<rparr> in
          if kind_of v = KBool \<and> val_bool v = Ok False then (Ok NextPair, w)
          else bind_comp (steps [startNvPair, ignore_err (writeString name), w_skipToAlign])
                 (\<lambda>_. write_value rec nvp v) w)"

primrec write_pairs ::
  "(gval \<Rightarrow> (nvlistWriter, unit) comp) \<Rightarrow> (string \<times> gval) list \<Rightarrow> (nvlistWriter, flow) comp" where
  "write_pairs rec [] = ret NextPair"
| "write_pairs rec (nv # nvs) =
     bind_comp (write_pair rec nv)
       (\<lambda>f. case f of ReturnNil \<Rightarrow> ret ReturnNil | NextPair \<Rightarrow> write_pairs rec nvs)"

primrec writeNvPairs :: "nat \<Rightarrow> gval \<Rightarrow> (nvlistWriter, unit) comp" where
  "writeNvPairs 0 v w = (Diverge, w)"
| "writeNvPairs (Suc fuel) v w =
     (let v = unpackVal v in
      if v = VInvalid then (Ok (), w)
      else case collect_pairs v of
          Ok nvs \<Rightarrow> bind_comp (write_pairs (writeNvPairs fuel) nvs)
                     (\<lambda>f. case f of ReturnNil \<Rightarrow> ret () | NextPair \<Rightarrow> w_skipN 4) w
        | Err e \<Rightarrow> (Err e, w) | Panic p \<Rightarrow> (Panic p, w) | Diverge \<Rightarrow> (Diverge, w))"

section \<open>Marshal\<close>

definition new_writer :: nvlistWriter where
  "new_writer = \<lparr>w_nvlist = [], w_nvpairStartByte = 0, w_modeWriteFromStartByte = False,
     w_endianness = None, w_flags = uniqueNameFlag, w_version = 0\<rparr>"

definition Marshal :: "gval \<Rightarrow> byte list res" where
  "Marshal val =
     (case steps [writeNvHeader, writeNvPairs (Suc (size val)) val] new_writer of
        (Ok _, w) \<Rightarrow> Ok (w_nvlist w)
      | (Err e, w) \<Rightarrow> Err e | (Panic p, w) \<Rightarrow> Panic p | (Diverge, w) \<Rightarrow> Diverge)"

end
