(* ===== verification/Nv_Encoder_Correct.thy ===== *)
theory Nv_Encoder_Correct
  imports Nv_Encoder Nv_Wire
begin

text \<open>
  Correctness of the encoder against the format specification: the abstract nvlist that a Go
  value stands for, and that \<^verbatim>\<open>writeNvPairs\<close> appends exactly its bytes; the writer's
  invariant between pairs.
\<close>

section \<open>The nvlist a Go value stands for\<close>

definition num_bits :: "gkind \<Rightarrow> gval \<Rightarrow> uint64 option" where
  "num_bits k x =
     (case unpack_ptr x of VNum T w \<Rightarrow> if kind T = k then Some w else None | _ \<Rightarrow> None)"

definition bool_bits :: "gval \<Rightarrow> bool option" where
  "bool_bits x = (case unpackVal x of VBool T b \<Rightarrow> Some b | _ \<Rightarrow> None)"

definition string_bits :: "gval \<Rightarrow> string option" where
  "string_bits x =
     (if nul_free (val_string (unpackVal x)) then Some (val_string (unpackVal x)) else None)"

definition array_spec :: "(gval \<Rightarrow> nvpairs option) \<Rightarrow> gval \<Rightarrow> nvdata option" where
  "array_spec rec v =
     (let xs = val_elems v in
      if int (length xs) \<ge> 2 ^ 31 - 1 then None
      else case unpackType (elem_type (typ_of v)) of
          Ok et \<Rightarrow>
            (if kind et \<in> set int_kinds then
               map_option (NNumArray (nvtypeFromArrayKind (kind et)))
                 (those (map (num_bits (kind et)) xs))
             else if kind et = KBool then map_option NBooleanArray (those (map bool_bits xs))
             else if kind et = KString then map_option NStringArray (those (map string_bits xs))
             else if kind et = KStruct \<or> kind et = KMap then
               map_option NNvlistArray (those (map rec xs))
             else None)
        | _ \<Rightarrow> None)"

fun value_spec :: "(gval \<Rightarrow> nvpairs option) \<Rightarrow> gval \<Rightarrow> nvdata option" where
  "value_spec rec (VNum T w) =
     (if kind T \<in> set int_kinds then Some (NNum (nvtypeFromKind (kind T)) w)
      else if kind T = KFloat64 then Some (NDouble w) else None)"
| "value_spec rec (VBool T b) = (if b then Some NBoolean else None)"
| "value_spec rec (VMap T m) = map_option NNvlist (rec (VMap T m))"
| "value_spec rec (VStruct T vs) = map_option NNvlist (rec (VStruct T vs))"
| "value_spec rec (VString T s) = (if nul_free s then Some (NString s) else None)"
| "value_spec rec (VArray T vs) = array_spec rec (VArray T vs)"
| "value_spec rec (VSlice T vs) = array_spec rec (VSlice T vs)"
| "value_spec rec _ = None"

fun is_false :: "gval \<Rightarrow> bool" where
  "is_false (VBool T b) = (\<not> b)"
| "is_false _ = False"

definition enc_name :: "string \<Rightarrow> bool" where
  "enc_name n \<longleftrightarrow> nul_free n \<and> int (length n + 1) < 2 ^ 15 - 1"

text \<open>False booleans are left out: a boolean pair is its presence.\<close>

primrec pairs_spec :: "(gval \<Rightarrow> nvpairs option) \<Rightarrow> (string \<times> gval) list \<Rightarrow> nvpairs option" where
  "pairs_spec rec [] = Some []"
| "pairs_spec rec (nv # nvs) =
     (if \<not> enc_name (fst nv) then None
      else if is_false (snd nv) then pairs_spec rec nvs
      else case (value_spec rec (snd nv), pairs_spec rec nvs) of
          (Some d, Some ps) \<Rightarrow> Some ((fst nv, d) # ps)
        | _ \<Rightarrow> None)"

primrec nvlist_spec :: "nat \<Rightarrow> gval \<Rightarrow> nvpairs option" where
  "nvlist_spec 0 v = None"
| "nvlist_spec (Suc fuel) v =
     (case collect_pairs (unpackVal v) of
        Ok nvs \<Rightarrow> pairs_spec (nvlist_spec fuel) nvs
      | _ \<Rightarrow> None)"

definition nvlist_of :: "gval \<Rightarrow> nvpairs option" where
  "nvlist_of v = nvlist_spec (Suc (size v)) v"

section \<open>The writer between and inside pairs\<close>

text \<open>Between pairs: appending, byte order set, no pair started.\<close>

definition ready :: "byteorder \<Rightarrow> nvlistWriter \<Rightarrow> bool" where
  "ready bo w \<longleftrightarrow>
     \<not> w_modeWriteFromStartByte w \<and> w_endianness w = Some bo \<and> w_nvpairStartByte w = 0 \<and>
     w_nvlist w \<noteq> []"

abbreviation appended :: "nvlistWriter \<Rightarrow> byte list \<Rightarrow> nvlistWriter" where
  "appended w bs \<equiv> w\<lparr>w_nvlist := w_nvlist w @ bs\<rparr>"

text \<open>Inside a pair that starts at the end of \<open>w\<close>, with \<open>body\<close> written after the reserved header.\<close>

definition in_pair :: "nvlistWriter \<Rightarrow> byte list \<Rightarrow> nvlistWriter" where
  "in_pair w body = w\<lparr>w_nvlist := w_nvlist w @ replicate 16 0 @ body,
     w_nvpairStartByte := length (w_nvlist w)\<rparr>"

lemma ready_appended [simp]: "ready bo w \<Longrightarrow> ready bo (appended w bs)"
  by (simp add: ready_def)

lemma in_pair_simps [simp]:
  "w_nvlist (in_pair w body) = w_nvlist w @ replicate 16 0 @ body"
  "w_nvpairStartByte (in_pair w body) = length (w_nvlist w)"
  "w_modeWriteFromStartByte (in_pair w body) = w_modeWriteFromStartByte w"
  "w_endianness (in_pair w body) = w_endianness w"
  by (simp_all add: in_pair_def)

lemma w_append_in_pair [simp]: "w_append bs (in_pair w body) = (Ok (), in_pair w (body @ bs))"
  by (simp add: w_append_def in_pair_def)

lemma steps_write_zeros: "steps (replicate n (WriteByte 0)) w = (Ok (), appended w (replicate n 0))"
proof (induction n arbitrary: w)
  case 0
  show ?case by (simp add: ret_def)
next
  case (Suc n)
  then show ?case by (simp add: bind_comp_def WriteByte_def w_append_def)
qed

lemma w_skipToAlign_in_pair [simp]: "w_skipToAlign (in_pair w body) = (Ok (), in_pair w (align8 body))"
proof -
  have "(16 + length body) mod 8 = length body mod 8"
    by presburger
  then show ?thesis
    by (simp add: w_skipToAlign_def steps_write_zeros in_pair_def align8_def pad_to_def Let_def)
qed

lemma w_skipN_in_pair [simp]: "w_skipN n (in_pair w body) = (Ok (), in_pair w (body @ replicate n 0))"
  by (simp add: w_skipN_def)

lemma w_writeInt_in_pair [simp]:
  "ready bo w \<Longrightarrow> w_writeInt n val (in_pair w body) = (Ok (), in_pair w (body @ put_uint bo n val))"
  by (simp add: w_writeInt_def w_Write_def ready_def)

lemma writeString_in_pair [simp]:
  "nul_free s \<Longrightarrow> writeString s (in_pair w body) = (Ok (), in_pair w (body @ cstring s))"
  by (induction s arbitrary: body) (simp_all add: bind_comp_def)

lemma startNvPair_ready: "startNvPair w = (Ok (), in_pair w [])"
  by (simp add: startNvPair_def in_pair_def nvlistHeaderSize_def)

lemma writeNvlistHeader_in_pair [simp]:
  "ready bo w \<Longrightarrow>
   writeNvlistHeader (in_pair w body) = (Ok (), in_pair w (body @ nvlist_hdr_bytes bo))"
  by (simp add: writeNvlistHeader_def Let_def comp_simps ignore_err_def nvlist_hdr_bytes_def
      uniqueNameFlag_def bind_comp_def)

text \<open>Filling in the header of a pair overwrites the sixteen reserved bytes.\<close>

definition filling :: "nvlistWriter \<Rightarrow> byte list \<Rightarrow> nat \<Rightarrow> byte list \<Rightarrow> nvlistWriter" where
  "filling w a k c = w\<lparr>w_nvlist := a @ replicate k 0 @ c, w_nvpairStartByte := length a,
     w_modeWriteFromStartByte := True\<rparr>"

lemma w_writeInt_filling:
  "w_endianness w = Some bo \<Longrightarrow> n \<le> k \<Longrightarrow>
   w_writeInt n val (filling w a k c) = (Ok (), filling w (a @ put_uint bo n val) (k - n) c)"
  by (simp add: w_writeInt_def w_Write_def overwrite_def filling_def)

definition header_bytes :: "byteorder \<Rightarrow> nvpair \<Rightarrow> byte list" where
  "header_bytes bo nvp =
     put_uint bo 4 (ucast (nvp_Size nvp)) @ put_uint bo 2 (ucast (nvp_Name_sz nvp)) @
     put_uint bo 2 (ucast (nvp_Reserve nvp)) @ put_uint bo 4 (ucast (nvp_Value_elem nvp)) @
     put_uint bo 4 (ucast (nvp_Type nvp))"

lemma write_pair_fields_filling:
  "w_endianness w = Some bo \<Longrightarrow>
   write_pair_fields nvp (filling w a 16 c) = (Ok (), filling w (a @ header_bytes bo nvp) 0 c)"
  by (simp add: write_pair_fields_def header_bytes_def bind_comp_def ignore_err_def ret_def
      w_writeInt_filling)

lemma endNvPair_in_pair:
  assumes "ready bo w" and "nvp_Type nvp \<noteq> typeUnknown"
  shows "endNvPair nvp (in_pair w body) =
     (Ok (), appended w (header_bytes bo
        (nvp\<lparr>nvp_Size := word_of_nat (16 + length (align8 body))\<rparr>) @ align8 body))"
proof -
  have set_mode: "w_set_mode True (in_pair w (align8 body)) =
      (Ok (), filling w (w_nvlist w) 16 (align8 body))"
    by (simp add: w_set_mode_def in_pair_def filling_def)
  have len: "length (w_nvlist (filling w (w_nvlist w) 16 (align8 body))) -
      w_nvpairStartByte (filling w (w_nvlist w) 16 (align8 body)) = 16 + length (align8 body)"
    by (simp add: filling_def)
  have "w_endianness w = Some bo" using assms by (simp add: ready_def)
  note fill = write_pair_fields_filling [OF this]
  have finish: "steps [w_set_mode False, w_reset_start] (filling w (w_nvlist w @ h) 0 c) =
      (Ok (), appended w (h @ c))" for h c
    using assms(1)
    by (simp add: ready_def filling_def bind_comp_def ret_def w_set_mode_def w_reset_start_def)
  show ?thesis
    using assms
    by (simp add: endNvPair_def comp_simps set_mode len fill finish ready_def del: steps.simps)
qed

section \<open>Writing one pair appends its bytes\<close>

lemma those_map_Some:
  "those (map f xs) = Some ys \<Longrightarrow> ys = map (\<lambda>x. the (f x)) xs \<and> (\<forall>x \<in> set xs. f x \<noteq> None)"
  by (induction xs arbitrary: ys) (auto split: option.splits)

lemma put_uint_take_bit: "put_uint bo n (take_bit (8 * n) w) = put_uint bo n w"
  by (cases bo) (simp_all add: le_bytes_take_bit)

lemma put_uint_ucast32: "put_uint bo 4 (ucast (word_of_nat k :: 32 word)) = put_uint bo 4 (word_of_nat k)"
proof -
  have "(ucast (word_of_nat k :: 32 word) :: uint64) = take_bit (8 * 4) (word_of_nat k)"
    by (rule bit_word_eqI) (auto simp: bit_simps)
  then show ?thesis using put_uint_take_bit [of bo 4] by simp
qed

lemma put_uint_ucast16: "put_uint bo 2 (ucast (word_of_nat k :: 16 word)) = put_uint bo 2 (word_of_nat k)"
proof -
  have "(ucast (word_of_nat k :: 16 word) :: uint64) = take_bit (8 * 2) (word_of_nat k)"
    by (rule bit_word_eqI) (auto simp: bit_simps)
  then show ?thesis using put_uint_take_bit [of bo 2] by simp
qed

definition pair_record :: "string \<Rightarrow> nat \<Rightarrow> nvtype \<Rightarrow> nvpair" where
  "pair_record name n t = \<lparr>nvp_Size = 0, nvp_Name_sz = word_of_nat (length name + 1),
     nvp_Reserve = 0, nvp_Value_elem = word_of_nat n, nvp_Type = t\<rparr>"

lemma pair_record_updates [simp]:
  "(pair_record name n t)\<lparr>nvp_Type := t'\<rparr> = pair_record name n t'"
  "(pair_record name n t)\<lparr>nvp_Value_elem := word_of_nat n'\<rparr> = pair_record name n' t"
  "(pair_record name n t)\<lparr>nvp_Value_elem := 0\<rparr> = pair_record name 0 t"
  "nvp_Type (pair_record name n t) = t"
  by (simp_all add: pair_record_def)

lemma endNvPair_data:
  assumes "ready bo w" and "data_type d \<noteq> typeUnknown"
    and "n = data_count d" and "t = data_type d"
    and "body = align8 (cstring name) @ data_payload bo d"
  shows "endNvPair (pair_record name n t) (in_pair w body) =
     (Ok (), appended w (pair_bytes bo name d))"
proof -
  have "16 + length (align8 body) = pair_size bo name d"
    using assms(5) by (simp add: pair_size_def pair_body_def)
  moreover have "nvp_Type (pair_record name n t) \<noteq> typeUnknown" using assms by simp
  ultimately show ?thesis
    using endNvPair_in_pair [OF assms(1), of "pair_record name n t" body] assms
    by (simp add: header_bytes_def pair_bytes_def pair_record_def pair_body_def
        put_uint_ucast32 put_uint_ucast16 del: of_nat_add of_nat_Suc)
qed

lemma steps_map_in_pair:
  assumes "\<And>x b. x \<in> set xs \<Longrightarrow> f x (in_pair w b) = (Ok (), in_pair w (b @ g x))"
  shows "steps (map f xs @ ms) (in_pair w b) = steps ms (in_pair w (b @ concat (map g xs)))"
  using assms
proof (induction xs arbitrary: b)
  case Nil
  show ?case by simp
next
  case (Cons x xs)
  then show ?case by (simp add: bind_comp_def)
qed

lemma steps_headers:
  "ready bo w \<Longrightarrow> steps (replicate n writeNvlistHeader @ ms) (in_pair w b) =
   steps ms (in_pair w (b @ concat (replicate n (nvlist_hdr_bytes bo))))"
  using steps_map_in_pair [of "replicate n ()" "\<lambda>_. writeNvlistHeader" w "\<lambda>_. nvlist_hdr_bytes bo"]
  by simp

lemma steps_map_ready:
  assumes "\<And>x w. x \<in> set xs \<Longrightarrow> ready bo w \<Longrightarrow> f x w = (Ok (), appended w (g x))" and "ready bo w"
  shows "steps (map f xs) w = (Ok (), appended w (concat (map g xs)))"
  using assms
proof (induction xs arbitrary: w)
  case Nil
  then show ?case by (simp add: ret_def)
next
  case (Cons x xs)
  then show ?case by (simp add: bind_comp_def)
qed

text \<open>The elements of an array.\<close>

lemma write_elem_in_pair:
  "ready bo w \<Longrightarrow> num_bits k x = Some n \<Longrightarrow>
   write_elem x (in_pair w b) = (Ok (), in_pair w (b @ put_uint bo (kind_size k) n))"
  by (auto simp: num_bits_def write_elem_def unpack_ptr_def
      split: gval.splits option.splits if_splits)

lemma write_bool_elem_in_pair:
  "ready bo w \<Longrightarrow> bool_bits x = Some v \<Longrightarrow>
   write_bool_elem x (in_pair w b) = (Ok (), in_pair w (b @ put_uint bo 4 (of_bool v)))"
  by (auto simp: bool_bits_def write_bool_elem_def split: gval.splits)

lemma write_string_elem_in_pair:
  "string_bits x = Some s \<Longrightarrow>
   ignore_err (writeString (val_string (unpackVal x))) (in_pair w b) = (Ok (), in_pair w (b @ cstring s))"
  by (auto simp: string_bits_def ignore_err_def split: if_splits)

lemma nvtypeFromArrayKind_int:
  "k \<in> set int_kinds \<Longrightarrow>
   array_kind (nvtypeFromArrayKind k) = k \<and> nvtypeFromArrayKind k \<noteq> typeUnknown"
  by (auto simp: int_kinds_def nvtypeFromArrayKind_def array_kind_def array_types_def nvtype_defs)

lemma nvtypeFromKind_int:
  "k \<in> set int_kinds \<Longrightarrow>
   scalar_kind (nvtypeFromKind k) = k \<and> nvtypeFromKind k \<noteq> typeUnknown"
  by (auto simp: int_kinds_def nvtypeFromKind_def scalar_kind_def scalar_types_def nvtype_defs)

text \<open>
  \<open>wr\<close> implements the specification \<open>rec\<close> of nested lists; the fuelled encoder is shown to
  do so by induction below.
\<close>

definition writes :: "byteorder \<Rightarrow> (gval \<Rightarrow> nvpairs option) \<Rightarrow> (gval \<Rightarrow> (nvlistWriter, unit) comp) \<Rightarrow> bool" where
  "writes bo rec wr \<longleftrightarrow>
     (\<forall>x ps w. rec x = Some ps \<longrightarrow> ready bo w \<longrightarrow> wr x w = (Ok (), appended w (pairs_bytes bo ps)))"

lemma writesD: "writes bo rec wr \<Longrightarrow> rec x = Some ps \<Longrightarrow> ready bo w \<Longrightarrow>
   wr x w = (Ok (), appended w (pairs_bytes bo ps))"
  by (simp add: writes_def)

lemma write_array_ints:
  assumes et: "unpackType (elem_type (typ_of v)) = Ok et" and len: "int (length (val_elems v)) < 2 ^ 31 - 1"
    and k: "kind et \<in> set int_kinds"
    and those: "those (map (num_bits (kind et)) (val_elems v)) = Some ws"
    and d: "d = NNumArray (nvtypeFromArrayKind (kind et)) ws" and rdy: "ready bo w"
  shows "write_array wr (pair_record name 1 0) v (in_pair w (align8 (cstring name))) =
     (Ok NextPair, appended w (pair_bytes bo name d))"
proof -
  let ?k = "kind et" and ?xs = "val_elems v" and ?b = "align8 (cstring name)"
  have ws: "ws = map (\<lambda>x. the (num_bits ?k x)) ?xs" "\<forall>x \<in> set ?xs. num_bits ?k x \<noteq> None"
    using those_map_Some [OF those] by auto
  have "steps (map write_elem ?xs @ ms) (in_pair w ?b) = steps ms (in_pair w
      (?b @ concat (map (\<lambda>x. put_uint bo (kind_size ?k) (the (num_bits ?k x))) ?xs)))" for ms
    using ws(2) by (intro steps_map_in_pair write_elem_in_pair [OF rdy]) auto
  moreover have "concat (map (\<lambda>x. put_uint bo (kind_size ?k) (the (num_bits ?k x))) ?xs) =
      data_payload bo d"
    using d ws(1) nvtypeFromArrayKind_int [OF k] by (simp add: comp_def)
  ultimately show ?thesis
    using k len et d ws(1) nvtypeFromArrayKind_int [OF k]
    by (simp add: write_array_def comp_simps Let_def endNvPair_data [OF rdy, of d])
qed

lemma write_array_bools:
  assumes et: "unpackType (elem_type (typ_of v)) = Ok et" and len: "int (length (val_elems v)) < 2 ^ 31 - 1"
    and k: "kind et = KBool" and those: "those (map bool_bits (val_elems v)) = Some bs"
    and rdy: "ready bo w"
  shows "write_array wr (pair_record name 1 0) v (in_pair w (align8 (cstring name))) =
     (Ok NextPair, appended w (pair_bytes bo name (NBooleanArray bs)))"
proof -
  let ?xs = "val_elems v" and ?b = "align8 (cstring name)"
  have bs: "bs = map (\<lambda>x. the (bool_bits x)) ?xs" "\<forall>x \<in> set ?xs. bool_bits x \<noteq> None"
    using those_map_Some [OF those] by auto
  have "steps (map write_bool_elem ?xs @ ms) (in_pair w ?b) = steps ms (in_pair w
      (?b @ concat (map (\<lambda>x. put_uint bo 4 (of_bool (the (bool_bits x)))) ?xs)))" for ms
    using bs(2) by (intro steps_map_in_pair write_bool_elem_in_pair [OF rdy]) auto
  moreover have "concat (map (\<lambda>x. put_uint bo 4 (of_bool (the (bool_bits x)))) ?xs) =
      data_payload bo (NBooleanArray bs)"
    using bs(1) by (simp add: comp_def)
  ultimately show ?thesis
    using k len et bs(1)
    by (simp add: write_array_def comp_simps Let_def endNvPair_data [OF rdy, of "NBooleanArray bs"]
        nvtype_defs int_kinds_def)
qed

lemma write_array_strings:
  assumes et: "unpackType (elem_type (typ_of v)) = Ok et" and len: "int (length (val_elems v)) < 2 ^ 31 - 1"
    and k: "kind et = KString" and those: "those (map string_bits (val_elems v)) = Some ss"
    and rdy: "ready bo w"
  shows "write_array wr (pair_record name 1 0) v (in_pair w (align8 (cstring name))) =
     (Ok NextPair, appended w (pair_bytes bo name (NStringArray ss)))"
proof -
  let ?xs = "val_elems v"
  have ss: "ss = map (\<lambda>x. the (string_bits x)) ?xs" "\<forall>x \<in> set ?xs. string_bits x \<noteq> None"
    using those_map_Some [OF those] by auto
  have "steps (map (\<lambda>x. ignore_err (writeString (val_string (unpackVal x)))) ?xs @ ms) (in_pair w b) =
      steps ms (in_pair w (b @ concat (map (\<lambda>x. cstring (the (string_bits x))) ?xs)))" for ms b
    using ss(2) by (intro steps_map_in_pair write_string_elem_in_pair) auto
  moreover have "concat (map (\<lambda>x. cstring (the (string_bits x))) ?xs) = concat (map cstring ss)"
    using ss(1) by (simp add: comp_def)
  ultimately show ?thesis
    using k len et ss(1)
    by (simp add: write_array_def comp_simps Let_def endNvPair_data [OF rdy, of "NStringArray ss"]
        nvtype_defs int_kinds_def)
qed

lemma write_array_nvlists:
  assumes et: "unpackType (elem_type (typ_of v)) = Ok et" and len: "int (length (val_elems v)) < 2 ^ 31 - 1"
    and k: "kind et = KStruct \<or> kind et = KMap" and those: "those (map rec (val_elems v)) = Some pss"
    and rdy: "ready bo w" and wr: "writes bo rec wr"
  shows "write_array wr (pair_record name 1 0) v (in_pair w (align8 (cstring name))) =
     (Ok NextPair, appended w (pair_bytes bo name (NNvlistArray pss) @
        concat (map (pairs_bytes bo) pss)))"
proof -
  let ?xs = "val_elems v"
  have pss: "pss = map (\<lambda>x. the (rec x)) ?xs" "\<forall>x \<in> set ?xs. rec x \<noteq> None"
    using those_map_Some [OF those] by auto
  have "steps (map wr ?xs) w' =
      (Ok (), appended w' (concat (map (\<lambda>x. pairs_bytes bo (the (rec x))) ?xs)))"
    if "ready bo w'" for w'
    using pss(2) that by (intro steps_map_ready) (auto intro: writesD [OF wr])
  moreover have "concat (map (\<lambda>x. pairs_bytes bo (the (rec x))) ?xs) =
      concat (map (pairs_bytes bo) pss)"
    using pss(1) by (simp add: comp_def)
  ultimately show ?thesis
    using k len et pss(1) rdy
    by (auto simp: write_array_def comp_simps Let_def endNvPair_data [OF rdy, of "NNvlistArray pss"]
        nvtype_defs steps_headers int_kinds_def)
qed

lemma write_array_correct:
  assumes spec: "array_spec rec v = Some d" and rdy: "ready bo w" and wr: "writes bo rec wr"
  shows "write_array wr (pair_record name 1 0) v (in_pair w (align8 (cstring name))) =
     (Ok NextPair, appended w (pair_bytes bo name d @ data_nested bo d))"
proof -
  from spec obtain et where len: "int (length (val_elems v)) < 2 ^ 31 - 1"
    and et: "unpackType (elem_type (typ_of v)) = Ok et"
    by (auto simp: array_spec_def Let_def split: if_splits res.splits)
  note parts = write_array_ints [OF et len] write_array_bools [OF et len]
    write_array_strings [OF et len] write_array_nvlists [OF et len]
  show ?thesis
    using spec et parts rdy wr by (auto simp: array_spec_def Let_def split: if_splits)
qed

lemma write_nested_correct:
  assumes "rec v = Some ps" and rdy: "ready bo w" and wr: "writes bo rec wr"
  shows "bind_comp (steps [writeNvlistHeader, endNvPair (pair_record name 1 typeNvlist)])
       (\<lambda>_. write_nested wr v) (in_pair w (align8 (cstring name))) =
     (Ok NextPair, appended w (pair_bytes bo name (NNvlist ps) @ pairs_bytes bo ps))"
  using assms
  by (simp add: comp_simps bind_comp_def write_nested_def endNvPair_data [OF rdy, of "NNvlist ps"] nvtype_defs
      writesD [OF wr])

lemma write_value_correct:
  assumes "value_spec rec v = Some d" and rdy: "ready bo w" and wr: "writes bo rec wr"
  shows "write_value wr (pair_record name 1 0) v (in_pair w (align8 (cstring name))) =
     (Ok NextPair, appended w (pair_bytes bo name d @ data_nested bo d))"
proof (cases v)
  case (VNum T n)
  show ?thesis
  proof (cases "kind T \<in> set int_kinds")
    case True
    with VNum assms(1) have d: "d = NNum (nvtypeFromKind (kind T)) n" by simp
    show ?thesis
      using True VNum d rdy nvtypeFromKind_int [OF True]
      by (simp add: write_value_def num_kinds_def comp_simps write_elem_def
          endNvPair_data [OF rdy, of d])
  next
    case False
    with VNum assms(1) have "kind T = KFloat64" and d: "d = NDouble n" by (auto split: if_splits)
    then show ?thesis
      using VNum rdy
      by (simp add: write_value_def num_kinds_def comp_simps write_elem_def nvtypeFromKind_def
          endNvPair_data [OF rdy, of d] nvtype_defs)
  qed
next
  case (VBool T b)
  then show ?thesis
    using assms(1)
    by (auto simp: write_value_def num_kinds_def int_kinds_def comp_simps
        endNvPair_data [OF rdy, of NBoolean] nvtype_defs split: if_splits)
next
  case (VString T s)
  then show ?thesis
    using assms(1)
    by (auto simp: write_value_def num_kinds_def int_kinds_def comp_simps
        endNvPair_data [OF rdy, of "NString s"] nvtype_defs split: if_splits)
next
  case (VMap T m)
  then show ?thesis
    using assms(1) write_nested_correct [OF _ rdy wr, of v]
    by (auto simp: write_value_def num_kinds_def int_kinds_def)
next
  case (VStruct T vs)
  then show ?thesis
    using assms(1) write_nested_correct [OF _ rdy wr, of v]
    by (auto simp: write_value_def num_kinds_def int_kinds_def)
next
  case (VArray T vs)
  then show ?thesis
    using assms(1) write_array_correct [OF _ rdy wr, of v]
    by (auto simp: write_value_def num_kinds_def int_kinds_def)
next
  case (VSlice T vs)
  then show ?thesis
    using assms(1) write_array_correct [OF _ rdy wr, of v]
    by (auto simp: write_value_def num_kinds_def int_kinds_def)
qed (use assms(1) in simp_all)

lemma write_pair_false:
  "enc_name n \<Longrightarrow> is_false v \<Longrightarrow> write_pair wr (n, v) w = (Ok NextPair, w)"
  by (cases v) (auto simp: write_pair_def enc_name_def)

lemma write_pair_correct:
  assumes "enc_name n" and "value_spec rec v = Some d" and "\<not> is_false v"
    and rdy: "ready bo w" and wr: "writes bo rec wr"
  shows "write_pair wr (n, v) w = (Ok NextPair, appended w (item_bytes bo (n, d)))"
proof -
  have "\<not> (kind_of v = KBool \<and> val_bool v = Ok False)"
    using assms(2,3) by (cases v) (auto split: if_splits)
  moreover have "steps [startNvPair, ignore_err (writeString n), w_skipToAlign] w =
      (Ok (), in_pair w (align8 (cstring n)))"
    using assms(1) by (simp add: comp_simps startNvPair_ready enc_name_def)
  ultimately show ?thesis
    using assms(1) write_value_correct [OF assms(2) rdy wr, of n]
    by (auto simp: write_pair_def enc_name_def item_bytes_def bind_comp_Ok pair_record_def
        simp del: steps.simps)
qed

lemma write_pairs_correct:
  assumes "pairs_spec rec nvs = Some ps" and "ready bo w" and wr: "writes bo rec wr"
  shows "write_pairs wr nvs w = (Ok NextPair, appended w (concat (map (item_bytes bo) ps)))"
  using assms(1,2)
proof (induction nvs arbitrary: ps w)
  case Nil
  then show ?case by (simp add: ret_def)
next
  case (Cons nv nvs)
  obtain n v where nv: "nv = (n, v)" by (cases nv)
  show ?case
  proof (cases "is_false v")
    case True
    with Cons nv show ?thesis
      by (auto simp: bind_comp_def write_pair_false split: if_splits)
  next
    case False
    with Cons.prems(1) nv obtain d ps' where
      "enc_name n" "value_spec rec v = Some d" "pairs_spec rec nvs = Some ps'" "ps = (n, d) # ps'"
      by (auto split: if_splits option.splits)
    with Cons False nv show ?thesis
      by (simp add: bind_comp_def write_pair_correct [OF _ _ _ _ wr])
  qed
qed

lemma collect_pairs_valid: "collect_pairs v = Ok nvs \<Longrightarrow> v \<noteq> VInvalid"
  by (auto simp: collect_pairs_def)

lemma writeNvPairs_writes: "writes bo (nvlist_spec fuel) (writeNvPairs fuel)"
proof (induction fuel)
  case 0
  show ?case by (simp add: writes_def)
next
  case (Suc fuel)
  show ?case
    unfolding writes_def
  proof (intro allI impI)
    fix x ps w
    assume spec: "nvlist_spec (Suc fuel) x = Some ps" and rdy: "ready bo w"
    from spec obtain nvs where c: "collect_pairs (unpackVal x) = Ok nvs"
      and p: "pairs_spec (nvlist_spec fuel) nvs = Some ps"
      by (auto split: res.splits)
    then show "writeNvPairs (Suc fuel) x w = (Ok (), appended w (pairs_bytes bo ps))"
      using write_pairs_correct [OF p rdy Suc.IH] collect_pairs_valid [OF c]
      by (simp add: bind_comp_def w_skipN_def w_append_def pairs_bytes_def)
  qed
qed

lemma writeNvHeader_new_writer:
  "\<exists>w. writeNvHeader new_writer = (Ok (), w) \<and> ready LittleEndian w \<and>
     w_nvlist w = wire_header EncodingNative LittleEndian 0 uniqueNameFlag"
  by (simp add: writeNvHeader_def new_writer_def comp_simps WriteByte_def w_append_def bind_comp_def
      ignore_err_def w_writeInt_def w_Write_def ready_def wire_header_def w_set_endianness_def w_skipN_def
      numeral_2_eq_2)

lemma Marshal_nvlist_of:
  assumes "nvlist_of v = Some ps"
  shows "Marshal v = Ok (nvlist_bytes LittleEndian ps)"
proof -
  obtain w where w: "writeNvHeader new_writer = (Ok (), w)" and rdy: "ready LittleEndian w"
    and hdr: "w_nvlist w = wire_header EncodingNative LittleEndian 0 uniqueNameFlag"
    using writeNvHeader_new_writer by blast
  have "writeNvPairs (Suc (size v)) v w = (Ok (), appended w (pairs_bytes LittleEndian ps))"
    using writesD [OF writeNvPairs_writes] assms rdy unfolding nvlist_of_def by blast
  with w hdr show ?thesis
    by (simp add: Marshal_def comp_simps nvlist_bytes_def del: writeNvPairs.simps)
qed

end
