(* ===== verification/Nv_Encoder_Total.thy ===== *)
theory Nv_Encoder_Total
  imports Nv_Encoder_Correct
begin

text \<open>
  Total behaviour of the encoder on every Go value: the fuel \<^verbatim>\<open>Marshal\<close> starts with is always
  enough, no operation shrinks the output, and so a result holds at least the twelve bytes of
  the stream header (which \<^verbatim>\<open>NvlistIoctl\<close> relies on when it takes \<^verbatim>\<open>&src[0]\<close>).
\<close>

section \<open>Termination, and output only grows\<close>

definition progresses :: "(nvlistWriter, 'a) comp \<Rightarrow> bool" where
  "progresses m \<longleftrightarrow>
     (\<forall>w. fst (m w) \<noteq> Diverge \<and> length (w_nvlist w) \<le> length (w_nvlist (snd (m w))))"

lemma progressesD:
  "progresses m \<Longrightarrow> m w = (r, w') \<Longrightarrow> r \<noteq> Diverge \<and> length (w_nvlist w) \<le> length (w_nvlist w')"
  by (metis progresses_def fst_conv snd_conv)

lemma progressesI:
  "(\<And>w r w'. m w = (r, w') \<Longrightarrow> r \<noteq> Diverge \<and> length (w_nvlist w) \<le> length (w_nvlist w')) \<Longrightarrow> progresses m"
  unfolding progresses_def by (metis prod.collapse)

lemma progresses_ret [intro]: "progresses (ret x)"
  by (simp add: progresses_def ret_def)

lemma progresses_bind [intro]:
  assumes "progresses m" and "\<And>x. progresses (f x)"
  shows "progresses (bind_comp m f)"
proof (rule progressesI)
  fix w r w'
  assume eq: "bind_comp m f w = (r, w')"
  obtain r1 w1 where mw: "m w = (r1, w1)" by force
  from progressesD [OF assms(1) mw]
  have r1: "r1 \<noteq> Diverge" "length (w_nvlist w) \<le> length (w_nvlist w1)" by auto
  show "r \<noteq> Diverge \<and> length (w_nvlist w) \<le> length (w_nvlist w')"
  proof (cases r1)
    case (Ok x)
    with eq mw have "f x w1 = (r, w')" by (simp add: bind_comp_def)
    from progressesD [OF assms(2) this] r1 show ?thesis by linarith
  qed (use eq mw r1 in \<open>auto simp: bind_comp_def\<close>)
qed

lemma progresses_steps [intro]: "(\<And>m. m \<in> set ms \<Longrightarrow> progresses m) \<Longrightarrow> progresses (steps ms)"
  by (induction ms) (simp_all add: progresses_ret progresses_bind)

lemma progresses_ignore_err [intro]: "progresses m \<Longrightarrow> progresses (ignore_err m)"
  by (rule progressesI) (auto simp: ignore_err_def split: prod.splits res.splits dest: progressesD)

lemma progresses_state: "(\<And>w. progresses (f w)) \<Longrightarrow> progresses (\<lambda>w. f w w)"
  by (simp add: progresses_def)

lemma progresses_const [intro]:
  "progresses (\<lambda>w. (Err e, w))" "progresses (\<lambda>w. (Panic p, w))" "progresses (\<lambda>w. (Ok x, w))"
  by (simp_all add: progresses_def)

lemma progresses_append [intro]: "progresses (w_append bs)"
  by (simp add: progresses_def w_append_def)

lemma progresses_Write [intro]: "progresses (w_Write bs)"
  by (simp add: progresses_def w_Write_def w_append_def overwrite_def)

lemma progresses_writeInt [intro]: "progresses (w_writeInt n v)"
  unfolding w_writeInt_def using progresses_Write
  by (auto simp: progresses_def split: option.splits)

lemma progresses_writeString [intro]: "progresses (writeString s)"
proof (induction s)
  case Nil
  show ?case using progresses_append by (simp add: progresses_def)
next
  case (Cons c s)
  then have "progresses (bind_comp (w_append [byte_of_char c]) (\<lambda>_. writeString s))" by blast
  then show ?case by (simp add: progresses_def)
qed

lemma progresses_prims [intro]:
  "progresses (WriteByte c)" "progresses (w_skipN n)" "progresses w_skipToAlign"
  "progresses startNvPair" "progresses (w_set_mode b)" "progresses w_reset_start"
  "progresses (w_set_endianness bo)"
  by (auto simp: w_skipToAlign_def steps_write_zeros progresses_def Let_def startNvPair_def
      w_set_mode_def w_reset_start_def w_set_endianness_def w_skipN_def WriteByte_def [of c]
      w_append_def)

lemma progresses_header [intro]: "progresses writeNvlistHeader"
  unfolding writeNvlistHeader_def Let_def by (rule progresses_steps) auto

lemma progresses_writeNvHeader [intro]: "progresses writeNvHeader"
proof -
  have "progresses (\<lambda>w. ignore_err (w_writeInt n (f w)) w)" for n and f :: "nvlistWriter \<Rightarrow> uint64"
    by (rule progresses_state) auto
  then show ?thesis unfolding writeNvHeader_def by (intro progresses_steps) auto
qed

lemma progresses_endNvPair [intro]: "progresses (endNvPair nvp)"
proof -
  have "progresses (write_pair_fields nvp)" for nvp
    unfolding write_pair_fields_def by (rule progresses_steps) auto
  then have "progresses (\<lambda>w. write_pair_fields (f w) w)" for f
    by (rule progresses_state)
  then have "progresses (steps [w_skipToAlign, w_set_mode True,
      (\<lambda>w. write_pair_fields (nvp\<lparr>nvp_Size := word_of_nat (length (w_nvlist w) - w_nvpairStartByte w)\<rparr>) w),
      w_set_mode False, w_reset_start])"
    by (intro progresses_steps) auto
  then show ?thesis by (simp add: progresses_def endNvPair_def)
qed

lemma progresses_elems [intro]: "progresses (write_elem x)" "progresses (write_bool_elem x)"
proof -
  show "progresses (write_elem x)"
    using progresses_writeInt
    by (auto simp: progresses_def write_elem_def split: gval.splits option.splits gotype.splits)
  show "progresses (write_bool_elem x)"
    using progresses_writeInt
    by (cases "unpackVal x") (auto simp: progresses_def write_bool_elem_def)
qed

lemma unpackType_not_Diverge: "unpackType t \<noteq> Diverge"
  by (simp add: unpackType_def Let_def)

lemma progresses_write_array:
  assumes "\<And>x. x \<in> set (val_elems v) \<Longrightarrow> progresses (wr x)"
  shows "progresses (write_array wr nvp v)"
proof -
  have "progresses (next_after (steps (map write_elem xs @ [endNvPair n])))"
    "progresses (next_after (steps (map write_bool_elem xs @ [endNvPair n])))"
    "progresses (next_after (steps ([w_skipN k] @
       map (\<lambda>x. ignore_err (writeString (val_string (unpackVal x)))) xs @ [endNvPair n])))"
    "progresses (next_after (steps ([w_skipN k] @ replicate k' writeNvlistHeader @ [endNvPair n] @
       map wr (val_elems v))))" for xs n k k'
    using assms by (intro progresses_bind progresses_steps; auto)+
  then show ?thesis
    by (auto simp: progresses_def write_array_def Let_def unpackType_not_Diverge
        split: res.splits simp del: steps.simps)
qed

lemma progresses_write_value:
  assumes "progresses (wr v)" and "\<And>x. x \<in> set (val_elems v) \<Longrightarrow> progresses (wr x)"
  shows "progresses (write_value wr nvp v)"
proof -
  have "progresses (write_nested wr v)"
    by (rule progressesI)
      (auto simp: write_nested_def split: prod.splits res.splits dest: progressesD [OF assms(1)])
  then have "progresses (bind_comp (steps [writeNvlistHeader, endNvPair n]) (\<lambda>_. write_nested wr v))" for n
    by (intro progresses_bind progresses_steps) auto
  moreover have "progresses (next_after (steps [write_elem v, endNvPair n]))"
    "progresses (next_after (endNvPair n))"
    "progresses (next_after (steps [ignore_err (writeString s), endNvPair n]))" for n s
    by (intro progresses_bind progresses_steps; auto)+
  moreover have "progresses (write_array wr nvp v)"
    using assms(2) by (rule progresses_write_array)
  ultimately show ?thesis
    by (simp add: progresses_def write_value_def Let_def del: steps.simps)
qed

lemma progresses_write_pair:
  assumes "progresses (wr v)" and "\<And>x. x \<in> set (val_elems v) \<Longrightarrow> progresses (wr x)"
  shows "progresses (write_pair wr (n, v))"
proof -
  have "progresses (bind_comp (steps [startNvPair, ignore_err (writeString n), w_skipToAlign])
      (\<lambda>_. write_value wr nvp v))" for nvp
    using progresses_write_value [of wr v] assms by (intro progresses_bind progresses_steps) auto
  then show ?thesis by (simp add: progresses_def write_pair_def Let_def del: steps.simps)
qed

lemma progresses_write_pairs:
  assumes "\<And>n v. (n, v) \<in> set nvs \<Longrightarrow> progresses (wr v)"
    and "\<And>n v x. (n, v) \<in> set nvs \<Longrightarrow> x \<in> set (val_elems v) \<Longrightarrow> progresses (wr x)"
  shows "progresses (write_pairs wr nvs)"
  using assms
proof (induction nvs)
  case Nil
  show ?case by auto
next
  case (Cons nv nvs)
  obtain n v where nv: "nv = (n, v)" by (cases nv)
  have "progresses (write_pairs wr nvs)"
    by (rule Cons.IH) (use Cons.prems in \<open>force+\<close>)
  moreover have "progresses (write_pair wr nv)"
    unfolding nv by (rule progresses_write_pair) (use Cons.prems nv in \<open>force+\<close>)
  ultimately show ?case
    by (auto intro!: progresses_bind split: flow.splits)
qed

text \<open>Every value the encoder descends into is smaller.\<close>

lemma size_map_entry: "(k, x) \<in> set m \<Longrightarrow> size x < size (VMap T (Some m))"
proof (induction m)
  case Nil
  then show ?case by simp
next
  case (Cons a m)
  then show ?case by (cases a) auto
qed

lemma size_elem: "x \<in> set vs \<Longrightarrow> size x < size (VSlice T vs)" "x \<in> set vs \<Longrightarrow> size x < size (VArray T vs)"
  "x \<in> set vs \<Longrightarrow> size x < size (VStruct T vs)"
  by (auto simp: less_Suc_eq_le intro: size_list_estimation')

lemma size_val_elems: "x \<in> set (val_elems v) \<Longrightarrow> size x < size v"
  by (cases v) (auto simp: less_Suc_eq_le intro: size_list_estimation')

lemma collect_field_val: "(n, x) \<in> set (collect_field f y) \<Longrightarrow> x = unpackVal y"
  by (cases f) (simp add: collect_field_def Let_def split: if_splits)

lemma size_collect_pairs:
  assumes "collect_pairs v = Ok nvs" and "(n, x) \<in> set nvs"
  shows "size x < size v"
proof (cases v)
  case (VMap T m)
  with assms obtain k y where "(k, y) \<in> set (map_entries v)" "x = unpackVal y"
    by (auto simp: collect_pairs_def collect_map_def Let_def split: if_splits)
  then show ?thesis
    using VMap size_map_entry [of k y _ T] size_unpackVal [of y]
    by (cases m) (auto intro: le_less_trans simp del: gval.size)
next
  case (VStruct T vs)
  with assms obtain f y where "(f, y) \<in> set (zip (struct_fields T) vs)" "x = unpackVal y"
    by (fastforce simp: collect_pairs_def dest: collect_field_val)
  then have "y \<in> set vs" "x = unpackVal y" by (auto dest: set_zip_rightD)
  then show ?thesis
    using VStruct size_elem(3) [of y vs T] size_unpackVal [of y] by simp
qed (use assms in \<open>auto simp: collect_pairs_def collect_map_def split: gkind.splits\<close>)

lemma collect_pairs_not_Diverge: "collect_pairs v \<noteq> Diverge"
  by (simp add: collect_pairs_def collect_map_def split: gkind.splits)

lemma writeNvPairs_progresses: "size v < fuel \<Longrightarrow> progresses (writeNvPairs fuel v)"
proof (induction fuel arbitrary: v)
  case 0
  then show ?case by simp
next
  case (Suc fuel)
  let ?v = "unpackVal v"
  have sz: "size ?v \<le> size v" by (rule size_unpackVal)
  have "progresses (bind_comp (write_pairs (writeNvPairs fuel) nvs)
      (\<lambda>f. case f of ReturnNil \<Rightarrow> ret () | NextPair \<Rightarrow> w_skipN 4))"
    if c: "collect_pairs ?v = Ok nvs" for nvs
  proof (rule progresses_bind [OF progresses_write_pairs])
    fix n x assume "(n, x) \<in> set nvs"
    then have x: "size x < fuel" using size_collect_pairs [OF c] sz Suc.prems by fastforce
    then show "progresses (writeNvPairs fuel x)" by (rule Suc.IH)
    fix y assume "y \<in> set (val_elems x)"
    then show "progresses (writeNvPairs fuel y)" using size_val_elems x Suc.IH by fastforce
  qed (auto split: flow.splits)
  then show ?case
    using collect_pairs_not_Diverge [of ?v]
    by (cases "collect_pairs ?v") (simp_all add: progresses_def Let_def)
qed

lemma Marshal_progress: "Marshal v \<noteq> Diverge \<and> (\<forall>bs. Marshal v = Ok bs \<longrightarrow> 12 \<le> length bs)"
proof -
  obtain w where w: "writeNvHeader new_writer = (Ok (), w)"
    and hdr: "w_nvlist w = wire_header EncodingNative LittleEndian 0 uniqueNameFlag"
    using writeNvHeader_new_writer by blast
  obtain r w' where r: "writeNvPairs (Suc (size v)) v w = (r, w')" by force
  then have "r \<noteq> Diverge" "length (w_nvlist w) \<le> length (w_nvlist w')"
    using writeNvPairs_progresses [of v "Suc (size v)"] unfolding progresses_def
    by (metis fst_conv lessI, metis lessI snd_conv)
  moreover have "length (w_nvlist w) = 12" using hdr by (simp add: wire_header_def)
  ultimately show ?thesis
    using w r by (cases r) (auto simp: Marshal_def bind_comp_def ret_def simp del: writeNvPairs.simps)
qed

end
