(* ===== verification/Nv_Roundtrip.thy ===== *)
theory Nv_Roundtrip
  imports Nv_Decoder_Correct Nv_Encoder_Correct Nv_Encoder_Total
begin

text \<open>
  Encoder and decoder together: the values that survive the trip through the wire format, that
  each of them is encoded, and that decoding the result gives the value back. The locale
  \<open>value_codec\<close> is the contract the ioctl package relies on.
\<close>

section \<open>Values the decoder can produce\<close>

text \<open>
  Trees of \<^verbatim>\<open>map[string]interface{}\<close>, numbers of the sized kinds, strings without null
  bytes, \<^verbatim>\<open>true\<close>, and slices of those (also of \<^verbatim>\<open>false\<close>) of at most 65535 elements.
\<close>

definition slice_type :: "gotype \<Rightarrow> bool" where
  "slice_type T =
     (T = TSlice TAnyMap \<or> (\<exists>k \<in> set (KBool # KString # int_kinds). T = TSlice (TBasic k)))"

definition entry_value :: "gval \<Rightarrow> bool" where
  "entry_value v = (case v of VIface (Some x) \<Rightarrow> \<not> is_false x \<and> kind_of x \<noteq> KInterface | _ \<Rightarrow> False)"

fun plain :: "gval \<Rightarrow> bool" where
  "plain (VBool T b) = (T = TBool)"
| "plain (VNum T w) = (\<exists>k \<in> set int_kinds. T = TBasic k \<and> fits k w)"
| "plain (VString T s) = (T = TString \<and> nul_free s)"
| "plain (VIface (Some x)) = plain x"
| "plain (VMap T (Some es)) =
     (T = TAnyMap \<and> distinct (map fst es) \<and>
      list_all (\<lambda>(k, x). enc_name k \<and> entry_value x \<and> plain x) es)"
| "plain (VSlice T xs) =
     (slice_type T \<and> int (length xs) \<le> 65535 \<and>
      list_all (\<lambda>x. typ_of x = elem_type T \<and> plain x) xs)"
| "plain v = False"

definition any_value :: "gval \<Rightarrow> bool" where
  "any_value v \<longleftrightarrow> plain v \<and> kind_of v = KMap"

definition represents :: "(gval \<Rightarrow> nvpairs option) \<Rightarrow> gval \<Rightarrow> bool" where
  "represents rec v \<longleftrightarrow> (\<exists>ps. rec v = Some ps \<and> go_map ps = v \<and>
     (int (length (pairs_bytes LittleEndian ps)) < 2 ^ 31 \<longrightarrow> wf_nvpairs ps))"

lemma those_map: "(\<And>x. x \<in> set xs \<Longrightarrow> f x = Some (g x)) \<Longrightarrow> those (map f xs) = Some (map g xs)"
  by (induction xs) simp_all

lemma plain_map_TypeD: "plain v \<Longrightarrow> typ_of v = TAnyMap \<Longrightarrow> kind_of v = KMap"
  by (cases v rule: plain.cases) (auto simp: slice_type_def)

lemma nvtypeFromKind_scalar: "k \<in> set int_kinds \<Longrightarrow> nvtypeFromKind k \<in> fst ` set scalar_types"
  by (auto simp: int_kinds_def nvtypeFromKind_def scalar_types_def)

lemma nvtypeFromArrayKind_array: "k \<in> set int_kinds \<Longrightarrow> nvtypeFromArrayKind k \<in> fst ` set array_types"
  by (auto simp: int_kinds_def nvtypeFromArrayKind_def array_types_def)

definition value_represents :: "(gval \<Rightarrow> nvpairs option) \<Rightarrow> gval \<Rightarrow> bool" where
  "value_represents rec x \<longleftrightarrow> (\<exists>d. value_spec rec x = Some d \<and> go_value d = Some x \<and>
     int (data_count d) \<le> 65535 \<and>
     (int (length (data_nested LittleEndian d)) < 2 ^ 31 \<longrightarrow> wf_data d))"

lemma represents_num_slice:
  assumes "plain (VSlice (TSlice (TBasic k)) xs)" and "k \<in> set int_kinds"
  shows "value_represents rec (VSlice (TSlice (TBasic k)) xs)"
proof -
  have "\<exists>w. x = VNum (TBasic k) w \<and> fits k w" if "x \<in> set xs" for x
    using assms that by (cases x rule: plain.cases) (fastforce simp: list_all_iff int_kinds_def slice_type_def)+
  then obtain g where g: "\<And>x. x \<in> set xs \<Longrightarrow> x = VNum (TBasic k) (g x) \<and> fits k (g x)" by metis
  have "those (map (num_bits k) xs) = Some (map g xs)"
    using g by (intro those_map) (force simp: num_bits_def unpack_ptr_def split: gval.splits)
  moreover have "map (VNum (TBasic k)) (map g xs) = xs"
    using g by (simp add: map_idI)
  moreover have "kind (TBasic k) \<noteq> KPtr" "kind (TBasic k) \<noteq> KInterface" using assms(2) by (auto simp: int_kinds_def)
  ultimately show ?thesis
    using assms g nvtypeFromArrayKind_int [of k] nvtypeFromArrayKind_array [of k]
    by (simp add: value_represents_def array_spec_def unpackType_def Let_def list_all_iff)
qed

lemma represents_bool_slice:
  assumes "plain (VSlice (TSlice TBool) xs)"
  shows "value_represents rec (VSlice (TSlice TBool) xs)"
proof -
  have "\<exists>b. x = VBool TBool b" if "x \<in> set xs" for x
    using assms that by (cases x rule: plain.cases) (fastforce simp: list_all_iff int_kinds_def slice_type_def)+
  then obtain g where g: "\<And>x. x \<in> set xs \<Longrightarrow> x = VBool TBool (g x)" by metis
  have "those (map bool_bits xs) = Some (map g xs)"
    using g by (intro those_map) (force simp: bool_bits_def unpackVal_def unpack_ptr_def unpack_iface_def split: gval.splits)
  moreover have "map (VBool TBool) (map g xs) = xs" using g by (simp add: map_idI)
  ultimately show ?thesis
    using assms by (simp add: value_represents_def array_spec_def unpackType_def Let_def int_kinds_def)
qed

lemma represents_string_slice:
  assumes "plain (VSlice (TSlice TString) xs)"
  shows "value_represents rec (VSlice (TSlice TString) xs)"
proof -
  have "\<exists>s. x = VString TString s \<and> nul_free s" if "x \<in> set xs" for x
    using assms that by (cases x rule: plain.cases) (fastforce simp: list_all_iff int_kinds_def slice_type_def)+
  then obtain g where g: "\<And>x. x \<in> set xs \<Longrightarrow> x = VString TString (g x) \<and> nul_free (g x)" by metis
  have "those (map string_bits xs) = Some (map g xs)"
    using g by (intro those_map) (force simp: string_bits_def unpackVal_def unpack_ptr_def unpack_iface_def split: gval.splits)
  moreover have "map (VString TString) (map g xs) = xs" using g by (simp add: map_idI)
  ultimately show ?thesis
    using assms g
    by (simp add: value_represents_def array_spec_def unpackType_def Let_def int_kinds_def list_all_iff)
qed

lemma represents_map_slice:
  assumes "plain (VSlice (TSlice TAnyMap) xs)"
    and rec: "\<And>y. y \<in> set xs \<Longrightarrow> any_value y \<Longrightarrow> represents rec y"
  shows "value_represents rec (VSlice (TSlice TAnyMap) xs)"
proof -
  have "represents rec x" if "x \<in> set xs" for x
    using assms that plain_map_TypeD [of x] by (auto simp: any_value_def list_all_iff)
  then obtain g where g: "\<And>x. x \<in> set xs \<Longrightarrow> rec x = Some (g x) \<and> go_map (g x) = x \<and>
      (int (length (pairs_bytes LittleEndian (g x))) < 2 ^ 31 \<longrightarrow> wf_nvpairs (g x))"
    unfolding represents_def by metis
  have "those (map rec xs) = Some (map g xs)" using g by (intro those_map) simp
  moreover have "map go_map (map g xs) = xs" using g by (simp add: map_idI)
  moreover have "length (pairs_bytes LittleEndian (g x)) \<le> length (concat (map (pairs_bytes LittleEndian) (map g xs)))"
    if "x \<in> set xs" for x
    using that member_le_sum_list [of "length (pairs_bytes LittleEndian (g x))"
        "map (length \<circ> pairs_bytes LittleEndian \<circ> g) xs"]
    by (simp add: length_concat comp_assoc)
  then have "wf_nvpairs (g x)" if "int (length (concat (map (pairs_bytes LittleEndian) (map g xs)))) < 2 ^ 31" "x \<in> set xs" for x
    using that g [of x] by fastforce
  ultimately show ?thesis
    using assms by (simp add: value_represents_def array_spec_def unpackType_def Let_def int_kinds_def list_all_iff)
qed

lemma represents_value:
  assumes "plain x" and "\<not> is_false x" and "kind_of x \<noteq> KInterface"
    and rec: "\<And>y. size y \<le> size x \<Longrightarrow> any_value y \<Longrightarrow> represents rec y"
  shows "value_represents rec x"
proof (cases x rule: plain.cases)
  case (2 T w)
  then show ?thesis
    using assms nvtypeFromKind_int nvtypeFromKind_scalar by (auto simp: value_represents_def)
next
  case (5 T es)
  then have "represents rec x" using assms by (simp add: any_value_def)
  then show ?thesis using 5 by (auto simp: represents_def value_represents_def)
next
  case (6 T xs)
  then consider k where "T = TSlice (TBasic k)" "k \<in> set int_kinds" | "T = TSlice TBool"
    | "T = TSlice TString" | "T = TSlice TAnyMap"
    using assms(1) by (auto simp: slice_type_def)
  then show ?thesis
    using assms(1) 6 rec size_elem(1) [of _ xs T]
    by cases (auto intro!: represents_num_slice represents_bool_slice represents_string_slice
      represents_map_slice simp: less_imp_le)
qed (use assms in \<open>auto simp: value_represents_def\<close>)

lemma represents_pairs:
  assumes "list_all (\<lambda>(k, x). enc_name k \<and> entry_value x \<and> plain x) es"
    and rec: "\<And>k x y. (k, x) \<in> set es \<Longrightarrow> size y < size x \<Longrightarrow> any_value y \<Longrightarrow> represents rec y"
  shows "\<exists>ps. pairs_spec rec (map (\<lambda>(k, x). (k, unpackVal x)) es) = Some ps \<and>
    map (\<lambda>p. (fst p, VIface (go_value (snd p)))) ps = es \<and>
    (\<forall>p \<in> set ps. go_value (snd p) \<noteq> None) \<and>
    (int (length (pairs_bytes LittleEndian ps)) < 2 ^ 31 \<longrightarrow> wf_nvpairs ps)"
  using assms
proof (induction es)
  case Nil
  show ?case by simp
next
  case (Cons e es)
  obtain k x where e: "e = (k, VIface (Some x))" and x: "\<not> is_false x" "kind_of x \<noteq> KInterface"
    and px: "plain x" and k: "enc_name k"
    using Cons.prems(1) by (cases e) (auto simp: entry_value_def split: gval.splits option.splits)
  have "list_all (\<lambda>(k, x). enc_name k \<and> entry_value x \<and> plain x) es"
    and "(k, x) \<in> set es \<Longrightarrow> size y < size x \<Longrightarrow> any_value y \<Longrightarrow> represents rec y" for k x y
    using Cons.prems by (simp, meson list.set_intros(2))
  then obtain ps where ps: "pairs_spec rec (map (\<lambda>(k, x). (k, unpackVal x)) es) = Some ps"
    "map (\<lambda>p. (fst p, VIface (go_value (snd p)))) ps = es" "\<forall>p \<in> set ps. go_value (snd p) \<noteq> None"
    "int (length (pairs_bytes LittleEndian ps)) < 2 ^ 31 \<longrightarrow> wf_nvpairs ps"
    using Cons.IH by blast
  have "value_represents rec x"
    using Cons.prems(2) [of k "VIface (Some x)"] e by (intro represents_value px x) auto
  then obtain d where d: "value_spec rec x = Some d" "go_value d = Some x" "int (data_count d) \<le> 65535"
    "int (length (data_nested LittleEndian d)) < 2 ^ 31 \<longrightarrow> wf_data d"
    unfolding value_represents_def by blast
  have "wf_nvpairs ((k, d) # ps)" if "int (length (pairs_bytes LittleEndian ((k, d) # ps))) < 2 ^ 31"
    using that k d(3,4) ps(4)
    by (simp add: item_bytes_def wf_pair_def wf_pair_size_def wf_name_def enc_name_def)
  moreover have "unpackVal (VIface (Some x)) = x"
    by (simp add: unpackVal_def unpack_ptr_def unpack_iface_def)
  ultimately show ?case
    using e k x ps d by (intro exI [of _ "(k, d) # ps"]) simp
qed

lemma add_entries_fold:
  "\<forall>p \<in> set ps. go_value (snd p) \<noteq> None \<Longrightarrow>
   add_entries ps m = fold (\<lambda>(k, v). alist_set k v) (map (\<lambda>p. (fst p, VIface (go_value (snd p)))) ps) m"
  by (induction ps arbitrary: m) (auto simp: add_entry_def)

lemma nvlist_spec_represents: "size v < fuel \<Longrightarrow> any_value v \<Longrightarrow> represents (nvlist_spec fuel) v"
proof (induction fuel arbitrary: v)
  case 0
  then show ?case by simp
next
  case (Suc fuel)
  then obtain es where v: "v = VMap TAnyMap (Some es)" and es: "distinct (map fst es)"
    "list_all (\<lambda>(k, x). enc_name k \<and> entry_value x \<and> plain x) es"
    by (cases v rule: plain.cases) (auto simp: any_value_def int_kinds_def)
  have "represents (nvlist_spec fuel) y" if "(k, x) \<in> set es" "size y < size x" "any_value y" for k x y
    using size_map_entry [OF that(1), of TAnyMap] that Suc v by simp
  then obtain ps where ps: "pairs_spec (nvlist_spec fuel) (map (\<lambda>(k, x). (k, unpackVal x)) es) = Some ps"
    "map (\<lambda>p. (fst p, VIface (go_value (snd p)))) ps = es" "\<forall>p \<in> set ps. go_value (snd p) \<noteq> None"
    "int (length (pairs_bytes LittleEndian ps)) < 2 ^ 31 \<longrightarrow> wf_nvpairs ps"
    using represents_pairs [OF es(2)] by blast
  have "entry_value x \<Longrightarrow> plain x \<Longrightarrow> unpackVal x \<noteq> VInvalid" for x
    by (auto simp: entry_value_def unpackVal_def unpack_ptr_def unpack_iface_def split: gval.splits option.splits)
  then have "concat (map (\<lambda>(key, x). let val = unpackVal x in if val \<noteq> VInvalid then [(key, val)] else []) es) =
      map (\<lambda>(k, x). (k, unpackVal x)) es"
    using es(2) by (induction es) auto
  then have "collect_pairs (unpackVal v) = Ok (map (\<lambda>(k, x). (k, unpackVal x)) es)"
    by (simp add: v collect_pairs_def collect_map_def unpackVal_def unpack_ptr_def unpack_iface_def)
  moreover have "go_map ps = v"
    using add_entries_fold [OF ps(3)] fold_alist_set_distinct [of "[]" es] es(1) ps(2)
    by (simp add: go_map_def v)
  ultimately show ?case using ps by (simp add: represents_def)
qed

section \<open>Round trips\<close>

lemma any_value_representable:
  assumes "any_value v"
  obtains ps where "Marshal v = Ok (nvlist_bytes LittleEndian ps)" and "go_map ps = v"
    and "int (length (nvlist_bytes LittleEndian ps)) < 2 ^ 31 \<Longrightarrow> wf_nvpairs ps"
proof -
  obtain ps where ps: "nvlist_of v = Some ps" "go_map ps = v"
    "int (length (pairs_bytes LittleEndian ps)) < 2 ^ 31 \<longrightarrow> wf_nvpairs ps"
    using nvlist_spec_represents [OF lessI assms] by (auto simp: represents_def nvlist_of_def)
  then show ?thesis using that Marshal_nvlist_of by (simp add: nvlist_bytes_def)
qed

lemma Unmarshal_Marshal:
  assumes "any_value v" and "Marshal v = Ok bs" and "int (length bs) < 2 ^ 31"
  shows "Unmarshal (bs @ post) new_iface = (Ok (), VPtr (TPtr TIface) (Some (VIface (Some v))))"
  using any_value_representable [OF assms(1)] assms(2,3) Unmarshal_wire(1) by fastforce

lemma Marshal_any_value: "any_value v \<Longrightarrow> \<exists>bs. Marshal v = Ok bs"
  by (rule any_value_representable) auto

section \<open>The contract of the codec\<close>

locale value_codec =
  fixes enc :: "'v \<Rightarrow> byte list res"
    and dec :: "byte list \<Rightarrow> 'v res"
    and ok :: "'v \<Rightarrow> bool"
    and fit :: "byte list \<Rightarrow> bool"
  assumes enc_total: "ok v \<Longrightarrow> \<exists>bs. enc v = Ok bs"
    and dec_enc: "ok v \<Longrightarrow> enc v = Ok bs \<Longrightarrow> fit bs \<Longrightarrow> dec (bs @ post) = Ok v"
begin

lemma dec_enc_exact: "ok v \<Longrightarrow> enc v = Ok bs \<Longrightarrow> fit bs \<Longrightarrow> dec bs = Ok v"
  using dec_enc [of v bs "[]"] by simp

lemma enc_inj: "ok v \<Longrightarrow> ok w \<Longrightarrow> enc v = Ok bs \<Longrightarrow> enc w = Ok bs \<Longrightarrow> fit bs \<Longrightarrow> v = w"
  by (metis dec_enc_exact res.inject(1))

lemma enc_prefix_free:
  assumes "ok v" and "ok w" and "enc v = Ok bs" and "enc w = Ok (bs @ xs)" and "fit bs" and "fit (bs @ xs)"
  shows "v = w" and "xs = []"
proof -
  show "v = w" using dec_enc [of v bs xs] dec_enc_exact [of w "bs @ xs"] assms by simp
  then show "xs = []" using assms by simp
qed

end

text \<open>\<^verbatim>\<open>Unmarshal\<close> of data of unknown shape, with the value found.\<close>

definition decode_any :: "byte list \<Rightarrow> gval res" where
  "decode_any data =
     (case Unmarshal data new_iface of
        (Ok _, VPtr T (Some (VIface (Some v)))) \<Rightarrow> Ok v
      | (Ok _, v) \<Rightarrow> Ok VInvalid
      | (Err e, v) \<Rightarrow> Err e | (Panic p, v) \<Rightarrow> Panic p | (Diverge, v) \<Rightarrow> Diverge)"

interpretation nvc: value_codec Marshal decode_any any_value "\<lambda>bs. int (length bs) < 2 ^ 31"
proof unfold_locales
  fix v bs post
  assume "any_value v" and "Marshal v = Ok bs" and "int (length bs) < 2 ^ 31"
  from Unmarshal_Marshal [OF this] show "decode_any (bs @ post) = Ok v"
    by (simp add: decode_any_def)
qed (rule Marshal_any_value)

end
