(* ===== verification/Nv_Properties.thy ===== *)
theory Nv_Properties
  imports Nv_Roundtrip
begin

text \<open>
  The properties of the nvlist package, over the library of the other theories, with a
  concrete nvlist on which each of them is evaluated.
\<close>

section \<open>A sample value\<close>

definition sample_list :: gval where
  "sample_list = VMap TAnyMap (Some
     [(''guid'', VIface (Some (VNum TUint64 7))),
      (''name'', VIface (Some (VString TString ''tank''))),
      (''log'', VIface (Some (VBool TBool True))),
      (''children'', VIface (Some (VSlice (TSlice TAnyMap)
         [VMap TAnyMap (Some [(''id'', VIface (Some (VNum (TBasic KInt8) 255)))])]))),
      (''flags'', VIface (Some (VSlice (TSlice TBool) [VBool TBool True, VBool TBool False])))])"

definition sample_pairs :: nvpairs where
  "sample_pairs =
     [(''guid'', NNum typeUint64 7), (''name'', NString ''tank''), (''log'', NBoolean),
      (''children'', NNvlistArray [[(''id'', NNum typeInt8 255)]]),
      (''flags'', NBooleanArray [True, False])]"

lemma sample_list_any: "any_value sample_list"
  by code_simp

lemma sample_list_pairs: "nvlist_of sample_list = Some sample_pairs"
  by code_simp

lemma sample_pairs_wf: "wf_nvpairs sample_pairs"
  by code_simp

lemma sample_pairs_map: "go_map sample_pairs = sample_list"
  by code_simp

lemma sample_small: "int (length (nvlist_bytes LittleEndian sample_pairs)) < 2 ^ 31"
  by code_simp


section \<open>Headers\<close>


abbreviation header_front :: "(nvlistReader, unit) comp list" where
  "header_front \<equiv> [bind_comp r_ReadByte set_encoding, bind_comp r_ReadByte set_endianness, r_skipN 2]"

abbreviation header_ints :: "(nvlistReader, unit) comp list" where
  "header_ints \<equiv> [bind_comp (r_readInt 4) (\<lambda>x r. (Ok (), r\<lparr>r_version := ucast x\<rparr>)),
     bind_comp (r_readInt 4) (\<lambda>x r. (Ok (), r\<lparr>r_flags := ucast x\<rparr>))]"

lemma readNvHeader_split: "readNvHeader = steps (header_front @ header_ints)"
  by (simp add: readNvHeader_def)

lemma header_front_cases:
  assumes "data = a # b # rest"
  shows "a \<notin> {0, 1} \<Longrightarrow> \<exists>r. steps header_front (new_reader data) = (Err ErrInvalidEncoding, r)"
    and "a \<in> {0, 1} \<Longrightarrow> b \<notin> {0, 1} \<Longrightarrow>
      \<exists>r. steps header_front (new_reader data) = (Err ErrInvalidEndianess, r)"
    and "a \<in> {0, 1} \<Longrightarrow> b \<in> {0, 1} \<Longrightarrow> \<exists>r bo. steps header_front (new_reader data) = (Ok (), r) \<and>
      r_nvlist r = data \<and> r_currentByte r = 4 \<and> r_endianness r = Some bo"
  using assms
  by (auto simp: new_reader_def r_ReadByte_def go_index_def lift_res_def bind_comp_def r_skipN_def ret_def
      set_encoding_def set_endianness_def bigEndian_def littleEndian_def)

lemma header_ints_short:
  assumes "r_currentByte r = 4" and "length (r_nvlist r) < 12" and "r_endianness r = Some bo"
  shows "\<exists>e r'. steps header_ints r = (Err e, r')"
proof (cases "8 \<le> length (r_nvlist r)")
  case False
  then show ?thesis
    using r_readInt_cases(2) [of r bo 4] assms by (auto simp: bind_comp_def)
next
  case True
  obtain x r' where r': "r_readInt 4 r = (Ok x, r')" "r_currentByte r' = 8" "r_nvlist r' = r_nvlist r"
    "r_endianness r' = Some bo"
    using r_readInt_cases(1) [of r bo 4] assms True by auto
  then show ?thesis
    using r_readInt_cases(2) [of "r'\<lparr>r_version := ucast x\<rparr>" bo 4] assms by (auto simp: bind_comp_def)
qed

lemma readNvHeader_bad_bytes:
  assumes "data = a # b # rest"
  shows "a \<notin> {0, 1} \<Longrightarrow> \<exists>r. readNvHeader (new_reader data) = (Err ErrInvalidEncoding, r)"
    and "a \<in> {0, 1} \<Longrightarrow> b \<notin> {0, 1} \<Longrightarrow> \<exists>r. readNvHeader (new_reader data) = (Err ErrInvalidEndianess, r)"
  unfolding readNvHeader_split
proof -
  assume "a \<notin> {0, 1}"
  then obtain r where "steps header_front (new_reader data) = (Err ErrInvalidEncoding, r)"
    using header_front_cases(1) [OF assms] by blast
  from steps_append_Err [OF this]
  show "\<exists>r. steps (header_front @ header_ints) (new_reader data) = (Err ErrInvalidEncoding, r)" by blast
next
  assume "a \<in> {0, 1}" and "b \<notin> {0, 1}"
  then obtain r where "steps header_front (new_reader data) = (Err ErrInvalidEndianess, r)"
    using header_front_cases(2) [OF assms] by blast
  from steps_append_Err [OF this]
  show "\<exists>r. steps (header_front @ header_ints) (new_reader data) = (Err ErrInvalidEndianess, r)" by blast
qed

lemma readNvHeader_short:
  assumes "length data < 12"
  shows "\<exists>e r. readNvHeader (new_reader data) = (Err e, r)"
proof -
  consider "data = []" | a where "data = [a]" | a b rest where "data = a # b # rest"
    by (metis neq_Nil_conv)
  then show ?thesis
  proof cases
    case (3 a b rest)
    show ?thesis
    proof (cases "a \<in> {0, 1} \<and> b \<in> {0, 1}")
      case True
      then obtain r bo where "steps header_front (new_reader data) = (Ok (), r)"
        "r_nvlist r = data" "r_currentByte r = 4" "r_endianness r = Some bo"
        using header_front_cases(3) [OF 3] by blast
      then show ?thesis
        using header_ints_short [of r bo] assms steps_append_Ok [of header_front _ r header_ints]
        unfolding readNvHeader_split by simp
    next
      case False
      then show ?thesis using readNvHeader_bad_bytes [OF 3] by blast
    qed
  qed (auto simp: readNvHeader_def new_reader_def r_ReadByte_def go_index_def lift_res_def
    bind_comp_def set_encoding_def)
qed


lemma Unmarshal_header_Err:
  "readNvHeader (new_reader data) = (Err e, r) \<Longrightarrow> Unmarshal data v = (Err e, v)"
  by (simp add: Unmarshal_def)

section \<open>Properties\<close>

text \<open>
  C1. Encoder refinement: whenever a Go value stands for an nvlist, \<^verbatim>\<open>Marshal\<close> succeeds with
  exactly the bytes the native little-endian format prescribes for that nvlist: header, each
  pair with its size, name, count and type fields and its padding, embedded lists, terminators.
\<close>

theorem Marshal_refines_format:
  assumes "nvlist_of v = Some ps"
  shows "Marshal v = Ok (nvlist_bytes LittleEndian ps)"
  using assms by (rule Marshal_nvlist_of)

theorem Marshal_refines_format_witness:
  "Marshal sample_list = Ok (nvlist_bytes LittleEndian sample_pairs)"
  by (rule Marshal_refines_format [OF sample_list_pairs])

text \<open>
  C2. Decoder correctness: \<^verbatim>\<open>Unmarshal\<close> of the bytes of a well-formed nvlist, in big- or
  little-endian order and followed by arbitrary bytes, succeeds and yields the map the nvlist
  stands for: fresh behind a \<^verbatim>\<open>*interface{}\<close>, added to the entries of a given map.
\<close>

theorem Unmarshal_reads_format:
  assumes "wf_nvpairs ps"
  shows "Unmarshal (nvlist_bytes bo ps @ post) new_iface =
      (Ok (), VPtr (TPtr TIface) (Some (VIface (Some (go_map ps))))) \<and>
    Unmarshal (nvlist_bytes bo ps @ post) (VMap TAnyMap (Some m)) =
      (Ok (), VMap TAnyMap (Some (add_entries ps m)))"
  using Unmarshal_wire [OF assms] by blast

theorem Unmarshal_reads_format_witness:
  "Unmarshal (nvlist_bytes BigEndian sample_pairs @ [1, 2, 3]) new_iface =
     (Ok (), VPtr (TPtr TIface) (Some (VIface (Some sample_list))))"
  using Unmarshal_reads_format [OF sample_pairs_wf, of BigEndian "[1, 2, 3]"]
  by (simp add: sample_pairs_map)



text \<open>
  C7. Decoding always ends: for any bytes and any target, \<^verbatim>\<open>Unmarshal\<close> returns or panics
  within the fuel of one unit per byte, so malformed input cannot make it loop.
\<close>

theorem Unmarshal_always_ends: "fst (Unmarshal data v) \<noteq> Diverge"
  by (rule Unmarshal_terminates)

text \<open>
  C6. Decoding untrusted bytes into an untyped target (a non-nil \<^verbatim>\<open>map[string]interface{}\<close> or
  a \<^verbatim>\<open>*interface{}\<close>) never panics: whatever the bytes, the result is nil or an error.
\<close>

theorem Unmarshal_untyped_no_panic:
  assumes "untyped_target v"
  shows "fst (Unmarshal data v) = Ok () \<or> (\<exists>e. fst (Unmarshal data v) = Err e)"
  using Unmarshal_untyped_safe [OF assms, of data] by (auto simp: safe_iff)

theorem Unmarshal_untyped_no_panic_witness:
  "fst (Unmarshal [0, 1, 0, 0, 7] new_iface) = Ok () \<or> (\<exists>e. fst (Unmarshal [0, 1, 0, 0, 7] new_iface) = Err e)"
  by (rule Unmarshal_untyped_no_panic) (simp add: new_iface_def)



text \<open>
  The encoding is prefix-free: of two values of the decoder's shape, if the encoding of one
  begins the encoding of the other, the values and the encodings are the same.
\<close>

theorem Marshal_prefix_free:
  assumes "any_value v" and "any_value w" and "Marshal v = Ok bs" and "Marshal w = Ok (bs @ xs)"
    and "int (length (bs @ xs)) < 2 ^ 31"
  shows "v = w \<and> xs = []"
  using nvc.enc_prefix_free [OF assms(1-4)] assms(5) by simp

theorem Marshal_prefix_free_witness:
  "\<exists>bs. any_value sample_list \<and> Marshal sample_list = Ok (bs @ []) \<and> int (length (bs @ [])) < 2 ^ 31 \<and>
     sample_list = sample_list"
  using Marshal_prefix_free [OF sample_list_any sample_list_any
      Marshal_nvlist_of [OF sample_list_pairs], of "[]"]
    Marshal_nvlist_of [OF sample_list_pairs] sample_small sample_list_any by auto

text \<open>
  C9. Bad headers are rejected and leave the target as it was: data shorter than the twelve
  bytes of a header gives an error, an unknown encoding byte gives \<^verbatim>\<open>ErrInvalidEncoding\<close>, and
  an unknown byte-order byte gives \<^verbatim>\<open>ErrInvalidEndianess\<close>.
\<close>

theorem Unmarshal_bad_header:
  "(length data < 12 \<longrightarrow> (\<exists>e. Unmarshal data v = (Err e, v))) \<and>
   (a \<notin> {0, 1} \<longrightarrow> Unmarshal (a # b # rest) v = (Err ErrInvalidEncoding, v)) \<and>
   (a \<in> {0, 1} \<longrightarrow> b \<notin> {0, 1} \<longrightarrow> Unmarshal (a # b # rest) v = (Err ErrInvalidEndianess, v))"
  using readNvHeader_short [of data] readNvHeader_bad_bytes [OF refl, of a b rest] Unmarshal_header_Err
  by blast

theorem Unmarshal_bad_header_witness:
  "(\<exists>e. Unmarshal [0, 1, 0] new_iface = (Err e, new_iface)) \<and>
   Unmarshal [7, 1, 0] new_iface = (Err ErrInvalidEncoding, new_iface) \<and>
   Unmarshal [0, 9, 0] new_iface = (Err ErrInvalidEndianess, new_iface)"
  using Unmarshal_bad_header [of "[0, 1, 0]" new_iface 7 1 "[0]"]
    Unmarshal_bad_header [of "[]" new_iface 0 9 "[0]"] by simp


text \<open>
  The fuzzing harness is total, and is blind: because it passes a pointer to a pointer to an
  interface, decoding stops at the target check, so every input is reported as uninteresting.
\<close>

theorem Fuzz_always_zero: "Fuzz data = Ok 0"
proof -
  obtain x r where x: "readNvHeader (new_reader data) = (x, r)" by force
  from readNvHeader_result [OF x] have "safe x" by blast
  then show ?thesis
    using x by (auto simp: Fuzz_def Unmarshal_def safe_iff readPairs_def enter_pairs_def enter_iface_def
        check_target_def new_iface_def)
qed

text \<open>
  C10. Repeated names: decoding the bytes of a well-formed nvlist into a map leaves, for each
  name, the value of the last pair of that name that the decoder knows the type of, and the
  entries of other names as they were.
\<close>

definition last_value :: "nvpairs \<Rightarrow> string \<Rightarrow> gval option" where
  "last_value ps k = map_of (rev (concat (map (\<lambda>(n, d). case go_value d of
     None \<Rightarrow> [] | Some v \<Rightarrow> [(n, v)]) ps))) k"

lemma map_of_add_entries:
  "map_of (add_entries ps m) k =
     (case last_value ps k of Some v \<Rightarrow> Some (VIface (Some v)) | None \<Rightarrow> map_of m k)"
proof (induction ps arbitrary: m)
  case Nil
  show ?case by (simp add: last_value_def)
next
  case (Cons p ps)
  obtain n d where p: "p = (n, d)" by fastforce
  have "map_of (add_entry p m) k = (case go_value (snd p) of None \<Rightarrow> map_of m k
      | Some v \<Rightarrow> if k = fst p then Some (VIface (Some v)) else map_of m k)"
    by (simp add: add_entry_def map_of_alist_set split: option.splits)
  then show ?case
    using Cons [of "add_entry p m"]
    by (auto simp: last_value_def map_add_def p split: option.splits if_splits)
qed

theorem Unmarshal_last_wins:
  assumes "wf_nvpairs ps"
  shows "\<exists>m'. Unmarshal (nvlist_bytes bo ps @ post) (VMap TAnyMap (Some m)) = (Ok (), VMap TAnyMap (Some m')) \<and>
    (\<forall>k. map_of m' k =
      (case last_value ps k of Some v \<Rightarrow> Some (VIface (Some v)) | None \<Rightarrow> map_of m k))"
  using Unmarshal_wire(2) [OF assms] map_of_add_entries by blast

definition twice_pairs :: nvpairs where
  "twice_pairs = [(''a'', NNum typeUint64 1), (''a'', NString ''x''), (''a'', NDouble 0)]"

theorem Unmarshal_last_wins_witness:
  "\<exists>m'. Unmarshal (nvlist_bytes BigEndian twice_pairs) (VMap TAnyMap (Some [])) =
     (Ok (), VMap TAnyMap (Some m')) \<and> map_of m' ''a'' = Some (VIface (Some (VString TString ''x'')))"
proof -
  have wf: "wf_nvpairs twice_pairs" and last: "last_value twice_pairs ''a'' = Some (VString TString ''x'')"
    by code_simp+
  show ?thesis
    using Unmarshal_last_wins [OF wf, of BigEndian "[]" "[]"] last
    by (metis append_Nil2 option.simps(5))
qed




text \<open>A map whose nested map holds a channel, which has no nvlist type, and a further entry.\<close>

definition lossy_list :: gval where
  "lossy_list = VMap TAnyMap (Some
     [(''a'', VIface (Some (VMap TAnyMap (Some [(''b'', VIface (Some (VOther (TBasic KChan))))])))),
      (''c'', VIface (Some (VNum TUint64 7)))])"


end
