(* ===== verification/Nv_Typing.thy ===== *)
theory Nv_Typing
  imports Nv_Decoder_Safe Nv_Encoder
begin

text \<open>
  Type soundness of decoding: what it means for a Go value to conform to its type, as the
  reflection package keeps it (the element type of every entry of a map, the fields of a struct
  one by one, the width of a number, no duplicate keys, no interface inside an interface), and
  that every operation of \<^verbatim>\<open>nvlist/decode.go\<close> that stores into the target preserves it, on every
  branch, errors and panics included.
\<close>

section \<open>Well-formed types and well-typed values\<close>

definition num_kind :: "gkind \<Rightarrow> bool" where
  "num_kind k \<longleftrightarrow> k \<in> {KInt, KInt8, KInt16, KInt32, KInt64, KUint, KUint8, KUint16, KUint32, KUint64,
     KUintptr, KFloat32, KFloat64}"

text \<open>Types the program can declare; a reference inside a defined type is to a struct, as in \<^verbatim>\<open>VDev\<close>.\<close>

fun wf_type :: "gotype \<Rightarrow> bool" where
  "wf_type (TBasic k) = (k \<in> {KBool, KString, KComplex64, KComplex128, KUnsafePointer} \<or> num_kind k)"
| "wf_type (TNamed n T) = wf_type T"
| "wf_type (TRec n k) = (k = KStruct)"
| "wf_type (TMap k e) = (wf_type k \<and> wf_type e)"
| "wf_type (TSlice e) = wf_type e"
| "wf_type (TArray n e) = wf_type e"
| "wf_type (TPtr e) = wf_type e"
| "wf_type TIface = True"
| "wf_type (TStruct fs) = list_all (\<lambda>(n, t, T). wf_type T) fs"

text \<open>May a location of type \<open>T\<close> hold the value? A reference inside a defined type means that type.\<close>

fun same_named :: "gotype \<Rightarrow> gotype \<Rightarrow> bool" where
  "same_named (TRec n k) (TNamed m T) = (m = n \<and> kind T = k)"
| "same_named T V = False"

definition of_type :: "gotype \<Rightarrow> gval \<Rightarrow> bool" where
  "of_type T v \<longleftrightarrow> (if kind T = KInterface then kind_of v = KInterface
     else typ_of v = T \<or> same_named T (typ_of v))"

definition num_fits :: "gkind \<Rightarrow> uint64 \<Rightarrow> bool" where
  "num_fits k w \<longleftrightarrow> kind_size k = 0 \<or> take_bit (8 * kind_size k) w = w"

fun well_typed :: "gval \<Rightarrow> bool" where
  "well_typed VInvalid = False"
| "well_typed (VBool T b) = (wf_type T \<and> kind T = KBool)"
| "well_typed (VNum T w) = (wf_type T \<and> num_kind (kind T) \<and> num_fits (kind T) w)"
| "well_typed (VString T s) = (wf_type T \<and> kind T = KString)"
| "well_typed (VMap T None) = (wf_type T \<and> kind T = KMap)"
| "well_typed (VMap T (Some es)) =
     (wf_type T \<and> kind T = KMap \<and> distinct (map fst es) \<and>
      list_all (\<lambda>(n, x). well_typed x \<and> of_type (elem_type T) x) es)"
| "well_typed (VStruct T vs) =
     (wf_type T \<and> kind T = KStruct \<and> list_all well_typed vs \<and>
      list_all2 (\<lambda>(n, t, F) x. of_type F x) (struct_fields T) vs)"
| "well_typed (VSlice T vs) =
     (wf_type T \<and> kind T = KSlice \<and> list_all (\<lambda>x. well_typed x \<and> of_type (elem_type T) x) vs)"
| "well_typed (VArray T vs) =
     (wf_type T \<and> kind T = KArray \<and> list_all (\<lambda>x. well_typed x \<and> of_type (elem_type T) x) vs)"
| "well_typed (VPtr T None) = (wf_type T \<and> kind T = KPtr)"
| "well_typed (VPtr T (Some x)) = (wf_type T \<and> kind T = KPtr \<and> well_typed x \<and> of_type (elem_type T) x)"
| "well_typed (VIface None) = True"
| "well_typed (VIface (Some x)) = (well_typed x \<and> kind_of x \<noteq> KInterface)"
| "well_typed (VOther T) = (wf_type T \<and> kind T \<noteq> KInterface)"

lemma kind_well_typed: "well_typed v \<Longrightarrow> kind_of v = kind (typ_of v)"
  by (induction v rule: well_typed.induct) auto

lemma kind_same_named: "same_named T V \<Longrightarrow> kind V = kind T"
  by (induction T V rule: same_named.induct) auto

lemma kind_of_type: "well_typed v \<Longrightarrow> of_type T v \<Longrightarrow> kind_of v = kind T"
  using kind_well_typed [of v] kind_same_named [of T "typ_of v"] by (auto simp: of_type_def split: if_splits)

lemma of_type_cong:
  assumes "well_typed v" and "well_typed v'" and "typ_of v' = typ_of v"
  shows "of_type T v' = of_type T v"
  using assms kind_well_typed by (simp add: of_type_def)

section \<open>Types seen through a definition\<close>

lemma elem_type_underlying: "elem_type (underlying T) = elem_type T"
  by (induction T rule: underlying.induct) simp_all

lemma struct_fields_underlying: "struct_fields (underlying T) = struct_fields T"
  by (induction T rule: underlying.induct) simp_all

lemma elem_type_cong: "underlying T = underlying V \<Longrightarrow> elem_type T = elem_type V"
  by (metis elem_type_underlying)

lemma struct_fields_cong: "underlying T = underlying V \<Longrightarrow> struct_fields T = struct_fields V"
  by (metis struct_fields_underlying)

lemma wf_elem_type: "wf_type T \<Longrightarrow> kind T = KMap \<Longrightarrow> wf_type (elem_type T)"
  by (induction T rule: wf_type.induct) (auto simp: num_kind_def)

lemma wf_field_type: "wf_type T \<Longrightarrow> i < length (struct_fields T) \<Longrightarrow> wf_type (snd (snd (struct_fields T ! i)))"
proof (induction T rule: wf_type.induct)
  case (9 fs)
  then show ?case by (cases "fs ! i") (auto simp: list_all_length)
qed auto

lemma retype_well_typed:
  assumes "well_typed v" and "wf_type T" and "kind T = kind (typ_of v)" and "underlying T = underlying (typ_of v)"
    and "kind T \<noteq> KInterface"
  shows "well_typed (retype T v) \<and> typ_of (retype T v) = T"
  using assms elem_type_cong [OF assms(4)] struct_fields_cong [OF assms(4)]
  by (induction v rule: well_typed.induct) auto

lemma assign_to_well_typed:
  assumes "well_typed v" and "wf_type T" and "kind_of v \<noteq> KInterface" and "assign_to T v = Ok x"
  shows "well_typed x \<and> of_type T x"
proof (cases "kind T = KInterface")
  case True
  then show ?thesis using assms by (auto simp: assign_to_def of_type_def split: if_splits)
next
  case False
  then have "x = retype T v" "typ_of v = T \<or> kind T = kind (typ_of v) \<and> underlying T = underlying (typ_of v)"
    using assms(4) by (auto simp: assign_to_def assignable_def split: if_splits)
  moreover have "typ_of v = T \<Longrightarrow> retype T v = v" by auto
  ultimately show ?thesis
    using retype_well_typed [OF assms(1,2) _ _ False] assms(1) False by (auto simp: of_type_def)
qed

text \<open>\<^verbatim>\<open>reflect.Zero\<close> and \<^verbatim>\<open>reflect.New\<close> make values of the type they are given.\<close>

lemma num_fits_0: "num_fits k 0"
  by (simp add: num_fits_def)

lemma zero_value_iface: "wf_type T \<Longrightarrow> kind T = KInterface \<Longrightarrow> zero_value T = VIface None"
  by (induction T rule: wf_type.induct) (auto simp: num_kind_def)

lemma zero_value_well_typed:
  "wf_type T \<Longrightarrow> well_typed (zero_value T) \<and> (kind T \<noteq> KInterface \<longrightarrow> typ_of (zero_value T) = T)"
proof (induction T rule: zero_value.induct)
  case (2 n T)
  then show ?case
    using zero_value_iface [of T] retype_well_typed [of "zero_value T" "TNamed n T"]
    by (cases "kind T = KInterface") simp_all
next
  case (9 fs)
  have "well_typed (zero_value F) \<and> of_type F (zero_value F)" if "(n, t, F) \<in> set fs" for n t F
  proof -
    have "wf_type F" using 9(2) that by (auto simp: list_all_iff)
    then show ?thesis using 9(1) [OF that refl refl] zero_value_iface [of F] by (simp add: of_type_def)
  qed
  then have "list_all well_typed (map (\<lambda>(n, t, T). zero_value T) fs)"
    "list_all2 (\<lambda>(n, t, F) x. of_type F x) fs (map (\<lambda>(n, t, T). zero_value T) fs)"
    by (auto simp: list_all_iff list_all2_map2 intro!: list_all2_same [THEN iffD2])
  then show ?case using 9(2) by simp
next
  case (6 n e)
  then show ?case using zero_value_iface [of e] by (auto simp: of_type_def list_all_iff)
qed (auto simp: num_fits_0 num_kind_def split: if_splits)

lemma zero_value_of_type: "wf_type T \<Longrightarrow> of_type T (zero_value T)"
  using zero_value_well_typed [of T] zero_value_iface [of T] by (auto simp: of_type_def)

section \<open>The values read from a pair\<close>

text \<open>A value that can be stored: well-typed and not itself an interface.\<close>

definition storable :: "gval \<Rightarrow> bool" where
  "storable v \<longleftrightarrow> well_typed v \<and> kind_of v \<noteq> KInterface"

text \<open>Every value a computation can return satisfies a predicate.\<close>

definition yields :: "('s, 'a) comp \<Rightarrow> ('a \<Rightarrow> bool) \<Rightarrow> bool" where
  "yields m P \<longleftrightarrow> (\<forall>s x s'. m s = (Ok x, s') \<longrightarrow> P x)"

lemma yieldsD: "yields m P \<Longrightarrow> m s = (Ok x, s') \<Longrightarrow> P x"
  by (auto simp: yields_def)

lemma yields_ret: "P x \<Longrightarrow> yields (ret x) P"
  by (simp add: yields_def ret_def)

lemma yields_fail: "yields (fail e) P"
  by (simp add: yields_def fail_def)

lemma yields_panic: "yields (lift_res (Panic p)) P"
  by (simp add: yields_def lift_res_def)

lemma yields_bind: "yields m P \<Longrightarrow> (\<And>x. P x \<Longrightarrow> yields (f x) Q) \<Longrightarrow> yields (bind_comp m f) Q"
  unfolding yields_def bind_comp_def by (fastforce split: prod.splits res.splits)

lemma yields_True: "yields m (\<lambda>x. True)"
  by (simp add: yields_def)

lemma yields_if: "(b \<Longrightarrow> yields m P) \<Longrightarrow> (\<not> b \<Longrightarrow> yields m' P) \<Longrightarrow> yields (if b then m else m') P"
  by simp

lemma yields_option:
  "(x = None \<Longrightarrow> yields m P) \<Longrightarrow> (\<And>y. x = Some y \<Longrightarrow> yields (f y) P) \<Longrightarrow> yields (case x of None \<Rightarrow> m | Some y \<Rightarrow> f y) P"
  by (cases x) auto

lemma le_value_fits: "take_bit (8 * length bs) (le_value bs) = le_value bs"
proof (induction bs)
  case (Cons b bs)
  have "take_bit (8 + 8 * length bs) (push_bit 8 (le_value bs)) = push_bit 8 (take_bit (8 * length bs) (le_value bs))"
    by (simp add: push_bit_take_bit)
  moreover have "take_bit (8 + 8 * length bs) (ucast b :: uint64) = ucast b"
    by (rule bit_word_eqI) (auto simp: bit_simps dest: bit_imp_le_length)
  ultimately show ?case using Cons by simp
qed simp

lemma get_uint_fits: "take_bit (8 * length bs) (get_uint bo bs) = get_uint bo bs"
  using le_value_fits [of bs] le_value_fits [of "rev bs"] by (cases bo) simp_all

lemma yields_readFull: "yields (readFull (p_Read r) n) (\<lambda>bs. length bs = n)"
  unfolding yields_def readFull_def
  by (auto simp: bind_comp_def ret_def p_Read_def Let_def lift_res_def go_copy_def
      split: if_splits prod.splits res.splits option.splits)

lemma yields_readInt: "kind_size k = n \<Longrightarrow> yields (p_readInt r n) (num_fits k)"
  unfolding p_readInt_def
  by (rule yields_bind [OF yields_readFull], intro yields_option yields_panic yields_ret)
    (metis num_fits_def get_uint_fits)

lemma length_chunks: "length bs = n * k \<Longrightarrow> c \<in> set (chunks n k bs) \<Longrightarrow> length c = n"
proof (induction k arbitrary: bs)
  case (Suc k)
  then show ?case using Suc.IH [of "drop n bs"] by auto
qed simp

lemma yields_int_array:
  assumes "num_kind k"
  shows "yields (read_int_array r k n) storable"
proof -
  have "num_fits k (get_uint bo c)" if "length bs = kind_size k * n" "c \<in> set (chunks (kind_size k) n bs)" for bo bs c
    using get_uint_fits [of c bo] length_chunks [OF that] by (simp add: num_fits_def)
  then show ?thesis
    unfolding read_int_array_def using assms
    by (intro yields_bind [OF yields_readFull] yields_option yields_panic yields_ret)
      (auto simp: storable_def list_all_iff of_type_def num_kind_def)
qed

lemma int_types_num: "map_of int_types ty = Some k \<Longrightarrow> num_kind k"
  by (auto simp: int_types_def num_kind_def split: if_splits)

lemma int_array_types_num: "map_of int_array_types ty = Some k \<Longrightarrow> num_kind k"
  by (auto simp: int_array_types_def num_kind_def split: if_splits)

lemma num_fits_byte: "num_fits KUint8 (ucast (b :: byte))"
  by (simp add: num_fits_def) (rule bit_word_eqI, auto simp: bit_simps dest: bit_imp_le_length)

lemma read_value_storable: "yields (read_value r nvp) (pred_option storable)"
proof -
  have num: "yields (bind_comp (p_readInt r (kind_size k)) (\<lambda>x. ret (Some (VNum (TBasic k) x)))) (pred_option storable)"
    if "num_kind k" for k
    using that by (intro yields_bind [OF yields_readInt [OF refl]] yields_ret) (auto simp: storable_def num_kind_def)
  have arr: "yields (bind_comp (read_int_array r k n) (\<lambda>v. ret (Some v))) (pred_option storable)" if "num_kind k" for k n
    using that by (intro yields_bind [OF yields_int_array] yields_ret) simp_all
  show ?thesis
    unfolding read_value_def Let_def
    by (intro yields_if yields_option yields_fail num arr int_types_num int_array_types_num)
      (auto intro!: yields_bind [OF yields_True] yields_ret
        simp: storable_def list_all_iff of_type_def num_kind_def num_fits_byte)
qed

section \<open>Storing\<close>

lemma alist_set_all: "list_all P es \<Longrightarrow> P (k, x) \<Longrightarrow> list_all P (alist_set k x es)"
  by (induction k x es rule: alist_set.induct) auto

lemma SetMapIndex_well_typed:
  assumes "well_typed (VMap T m)" and "storable x" and "SetMapIndex T m name x = Ok v"
  shows "well_typed v \<and> typ_of v = T"
proof -
  obtain x' es where x': "assign_to (elem_type T) x = Ok x'" and m: "m = Some es"
    and v: "v = VMap T (Some (alist_set name x' es))"
    using assms(3) by (auto simp: SetMapIndex_def split: if_splits res.splits option.splits)
  have T: "wf_type T" "kind T = KMap" using assms(1) m by simp_all
  have "well_typed x' \<and> of_type (elem_type T) x'"
    using wf_elem_type [OF T] assign_to_well_typed [OF _ _ _ x'] assms(2) by (auto simp: storable_def)
  then show ?thesis
    using assms(1) m v by (auto simp: distinct_alist_set intro: alist_set_all)
qed

lemma field_index_less: "field_index fs name = Some i \<Longrightarrow> i < length fs"
proof -
  assume a: "field_index fs name = Some i"
  let ?is = "filter (\<lambda>i. field_key (fs ! i) = name) [0..<length fs]"
  have "?is \<noteq> []" "i = last ?is" using a by (auto simp: field_index_def Let_def split: if_splits)
  then have "i \<in> set ?is" by (metis last_in_set)
  then show ?thesis by simp
qed

lemma struct_update_well_typed:
  assumes "well_typed (VStruct T vs)" and "i < length (struct_fields T)"
    and "well_typed x" and "of_type (snd (snd (struct_fields T ! i))) x"
  shows "well_typed (VStruct T (vs[i := x]))"
proof -
  have len: "length vs = length (struct_fields T)" using assms(1) by (auto dest: list_all2_lengthD)
  have "list_all well_typed (vs[i := x])"
    using assms(1,3) by (auto simp: list_all_iff dest: set_update_subset_insert [THEN subsetD])
  moreover have "list_all2 (\<lambda>(n, t, F) x. of_type F x) (struct_fields T) (vs[i := x])"
    using assms len by (auto simp: list_all2_conv_all_nth nth_list_update split: prod.splits)
  ultimately show ?thesis using assms(1) by simp
qed

lemma set_primitive_well_typed:
  assumes "well_typed v" and "storable x" and "set_primitive st name x v = Ok v'"
  shows "well_typed v' \<and> typ_of v' = typ_of v"
proof (cases v)
  case (VStruct T vs)
  have "well_typed x' \<and> of_type (snd (snd (struct_fields T ! i))) x'"
    if "assign_to (snd (snd (struct_fields T ! i))) x = Ok x'" "i < length (struct_fields T)" for i x'
    using assms(1,2) VStruct that wf_field_type by (intro assign_to_well_typed) (auto simp: storable_def)
  then show ?thesis
    using assms VStruct struct_update_well_typed [of T vs] field_index_less
    by (fastforce split: option.splits if_splits res.splits)
next
  case (VMap T m)
  then show ?thesis using SetMapIndex_well_typed assms by auto
qed (use assms in auto)

section \<open>The recursion\<close>

text \<open>A reader of pairs that keeps its target well-typed and of its type, whatever the outcome.\<close>

definition keeps_type :: "(nvlistReader \<times> gval, unit) comp \<Rightarrow> bool" where
  "keeps_type m \<longleftrightarrow> (\<forall>r v x r' v'. well_typed v \<longrightarrow> m (r, v) = (x, (r', v')) \<longrightarrow> well_typed v' \<and> typ_of v' = typ_of v)"

lemma keeps_typeI:
  "(\<And>r v x r' v'. well_typed v \<Longrightarrow> m (r, v) = (x, (r', v')) \<Longrightarrow> well_typed v' \<and> typ_of v' = typ_of v) \<Longrightarrow> keeps_type m"
  by (auto simp: keeps_type_def)

lemma keeps_typeD:
  "keeps_type m \<Longrightarrow> well_typed v \<Longrightarrow> m (r, v) = (x, (r', v')) \<Longrightarrow> well_typed v' \<and> typ_of v' = typ_of v"
  by (auto simp: keeps_type_def)

lemma keeps_type_bind: "keeps_type m \<Longrightarrow> (\<And>x. keeps_type (f x)) \<Longrightarrow> keeps_type (bind_comp m f)"
proof (rule keeps_typeI)
  fix r v y r' v'
  assume m: "keeps_type m" and f: "\<And>x. keeps_type (f x)" and v: "well_typed v"
    and b: "bind_comp m f (r, v) = (y, (r', v'))"
  obtain x r1 v1 where 1: "m (r, v) = (x, (r1, v1))" by (metis prod.collapse)
  have v1: "well_typed v1 \<and> typ_of v1 = typ_of v" by (rule keeps_typeD [OF m v 1])
  show "well_typed v' \<and> typ_of v' = typ_of v"
    using b 1 v1 keeps_typeD [OF f, of v1] by (cases x) (auto simp: bind_comp_def)
qed

lemma keeps_type_store: "storable x \<Longrightarrow> keeps_type (store (set_primitive st name x))"
  by (rule keeps_typeI) (auto simp: store_def split: res.splits dest: set_primitive_well_typed)

lemma well_typed_any_map: "well_typed (VMap TAnyMap (Some []))"
  by simp

lemma check_target_keeps: "(\<And>st. keeps_type (loop st)) \<Longrightarrow> keeps_type (check_target loop st)"
  by (rule keeps_typeI) (auto simp: check_target_def dest: keeps_typeD split: if_splits)

lemma enter_iface_keeps:
  assumes "\<And>st. keeps_type (loop st)"
  shows "keeps_type (enter_iface loop st)"
proof (rule keeps_typeI)
  fix r v x r' v'
  assume v: "well_typed v" and m: "enter_iface loop st (r, v) = (x, (r', v'))"
  show "well_typed v' \<and> typ_of v' = typ_of v"
  proof (cases "\<exists>p. v = VIface p")
    case True
    have "storable m'" if "check_target loop False (r, VMap TAnyMap (Some [])) = (y, (r'', m'))" for y r'' m'
      using keeps_typeD [OF check_target_keeps [where loop = loop, OF assms] well_typed_any_map that] kind_well_typed [of m']
      by (auto simp: storable_def)
    then show ?thesis
      using True m v by (auto simp: enter_iface_def storable_def split: if_splits prod.splits)
  next
    case False
    then have "check_target loop st (r, v) = (x, (r', v'))"
      using m by (auto simp: enter_iface_def split: gval.splits)
    then show ?thesis using keeps_typeD [OF check_target_keeps [where loop = loop, OF assms] v] by blast
  qed
qed

lemma enter_pairs_keeps:
  assumes "\<And>st. keeps_type (loop st)"
  shows "keeps_type (enter_pairs loop st)"
proof (rule keeps_typeI)
  fix r v x r' v'
  assume v: "well_typed v" and m: "enter_pairs loop st (r, v) = (x, (r', v'))"
  show "well_typed v' \<and> typ_of v' = typ_of v"
  proof (cases "\<exists>T y. v = VPtr T (Some y)")
    case True
    then obtain T y where y: "v = VPtr T (Some y)" by blast
    then obtain y' where y': "enter_iface loop True (r, y) = (x, (r', y'))" "v' = VPtr T (Some y')"
      using m by (auto simp: enter_pairs_def split: prod.splits)
    then have "well_typed y' \<and> typ_of y' = typ_of y"
      using keeps_typeD [OF enter_iface_keeps [where loop = loop, OF assms] _ y'(1)] v y by simp
    then show ?thesis using y y'(2) v of_type_cong [of y y'] by simp
  next
    case False
    then have "v' = v \<or> enter_iface loop st (r, v) = (x, (r', v'))"
      using m by (auto simp: enter_pairs_def split: gval.splits option.splits)
    then show ?thesis using keeps_typeD [OF enter_iface_keeps [where loop = loop, OF assms] v] v by blast
  qed
qed

lemma fresh_elem_well_typed:
  assumes "wf_type T" and "fresh_elem T = Ok val"
  shows "well_typed val \<and> (kind (typ_of val) = KMap \<or> kind T = KStruct \<and> typ_of val = TPtr T)"
proof -
  consider "kind T = KInterface" | "kind T = KStruct" | "kind T = KMap"
    using assms(2) by (auto simp: fresh_elem_def split: if_splits)
  then show ?thesis
  proof cases
    case 3
    then show ?thesis using assms wf_elem_type [of T] by (auto simp: fresh_elem_def)
  qed (use assms zero_value_well_typed [of T] zero_value_of_type [of T] in \<open>auto simp: fresh_elem_def\<close>)
qed

lemma deref_ptr_storable:
  assumes "well_typed val" and "kind (typ_of val) = KMap \<or> kind T = KStruct \<and> typ_of val = TPtr T"
  shows "storable (deref_ptr val)"
proof (cases "\<exists>U x. val = VPtr U (Some x)")
  case True
  then show ?thesis
    using assms kind_of_type by (fastforce simp: deref_ptr_def storable_def)
next
  case False
  then have "deref_ptr val = val" by (auto simp: deref_ptr_def split: gval.splits option.splits)
  then show ?thesis using assms kind_well_typed [of val] by (auto simp: storable_def)
qed

lemma read_nvlist_keeps:
  assumes rec: "\<And>st. keeps_type (rec st)"
  shows "keeps_type (read_nvlist rec st name)"
proof (rule keeps_typeI)
  fix r v x r' v'
  assume v: "well_typed v" and m: "read_nvlist rec st name (r, v) = (x, (r', v'))"
  show "well_typed v' \<and> typ_of v' = typ_of v"
  proof (cases v)
    case (VStruct T vs)
    show ?thesis
    proof (cases "v' = v")
      case False
      then obtain i f' where i: "field_index (struct_fields T) name = Some i"
        and f': "rec True (r, vs ! i) = (x, (r', f'))" "v' = VStruct T (vs[i := f'])"
        using m VStruct by (auto simp: read_nvlist_def split: option.splits if_splits prod.splits)
      have i': "i < length (struct_fields T)" "i < length vs"
        using field_index_less [OF i] v VStruct by (auto dest: list_all2_lengthD)
      then have vi: "well_typed (vs ! i)" "of_type (snd (snd (struct_fields T ! i))) (vs ! i)"
        using v VStruct by (cases "struct_fields T ! i", auto simp: list_all_length list_all2_conv_all_nth)+
      then have "well_typed f' \<and> typ_of f' = typ_of (vs ! i)" using keeps_typeD [OF rec _ f'(1)] by blast
      then show ?thesis
        using struct_update_well_typed [of T vs i f'] of_type_cong [of "vs ! i" f'] v VStruct i' vi f'(2) by simp
    qed (use v in simp)
  next
    case (VMap T m)
    then have T: "wf_type (elem_type T)" using v wf_elem_type [of T] by (cases m) auto
    have "well_typed v'' \<and> typ_of v'' = T"
      if "fresh_elem (elem_type T) = Ok val" "rec False (r, val) = (Ok u, (r1, val'))"
        "store (set_primitive False name (deref_ptr val')) (r1, v) = (y, (r2, v''))" for val u r1 val' y r2 v''
    proof -
      have "storable (deref_ptr val')"
        using fresh_elem_well_typed [OF T that(1)] keeps_typeD [OF rec _ that(2)] deref_ptr_storable [of val'] by auto
      then show ?thesis using keeps_typeD [OF keeps_type_store v that(3)] VMap by simp
    qed
    then show ?thesis
      using m v VMap by (auto simp: read_nvlist_def split: res.splits prod.splits)
  qed (use m v in \<open>auto simp: read_nvlist_def\<close>)
qed

lemma read_maps_well_typed:
  assumes rec: "\<And>st. keeps_type (rec st)"
  shows "read_maps rec n r = (Ok xs, r') \<Longrightarrow> list_all (\<lambda>x. well_typed x \<and> typ_of x = TAnyMap) xs"
proof (induction n arbitrary: r xs)
  case (Suc n)
  then obtain x r1 xs' u where x: "rec True (r, VMap TAnyMap (Some [])) = (Ok u, (r1, x))"
    and xs': "read_maps rec n r1 = (Ok xs', r')" "xs = x # xs'"
    by (auto simp: bind_comp_def ret_def split: res.splits prod.splits)
  then show ?case using Suc.IH [OF xs'(1)] keeps_typeD [OF rec well_typed_any_map x] by simp
qed simp

lemma read_nvlist_array_keeps:
  assumes rec: "\<And>st. keeps_type (rec st)"
  shows "keeps_type (read_nvlist_array rec name n)"
proof (rule keeps_typeI)
  fix r v x r' v'
  assume v: "well_typed v" and m: "read_nvlist_array rec name n (r, v) = (x, (r', v'))"
  show "well_typed v' \<and> typ_of v' = typ_of v"
  proof (cases "v' = v")
    case False
    then obtain xs r1 where xs: "read_maps rec n r = (Ok xs, r1)"
      and st: "store (set_primitive False name (VSlice (TSlice TAnyMap) xs)) (r1, v) = (x, (r', v'))"
      using m by (auto simp: read_nvlist_array_def split: gval.splits res.splits prod.splits)
    have "storable (VSlice (TSlice TAnyMap) xs)"
      using read_maps_well_typed [OF rec xs] by (auto simp: storable_def list_all_iff of_type_def num_kind_def)
    then show ?thesis using keeps_typeD [OF keeps_type_store v st] by simp
  qed (use v in simp)
qed

lemma handle_pair_keeps:
  assumes rec: "\<And>st. keeps_type (rec st)"
  shows "keeps_type (handle_pair rec st h)"
proof (rule keeps_typeI)
  fix r v x r' v'
  assume v: "well_typed v" and m: "handle_pair rec st h (r, v) = (x, (r', v'))"
  obtain nvp name nvpr where h: "h = (nvp, name, nvpr)" by (cases h)
  consider (list) "read_nvlist rec st name (r, v) = (x, (r', v'))"
    | (array) n where "read_nvlist_array rec name n (r, v) = (x, (r', v'))"
    | (prim) y p where "read_value r nvp nvpr = (Ok (Some y), p)" "store (set_primitive st name y) (r, v) = (x, (r', v'))"
    | (none) "v' = v"
    using m h by (auto simp: handle_pair_def split: if_splits prod.splits res.splits option.splits)
  then show "well_typed v' \<and> typ_of v' = typ_of v"
  proof cases
    case list
    then show ?thesis using keeps_typeD [OF read_nvlist_keeps [where rec = rec, OF rec] v] by blast
  next
    case array
    then show ?thesis using keeps_typeD [OF read_nvlist_array_keeps [where rec = rec, OF rec] v] by blast
  next
    case prim
    then show ?thesis
      using keeps_typeD [OF keeps_type_store v prim(2)] yieldsD [OF read_value_storable prim(1)] by simp
  qed (use v in simp)
qed

lemma read_loop_keeps: "keeps_type (read_loop fuel st)"
proof (induction fuel arbitrary: st)
  case 0
  show ?case by (rule keeps_typeI) simp
next
  case (Suc fuel)
  show ?case
  proof (rule keeps_typeI)
    fix r v x r' v'
    assume v: "well_typed v" and m: "read_loop (Suc fuel) st (r, v) = (x, (r', v'))"
    have step: "keeps_type (bind_comp (handle_pair (enter_pairs (read_loop fuel)) st h) (\<lambda>_. read_loop fuel st))" for h
      by (intro keeps_type_bind handle_pair_keeps enter_pairs_keeps Suc)
    show "well_typed v' \<and> typ_of v' = typ_of v"
      using m v keeps_typeD [OF step v] by (auto split: prod.splits res.splits option.splits)
  qed
qed

lemma readPairs_keeps: "keeps_type (readPairs fuel st)"
  unfolding readPairs_def by (intro enter_pairs_keeps read_loop_keeps)

section \<open>The property\<close>

text \<open>
  C4. Decoding is type-safe: whatever the input, and whether decoding succeeds, fails or panics
  half way, a well-typed target stays well-typed and keeps its type. Every struct field, map
  entry and slice element it has afterwards is a value of its declared type, every number fits
  the width of its kind and no map has a key twice.
\<close>

theorem Unmarshal_type_safe:
  assumes "well_typed v"
  shows "well_typed (snd (Unmarshal data v)) \<and> typ_of (snd (Unmarshal data v)) = typ_of v"
  using assms keeps_typeD [OF readPairs_keeps assms] by (auto simp: Unmarshal_def split: prod.splits res.splits)

text \<open>The type of a dataset property with its source, and a list that has one.\<close>

definition prop_map :: gval where
  "prop_map = VMap (TMap TString (TStruct [(''Value'', ''value'', TIface), (''Source'', ''source'', TString)])) (Some [])"

definition prop_bytes :: "byte list" where
  "prop_bytes = (case Marshal (VMap TAnyMap (Some [(''used'', VIface (Some (VMap TAnyMap (Some
     [(''value'', VIface (Some (VNum TUint64 42)))]))))])) of Ok bs \<Rightarrow> bs | _ \<Rightarrow> [])"

theorem Unmarshal_type_safe_witness:
  "well_typed (snd (Unmarshal prop_bytes prop_map)) \<and> typ_of (snd (Unmarshal prop_bytes prop_map)) = typ_of prop_map \<and>
   map_entries (snd (Unmarshal prop_bytes prop_map)) =
     [(''used'', VStruct (TStruct [(''Value'', ''value'', TIface), (''Source'', ''source'', TString)])
        [VIface (Some (VNum TUint64 42)), VString TString []])]"
proof -
  have wt: "well_typed prop_map" by code_simp
  have es: "map_entries (snd (Unmarshal prop_bytes prop_map)) =
     [(''used'', VStruct (TStruct [(''Value'', ''value'', TIface), (''Source'', ''source'', TString)])
        [VIface (Some (VNum TUint64 42)), VString TString []])]" by code_simp
  show ?thesis using Unmarshal_type_safe [OF wt, of prop_bytes] es by blast
qed

end
