(* ===== verification/Nv_Struct.thy ===== *)
theory Nv_Struct
  imports Nv_Decoder_Correct Nv_Encoder_Correct
begin

text \<open>
  Structs: decoding a list without embedded lists into a struct or a map with typed elements,
  and which fields of a struct the encoder writes under which names.
\<close>

section \<open>Decoding flat lists\<close>

definition flat :: "nvdata \<Rightarrow> bool" where
  "flat d = (case d of NNvlist ps \<Rightarrow> False | NNvlistArray pss \<Rightarrow> False | _ \<Rightarrow> True)"

text \<open>Storing the values of the pairs one after the other.\<close>

primrec set_all :: "bool \<Rightarrow> nvpairs \<Rightarrow> gval \<Rightarrow> gval res" where
  "set_all st [] v = Ok v"
| "set_all st (p # ps) v =
     (case go_value (snd p) of
        None \<Rightarrow> set_all st ps v
      | Some x \<Rightarrow> bind_res (set_primitive st (fst p) x v) (set_all st ps))"

lemma flat_types:
  assumes "wf_data d" and "flat d"
  shows "data_type d \<notin> {typeNvlist, typeNvlistArray}" and "data_nested bo d = []"
proof -
  show "data_type d \<notin> {typeNvlist, typeNvlistArray}"
  proof (cases d)
    case (NNum t w)
    then show ?thesis using assms scalar_types_known [of t] by simp
  next
    case (NNumArray t ws)
    then show ?thesis using assms array_types_not_scalar [of t] by simp
  qed (use assms(2) in \<open>simp_all add: flat_def nvtype_defs\<close>)
  show "data_nested bo d = []" using assms(2) by (cases d) (simp_all add: flat_def)
qed

lemma handle_pair_flat:
  assumes wf: "wf_pair (n, d)" and flat: "flat d" and at: "r_at bo r (item_bytes bo (n, d) @ post)"
    and set: "set_all st [(n, d)] v = Ok v'"
  shows "handle_pair rec st (wire_nvpair bo n d, n, wire_pair_reader bo n d r) (r_adv (pair_size bo n d) r, v) =
    (Ok (), (r_adv (length (item_bytes bo (n, d))) r, v'))"
proof -
  let ?r = "r_adv (pair_size bo n d) r" and ?p = "wire_pair_reader bo n d r"
  have cnt: "data_count d \<le> 65535" and d: "wf_data d" using wf by (simp_all add: wf_pair_def wf_pair_size_def)
  note ty = flat_types [OF d flat]
  have "fst (read_value ?r (wire_nvpair bo n d) ?p) = Ok (go_value d)"
    using payload_at [of bo r n d] at cnt ty d
    by (intro read_value_wire) (auto simp: p_at_def r_at_def item_bytes_def)
  then obtain p' where "read_value ?r (wire_nvpair bo n d) ?p = (Ok (go_value d), p')"
    by (metis prod.collapse)
  then show ?thesis
    using ty set
    by (cases "go_value d"; cases "set_primitive st n (the (go_value d)) v")
      (auto simp: handle_pair_def item_bytes_def store_def)
qed

lemma set_all_Cons_OkD:
  "set_all st (p # ps) v = Ok v' \<Longrightarrow> \<exists>v1. set_all st [p] v = Ok v1 \<and> set_all st ps v1 = Ok v'"
proof -
  assume *: "set_all st (p # ps) v = Ok v'"
  show ?thesis
  proof (cases "go_value (snd p)")
    case None
    then show ?thesis using * by simp
  next
    case (Some x)
    then show ?thesis using * by (cases "set_primitive st (fst p) x v") simp_all
  qed
qed

lemma read_loop_flat:
  assumes "wf_nvpairs ps" and "list_all (flat \<circ> snd) ps" and "r_at bo r (pairs_bytes bo ps @ post)"
    and "length (pairs_bytes bo ps) \<le> fuel" and "set_all st ps v = Ok v'"
  shows "read_loop fuel st (r, v) = (Ok (), (r_adv (length (pairs_bytes bo ps)) r, v'))"
  using assms
proof (induction ps arbitrary: fuel r v)
  case Nil
  then obtain f where "fuel = Suc f" by (cases fuel) simp_all
  then show ?case using read_pair_head_end [of bo r post] Nil by simp
next
  case (Cons p ps)
  obtain n d where p: "p = (n, d)" by fastforce
  obtain f where f: "fuel = Suc f" "length (pairs_bytes bo ps) \<le> f"
    using Cons.prems(4) pair_size_ge [of bo n d] by (cases fuel) (simp_all add: p item_bytes_def)
  obtain v1 where v1: "set_all st [p] v = Ok v1" "set_all st ps v1 = Ok v'"
    using set_all_Cons_OkD [OF Cons.prems(5)] by blast
  let ?r = "r_adv (length (item_bytes bo p)) r"
  have item: "r_at bo r (item_bytes bo p @ (pairs_bytes bo ps @ post))" using Cons.prems(3) by simp
  have "read_pair_head r =
      (Ok (Some (wire_nvpair bo n d, n, wire_pair_reader bo n d r)), r_adv (pair_size bo n d) r)"
    using item Cons.prems(1) p pairs_bytes_ge [of bo ps]
    by (intro read_pair_head_wire [of bo r n d "data_nested bo d @ pairs_bytes bo ps @ post"])
      (auto simp: item_bytes_def wf_pair_def)
  moreover have "handle_pair (enter_pairs (read_loop f)) st
      (wire_nvpair bo n d, n, wire_pair_reader bo n d r) (r_adv (pair_size bo n d) r, v) = (Ok (), (?r, v1))"
    using handle_pair_flat [of n d bo r "pairs_bytes bo ps @ post" st v v1] item Cons.prems(1,2) v1(1) p by simp
  moreover have "read_loop f st (?r, v1) = (Ok (), (r_adv (length (pairs_bytes bo ps)) ?r, v'))"
    using Cons.IH [OF _ _ r_at_adv [OF item] f(2) v1(2)] Cons.prems(1,2) by simp
  ultimately show ?case using f by (simp add: bind_comp_def)
qed

lemma Unmarshal_flat:
  assumes wf: "wf_nvpairs ps" and flat: "list_all (flat \<circ> snd) ps"
  shows "kind_of v \<in> {KStruct, KMap} \<Longrightarrow> set_all True ps v = Ok v' \<Longrightarrow>
      Unmarshal (nvlist_bytes bo ps @ post) (VPtr T (Some v)) = (Ok (), VPtr T (Some v'))"
    and "kind_of v \<in> {KStruct, KMap} \<Longrightarrow> set_all False ps v = Ok v' \<Longrightarrow> (\<And>T p. v \<noteq> VPtr T p) \<Longrightarrow> (\<And>p. v \<noteq> VIface p) \<Longrightarrow>
      Unmarshal (nvlist_bytes bo ps @ post) v = (Ok (), v')"
proof -
  let ?data = "nvlist_bytes bo ps @ post"
  obtain r where r: "readNvHeader (new_reader ?data) = (Ok (), r)" and at: "r_at bo r (pairs_bytes bo ps @ post)"
    by (rule header_at_pairs)
  have fuel: "length (pairs_bytes bo ps) \<le> Suc (length ?data)" by (simp add: nvlist_bytes_def)
  note rl = read_loop_flat [OF wf flat at fuel]
  show "Unmarshal ?data (VPtr T (Some v)) = (Ok (), VPtr T (Some v'))"
    if k: "kind_of v \<in> {KStruct, KMap}" and s: "set_all True ps v = Ok v'"
  proof -
    have "\<not> (\<exists>p. v = VIface p)" using k by auto
    then have "enter_iface (read_loop (Suc (length ?data))) True (r, v) =
        (Ok (), (r_adv (length (pairs_bytes bo ps)) r, v'))"
      using rl [OF s] k by (cases v) (auto simp: enter_iface_def check_target_def)
    then show ?thesis
      using r(1) by (simp add: Unmarshal_def readPairs_def enter_pairs_def)
  qed
  show "Unmarshal ?data v = (Ok (), v')"
    if k: "kind_of v \<in> {KStruct, KMap}" and s: "set_all False ps v = Ok v'"
      and "\<And>T p. v \<noteq> VPtr T p" "\<And>p. v \<noteq> VIface p"
    using that rl [OF s] r(1)
    by (cases v) (auto simp: Unmarshal_def readPairs_def enter_pairs_def enter_iface_def check_target_def
      simp del: read_loop.simps)
qed

lemma set_all_struct_by_value: "set_all False ps (VStruct T vs) = Ok (VStruct T vs)"
  by (induction ps) (auto split: option.splits)

section \<open>The fields of a struct that are encoded\<close>

text \<open>The option of a field, the second part of its tag.\<close>

definition field_opt :: "string \<times> string \<times> gotype \<Rightarrow> string option" where
  "field_opt f =
     (case f of (fname, tag, T) \<Rightarrow> (case split_comma tag of _ # opt # _ \<Rightarrow> Some opt | _ \<Rightarrow> None))"

lemma collect_field_spec:
  "collect_field f x =
     (if field_opt f = Some ''ro'' \<or> field_opt f = Some ''omitempty'' \<and> isEmptyValue (unpackVal x) \<or>
         unpackVal x = VInvalid
      then [] else [(field_key f, unpackVal x)])"
proof -
  obtain fname tag T where f: "f = (fname, tag, T)" by (cases f)
  consider (one) name where "split_comma tag = [name]"
    | (more) name opt rest where "split_comma tag = name # opt # rest"
    by (metis neq_Nil_conv split_comma_nonempty)
  then show ?thesis
    by cases (simp_all add: f collect_field_def field_opt_def field_key_def Let_def)
qed

lemma collect_struct_spec:
  assumes "length vs = length (struct_fields T)"
  shows "(k, x) \<in> set (collect_struct (VStruct T vs)) \<longleftrightarrow>
    (\<exists>i < length vs. k = field_key (struct_fields T ! i) \<and> x = unpackVal (vs ! i) \<and> x \<noteq> VInvalid \<and>
       field_opt (struct_fields T ! i) \<noteq> Some ''ro'' \<and>
       \<not> (field_opt (struct_fields T ! i) = Some ''omitempty'' \<and> isEmptyValue x))"
proof -
  have "(k, x) \<in> set (collect_struct (VStruct T vs)) \<longleftrightarrow>
      (\<exists>i < length vs. (k, x) \<in> set (collect_field (struct_fields T ! i) (vs ! i)))"
    using assms by (auto simp: set_zip) (metis prod.collapse)
  then show ?thesis by (auto simp: collect_field_spec)
qed

section \<open>Properties\<close>

text \<open>
  Decoding into a struct: the bytes of a well-formed list without embedded lists, in either
  byte order, decoded through a pointer to a struct, store the value of each pair in the field
  that answers to its name, in order, as long as the field types accept the values; decoded
  into a struct passed by value they leave it unchanged and report success.
\<close>

theorem Unmarshal_into_struct:
  assumes "wf_nvpairs ps" and "list_all (flat \<circ> snd) ps" and "set_all True ps (VStruct S vs) = Ok v'"
  shows "Unmarshal (nvlist_bytes bo ps @ post) (VPtr T (Some (VStruct S vs))) = (Ok (), VPtr T (Some v')) \<and>
    Unmarshal (nvlist_bytes bo ps @ post) (VStruct S vs) = (Ok (), VStruct S vs)"
  using Unmarshal_flat(1) [OF assms(1,2) _ assms(3)]
    Unmarshal_flat(2) [OF assms(1,2) _ set_all_struct_by_value] by simp

definition sample_struct :: gotype where
  "sample_struct = TStruct [(''Name'', ''name'', TString), (''Size'', '''', TUint64)]"

definition sample_flat :: nvpairs where
  "sample_flat = [(''Size'', NNum typeUint64 9), (''other'', NBoolean), (''name'', NString ''t'')]"

theorem Unmarshal_into_struct_witness:
  "Unmarshal (nvlist_bytes BigEndian sample_flat)
      (VPtr (TPtr sample_struct) (Some (VStruct sample_struct [VString TString '''', VNum TUint64 0]))) =
    (Ok (), VPtr (TPtr sample_struct) (Some (VStruct sample_struct [VString TString ''t'', VNum TUint64 9])))"
proof -
  have wf: "wf_nvpairs sample_flat" and fl: "list_all (flat \<circ> snd) sample_flat"
    and st: "set_all True sample_flat (VStruct sample_struct [VString TString '''', VNum TUint64 0]) =
      Ok (VStruct sample_struct [VString TString ''t'', VNum TUint64 9])"
    by code_simp+
  show ?thesis using Unmarshal_into_struct [OF wf fl st, of BigEndian "[]"] by simp
qed



end
