(* ===== verification/Nv_Typed.thy ===== *)
theory Nv_Typed
  imports Nv_Struct
begin

text \<open>
  Decoding into a target of any type. \<open>decode_into\<close> is the reference definition: it stores an
  abstract nvlist into a Go value, pair by pair, with no reader, byte or position in sight.
  \<open>Unmarshal\<close> on the bytes of the nvlist is shown to do exactly that, whatever the target (maps
  of structs, nested structs, pointers, interfaces) and whatever the outcome, errors and panics
  included. The one case the reference leaves open, marked by the outcome \<open>Diverge\<close>, is a nested
  list for which a struct target has no field: there the decoder goes on in the middle of the
  nested list, which is stated separately.
\<close>

section \<open>The reference definition\<close>

type_synonym target_decoder = "bool \<Rightarrow> gval \<Rightarrow> unit res \<times> gval"

definition put :: "gval res \<Rightarrow> gval \<Rightarrow> unit res \<times> gval" where
  "put x v = (case x of Ok v' \<Rightarrow> (Ok (), v') | Err e \<Rightarrow> (Err e, v) | Panic p \<Rightarrow> (Panic p, v) | Diverge \<Rightarrow> (Diverge, v))"

definition decode_container :: "target_decoder \<Rightarrow> target_decoder" where
  "decode_container f st v = (if kind_of v \<in> {KStruct, KMap} then f st v else (Err ErrInvalidData, v))"

definition decode_iface :: "target_decoder \<Rightarrow> target_decoder" where
  "decode_iface f st v =
     (case v of
        VIface _ \<Rightarrow>
          if st then
            (case decode_container f False (VMap TAnyMap (Some [])) of (x, m') \<Rightarrow> (x, VIface (Some m')))
          else (Panic NotSettable, v)
      | _ \<Rightarrow> decode_container f st v)"

definition decode_target :: "target_decoder \<Rightarrow> target_decoder" where
  "decode_target f st v =
     (case v of
        VPtr T None \<Rightarrow> (Err ErrInvalidData, v)
      | VPtr T (Some x) \<Rightarrow> (case decode_iface f True x of (y, x') \<Rightarrow> (y, VPtr T (Some x')))
      | _ \<Rightarrow> decode_iface f st v)"

text \<open>A nested list: into the field of that name, or into a new element of the map.\<close>

definition decode_nested :: "target_decoder \<Rightarrow> bool \<Rightarrow> string \<Rightarrow> gval \<Rightarrow> unit res \<times> gval" where
  "decode_nested f st name v =
     (case v of
        VStruct T vs \<Rightarrow>
          (case field_index (struct_fields T) name of
             None \<Rightarrow> (Diverge, v)
           | Some i \<Rightarrow>
               if st then (case f True (vs ! i) of (x, f') \<Rightarrow> (x, VStruct T (vs[i := f'])))
               else (Diverge, v))
      | VMap T m \<Rightarrow>
          (case fresh_elem (elem_type T) of
             Ok val \<Rightarrow>
               (case f False val of
                  (Ok _, val') \<Rightarrow> put (set_primitive False name (deref_ptr val') v) v
                | (x, _) \<Rightarrow> (x, v))
           | Err e \<Rightarrow> (Err e, v) | Panic p \<Rightarrow> (Panic p, v) | Diverge \<Rightarrow> (Diverge, v))
      | _ \<Rightarrow> (Panic (PanicText ''Invalid pair type (not map or struct)''), v))"

definition decode_array :: "nvpairs list \<Rightarrow> string \<Rightarrow> gval \<Rightarrow> unit res \<times> gval" where
  "decode_array pss name v =
     (case v of
        VStruct T vs \<Rightarrow> (Panic (PanicText ''Deserializing NVListArrays into structs currently unsupported''), v)
      | VMap T m \<Rightarrow> put (set_primitive False name (VSlice (TSlice TAnyMap) (map go_map pss)) v) v
      | _ \<Rightarrow> (Panic (PanicText ''Invalid pair type (not map or struct)''), v))"

text \<open>A value whose type the decoder does not know is left out.\<close>

definition decode_flat :: "nvdata \<Rightarrow> bool \<Rightarrow> string \<Rightarrow> gval \<Rightarrow> unit res \<times> gval" where
  "decode_flat d st name v =
     (case go_value d of None \<Rightarrow> (Ok (), v) | Some x \<Rightarrow> put (set_primitive st name x v) v)"

definition andthen :: "unit res \<times> gval \<Rightarrow> (gval \<Rightarrow> unit res \<times> gval) \<Rightarrow> unit res \<times> gval" where
  "andthen x f = (if fst x = Ok () then f (snd x) else x)"

fun decode_pairs :: "nvpairs \<Rightarrow> target_decoder" where
  "decode_pairs [] st v = (Ok (), v)"
| "decode_pairs ((name, NNvlist qs) # ps) st v =
     andthen (decode_nested (decode_target (\<lambda>st v. decode_pairs qs st v)) st name v) (\<lambda>v. decode_pairs ps st v)"
| "decode_pairs ((name, NNvlistArray qss) # ps) st v = andthen (decode_array qss name v) (\<lambda>v. decode_pairs ps st v)"
| "decode_pairs ((name, d) # ps) st v = andthen (decode_flat d st name v) (\<lambda>v. decode_pairs ps st v)"

definition decode_into :: "nvpairs \<Rightarrow> gval \<Rightarrow> unit res \<times> gval" where
  "decode_into ps v = decode_target (decode_pairs ps) False v"

definition decode_one :: "string \<times> nvdata \<Rightarrow> target_decoder" where
  "decode_one p st v =
     (case snd p of
        NNvlist qs \<Rightarrow> decode_nested (decode_target (decode_pairs qs)) st (fst p) v
      | NNvlistArray qss \<Rightarrow> decode_array qss (fst p) v
      | d \<Rightarrow> decode_flat d st (fst p) v)"

lemma decode_pairs_Cons: "decode_pairs (p # ps) st v = andthen (decode_one p st v) (decode_pairs ps st)"
  by (cases "(p # ps, st, v)" rule: decode_pairs.cases) (simp_all add: decode_one_def)

lemma decode_pairs_append: "decode_pairs (ps @ qs) st v = andthen (decode_pairs ps st v) (decode_pairs qs st)"
proof (induction ps arbitrary: v)
  case Nil
  show ?case by (simp add: andthen_def)
next
  case (Cons p ps)
  have "decode_pairs ((p # ps) @ qs) st v = andthen (decode_one p st v) (decode_pairs (ps @ qs) st)"
    by (simp add: decode_pairs_Cons)
  also have "\<dots> = andthen (decode_pairs (p # ps) st v) (decode_pairs qs st)"
    using Cons by (simp add: decode_pairs_Cons andthen_def)
  finally show ?case .
qed

section \<open>Readers that follow the reference\<close>

text \<open>
  On the reader states of \<open>P\<close>, \<open>rd\<close> does to the target what \<open>f\<close> does, and if that succeeds it
  moves the reader by \<open>k\<close> bytes.
\<close>

definition follows :: "(nvlistReader \<Rightarrow> bool) \<Rightarrow> nat \<Rightarrow> pairs_reader \<Rightarrow> target_decoder \<Rightarrow> bool" where
  "follows P k rd f \<longleftrightarrow> (\<forall>st r v. P r \<longrightarrow> fst (f st v) \<noteq> Diverge \<longrightarrow>
     (\<exists>r'. rd st (r, v) = (fst (f st v), (r', snd (f st v))) \<and> (fst (f st v) = Ok () \<longrightarrow> r' = r_adv k r)))"

lemma followsD:
  "follows P k rd f \<Longrightarrow> P r \<Longrightarrow> f st v = (x, v') \<Longrightarrow> x \<noteq> Diverge \<Longrightarrow>
   \<exists>r'. rd st (r, v) = (x, (r', v')) \<and> (x = Ok () \<longrightarrow> r' = r_adv k r)"
  unfolding follows_def by (metis fst_conv snd_conv)

lemma followsI:
  assumes "\<And>st r v x v'. P r \<Longrightarrow> f st v = (x, v') \<Longrightarrow> x \<noteq> Diverge \<Longrightarrow>
    \<exists>r'. rd st (r, v) = (x, (r', v')) \<and> (x = Ok () \<longrightarrow> r' = r_adv k r)"
  shows "follows P k rd f"
  unfolding follows_def using assms by (metis prod.collapse)

lemma check_target_follows: "follows P k loop f \<Longrightarrow> follows P k (check_target loop) (decode_container f)"
  by (rule followsI) (auto simp: check_target_def decode_container_def split: if_splits dest: followsD)

lemma enter_iface_follows:
  assumes "follows P k loop f"
  shows "follows P k (enter_iface loop) (decode_iface f)"
proof (rule followsI)
  fix st r v x v'
  assume P: "P r" and d: "decode_iface f st v = (x, v')" and x: "x \<noteq> Diverge"
  note ct = followsD [OF check_target_follows [OF assms] P]
  show "\<exists>r'. enter_iface loop st (r, v) = (x, (r', v')) \<and> (x = Ok () \<longrightarrow> r' = r_adv k r)"
  proof (cases "\<exists>p. v = VIface p")
    case True
    then show ?thesis
      using d x ct [of False "VMap TAnyMap (Some [])"]
      by (cases "decode_container f False (VMap TAnyMap (Some []))")
        (auto simp: enter_iface_def decode_iface_def split: if_splits)
  next
    case False
    then have "decode_container f st v = (x, v')" "enter_iface loop st (r, v) = check_target loop st (r, v)"
      using d by (auto simp: enter_iface_def decode_iface_def split: gval.splits)
    then show ?thesis using ct [OF _ x] by simp
  qed
qed

lemma enter_pairs_follows:
  assumes "follows P k loop f"
  shows "follows P k (enter_pairs loop) (decode_target f)"
proof (rule followsI)
  fix st r v x v'
  assume P: "P r" and d: "decode_target f st v = (x, v')" and x: "x \<noteq> Diverge"
  note ei = followsD [OF enter_iface_follows [OF assms] P]
  show "\<exists>r'. enter_pairs loop st (r, v) = (x, (r', v')) \<and> (x = Ok () \<longrightarrow> r' = r_adv k r)"
  proof (cases "\<exists>T y. v = VPtr T (Some y)")
    case True
    then obtain T y where v: "v = VPtr T (Some y)" by blast
    then obtain y' where y': "decode_iface f True y = (x, y')" "v' = VPtr T (Some y')"
      using d by (auto simp: decode_target_def split: prod.splits)
    then show ?thesis using ei [OF y'(1) x] v by (auto simp: enter_pairs_def)
  next
    case False
    then consider T where "v = VPtr T None" | "decode_iface f st v = (x, v')" "enter_pairs loop st (r, v) = enter_iface loop st (r, v)"
      using d by (auto simp: enter_pairs_def decode_target_def split: gval.splits option.splits)
    then show ?thesis
    proof cases
      case 1
      then show ?thesis using d by (auto simp: enter_pairs_def decode_target_def)
    next
      case 2
      then show ?thesis using ei [OF _ x] by simp
    qed
  qed
qed

lemma store_put: "store g (r, v) = (fst (put (g v) v), (r, snd (put (g v) v)))"
  by (auto simp: store_def put_def split: res.splits)

lemma read_nvlist_follows:
  assumes f: "follows P k rec f" and P: "P r" and d: "decode_nested f st name v = (x, v')" and x: "x \<noteq> Diverge"
  shows "\<exists>r'. read_nvlist rec st name (r, v) = (x, (r', v')) \<and> (x = Ok () \<longrightarrow> r' = r_adv k r)"
proof (cases v)
  case (VStruct T vs)
  then obtain i f' where i: "field_index (struct_fields T) name = Some i" "st"
    and f': "f True (vs ! i) = (x, f')" "v' = VStruct T (vs[i := f'])"
    using d x by (auto simp: decode_nested_def split: option.splits if_splits prod.splits)
  then show ?thesis using followsD [OF f P f'(1) x] VStruct by (auto simp: read_nvlist_def)
next
  case (VMap T m)
  show ?thesis
  proof (cases "fresh_elem (elem_type T)")
    case (Ok val)
    obtain y val' where y: "f False val = (y, val')" by fastforce
    have yx: "y \<noteq> Diverge" using d x y Ok VMap by (auto simp: decode_nested_def)
    then obtain r1 where r1: "rec False (r, val) = (y, (r1, val'))" "y = Ok () \<longrightarrow> r1 = r_adv k r"
      using followsD [OF f P y] by blast
    show ?thesis
    proof (cases y)
      case Y: (Ok u)
      then have "put (set_primitive False name (deref_ptr val') v) v = (x, v')"
        using d y Ok VMap by (simp add: decode_nested_def)
      then show ?thesis
        using r1 Y y Ok VMap store_put [of "set_primitive False name (deref_ptr val')" r1 v]
        by (simp add: read_nvlist_def)
    qed (use d r1 y Ok VMap yx in \<open>auto simp: decode_nested_def read_nvlist_def\<close>)
  qed (use d x VMap in \<open>auto simp: decode_nested_def read_nvlist_def\<close>)
qed (use d x in \<open>auto simp: decode_nested_def read_nvlist_def\<close>)

section \<open>One pair\<close>

abbreviation at_pairs :: "byteorder \<Rightarrow> nvpairs \<Rightarrow> byte list \<Rightarrow> nvlistReader \<Rightarrow> bool" where
  "at_pairs bo ps post r \<equiv> r_at bo r (pairs_bytes bo ps @ post)"

lemma read_nvlist_array_follows:
  assumes rec: "decodes N rec" and wf: "list_all wf_nvpairs pss"
    and at: "r_at bo r (concat (map (pairs_bytes bo) pss) @ post)"
    and N: "length (concat (map (pairs_bytes bo) pss)) \<le> N"
    and d: "decode_array pss name v = (x, v')"
  shows "\<exists>r'. read_nvlist_array rec name (length pss) (r, v) = (x, (r', v')) \<and>
    (x = Ok () \<longrightarrow> r' = r_adv (length (concat (map (pairs_bytes bo) pss))) r)"
  using d read_maps_wire [OF rec wf at N] store_put
  by (cases v) (auto simp: read_nvlist_array_def decode_array_def)

lemma decode_one_flat: "flat d \<Longrightarrow> decode_one (n, d) st v = decode_flat d st n v"
  by (cases d) (simp_all add: flat_def decode_one_def)

lemma handle_pair_follows:
  assumes rec: "\<And>qs post. d = NNvlist qs \<Longrightarrow>
      follows (at_pairs bo qs post) (length (pairs_bytes bo qs)) rec (decode_target (decode_pairs qs))"
    and dec: "decodes N rec" and N: "length (data_nested bo d) \<le> N"
    and wf: "wf_pair (n, d)" and at: "r_at bo r (item_bytes bo (n, d) @ post)"
    and d1: "decode_one (n, d) st v = (x, v')" and x: "x \<noteq> Diverge"
  shows "\<exists>r'. handle_pair rec st (wire_nvpair bo n d, n, wire_pair_reader bo n d r) (r_adv (pair_size bo n d) r, v) =
      (x, (r', v')) \<and> (x = Ok () \<longrightarrow> r' = r_adv (length (item_bytes bo (n, d))) r)"
proof -
  let ?r = "r_adv (pair_size bo n d) r" and ?p = "wire_pair_reader bo n d r"
  have cnt: "data_count d \<le> 65535" and wd: "wf_data d" using wf by (simp_all add: wf_pair_def wf_pair_size_def)
  have at': "r_at bo ?r (data_nested bo d @ post)"
    using r_at_adv [of bo r "pair_bytes bo n d"] at by (simp add: item_bytes_def)
  have adv: "r_adv k ?r = r_adv (pair_size bo n d + k) r" for k by (simp add: r_adv_def)
  consider (list) qs where "d = NNvlist qs" | (array) qss where "d = NNvlistArray qss" | (flat) "flat d"
    by (cases d) (auto simp: flat_def)
  then show ?thesis
  proof cases
    case list
    have "at_pairs bo qs post ?r" using at' list by simp
    from read_nvlist_follows [OF rec [OF list, of post] this _ x]
    show ?thesis using d1 list by (auto simp: handle_pair_def decode_one_def item_bytes_def adv)
  next
    case array
    then have "list_all wf_nvpairs qss" using wd by simp
    from read_nvlist_array_follows [OF dec this, of bo ?r post n v x v']
    show ?thesis
      using at' N d1 array cnt by (auto simp: handle_pair_def decode_one_def item_bytes_def elem_count_wire adv nvtype_defs)
  next
    case flat
    note ty = flat_types [OF wd flat]
    have "fst (read_value ?r (wire_nvpair bo n d) ?p) = Ok (go_value d)"
      using payload_at [of bo r n d] at cnt ty wd
      by (intro read_value_wire) (auto simp: p_at_def r_at_def item_bytes_def)
    then obtain p' where "read_value ?r (wire_nvpair bo n d) ?p = (Ok (go_value d), p')"
      by (metis prod.collapse)
    then show ?thesis
      using ty d1 store_put [of "set_primitive st n (the (go_value d))" ?r v]
      by (cases "go_value d") (auto simp: decode_one_flat [OF flat] decode_flat_def handle_pair_def item_bytes_def)
  qed
qed

section \<open>All pairs\<close>

text \<open>A pair and what follows it: the fuel that is left is enough for the rest.\<close>

lemma read_loop_pair:
  assumes rec: "\<And>qs post. wf_nvpairs qs \<Longrightarrow> length (pairs_bytes bo qs) \<le> fuel \<Longrightarrow>
      follows (at_pairs bo qs post) (length (pairs_bytes bo qs)) (read_loop fuel) (decode_pairs qs)"
    and wf: "wf_pair (n, d)" and at: "r_at bo r (item_bytes bo (n, d) @ post)" and post: "4 \<le> length post"
    and fuel: "length (item_bytes bo (n, d)) \<le> fuel"
    and d1: "decode_one (n, d) st v = (x, v')" and x: "x \<noteq> Diverge"
  shows "if x = Ok () then read_loop (Suc fuel) st (r, v) = read_loop fuel st (r_adv (length (item_bytes bo (n, d))) r, v')
    else \<exists>r'. read_loop (Suc fuel) st (r, v) = (x, (r', v'))"
proof -
  have head: "read_pair_head r =
      (Ok (Some (wire_nvpair bo n d, n, wire_pair_reader bo n d r)), r_adv (pair_size bo n d) r)"
    using at wf post
    by (intro read_pair_head_wire [of bo r n d "data_nested bo d @ post"]) (auto simp: item_bytes_def wf_pair_def)
  have "\<exists>r'. handle_pair (enter_pairs (read_loop fuel)) st (wire_nvpair bo n d, n, wire_pair_reader bo n d r)
      (r_adv (pair_size bo n d) r, v) = (x, (r', v')) \<and> (x = Ok () \<longrightarrow> r' = r_adv (length (item_bytes bo (n, d))) r)"
  proof (rule handle_pair_follows [OF _ enter_pairs_decodes [OF read_loop_decodes] _ wf at d1 x])
    show "length (data_nested bo d) \<le> fuel" using fuel by (simp add: item_bytes_def)
    show "follows (at_pairs bo qs post') (length (pairs_bytes bo qs)) (enter_pairs (read_loop fuel))
        (decode_target (decode_pairs qs))" if "d = NNvlist qs" for qs post'
      using wf fuel that by (intro enter_pairs_follows rec) (simp_all add: wf_pair_def item_bytes_def)
  qed
  then show ?thesis using head x by (cases x) (auto simp: bind_comp_def)
qed

lemma read_loop_follows:
  "wf_nvpairs ps \<Longrightarrow> length (pairs_bytes bo ps) \<le> fuel \<Longrightarrow>
   follows (at_pairs bo ps post) (length (pairs_bytes bo ps)) (read_loop fuel) (decode_pairs ps)"
proof (induction fuel arbitrary: ps post)
  case 0
  then show ?case using pairs_bytes_ge [of bo ps] by simp
next
  case (Suc fuel)
  show ?case
  proof (rule followsI)
    fix st r v x v'
    assume at: "at_pairs bo ps post r" and d: "decode_pairs ps st v = (x, v')" and x: "x \<noteq> Diverge"
    show "\<exists>r'. read_loop (Suc fuel) st (r, v) = (x, (r', v')) \<and>
        (x = Ok () \<longrightarrow> r' = r_adv (length (pairs_bytes bo ps)) r)"
    proof (cases ps)
      case Nil
      then show ?thesis using read_pair_head_end [of bo r post] at d by simp
    next
      case (Cons p ps')
      obtain n dd where p: "p = (n, dd)" by fastforce
      obtain y v1 where y: "decode_one (n, dd) st v = (y, v1)" by fastforce
      have dec: "andthen (y, v1) (decode_pairs ps' st) = (x, v')"
        using d y Cons p by (simp add: decode_pairs_Cons)
      then have yx: "y \<noteq> Diverge" using x by (auto simp: andthen_def)
      have item: "r_at bo r (item_bytes bo (n, dd) @ (pairs_bytes bo ps' @ post))" using at Cons p by simp
      have len: "length (item_bytes bo (n, dd)) \<le> fuel" "length (pairs_bytes bo ps') \<le> fuel"
        using Suc.prems(2) Cons p pairs_bytes_ge [of bo ps'] pair_size_ge [of bo n dd] by (simp_all add: item_bytes_def)
      have wf: "wf_pair (n, dd)" "wf_nvpairs ps'" using Suc.prems(1) Cons p by simp_all
      note one = read_loop_pair [OF Suc.IH wf(1) item _ len(1) y yx]
      show ?thesis
      proof (cases "y = Ok ()")
        case True
        then have "decode_pairs ps' st v1 = (x, v')" using dec by (simp add: andthen_def)
        from followsD [OF Suc.IH [OF wf(2) len(2)] r_at_adv [OF item] this x]
        show ?thesis
          using one True pairs_bytes_ge [of bo ps'] Cons p by (auto simp: r_adv_def simp del: read_loop.simps)
      next
        case False
        then show ?thesis
          using one dec pairs_bytes_ge [of bo ps'] by (auto simp: andthen_def simp del: read_loop.simps)
      qed
    qed
  qed
qed

lemma Unmarshal_decode_into:
  assumes "wf_nvpairs ps" and "fst (decode_into ps v) \<noteq> Diverge"
  shows "Unmarshal (nvlist_bytes bo ps @ post) v = decode_into ps v"
proof -
  obtain r where r: "readNvHeader (new_reader (nvlist_bytes bo ps @ post)) = (Ok (), r)" "at_pairs bo ps post r"
    by (rule header_at_pairs)
  have "length (pairs_bytes bo ps) \<le> Suc (length (nvlist_bytes bo ps @ post))" by (simp add: nvlist_bytes_def)
  from followsD [OF enter_pairs_follows [OF read_loop_follows [OF assms(1) this]] r(2), of False v]
  show ?thesis
    using assms(2) r(1) by (cases "decode_into ps v") (auto simp: decode_into_def Unmarshal_def readPairs_def simp del: read_loop.simps)
qed

section \<open>Nested lists without a field\<close>

lemma read_loop_prefix:
  assumes "wf_nvpairs ps" and "r_at bo r (concat (map (item_bytes bo) ps) @ rest)" and "4 \<le> length rest"
    and "length (concat (map (item_bytes bo) ps)) + length rest \<le> fuel" and "decode_pairs ps st v = (Ok (), v1)"
  shows "\<exists>fuel'. length rest \<le> fuel' \<and>
    read_loop fuel st (r, v) = read_loop fuel' st (r_adv (length (concat (map (item_bytes bo) ps))) r, v1)"
  using assms
proof (induction ps arbitrary: fuel r v)
  case Nil
  then show ?case by (intro exI [of _ fuel]) (simp add: r_adv_def)
next
  case (Cons p ps)
  obtain n d where p: "p = (n, d)" by fastforce
  let ?len = "length (item_bytes bo (n, d))" and ?tail = "concat (map (item_bytes bo) ps) @ rest"
  obtain f where f: "fuel = Suc f" using Cons.prems(3,4) by (cases fuel) simp_all
  obtain y v2 where y: "decode_one (n, d) st v = (y, v2)" by fastforce
  then have ok: "y = Ok ()" "decode_pairs ps st v2 = (Ok (), v1)"
    using Cons.prems(5) p by (auto simp: decode_pairs_Cons andthen_def split: if_splits)
  have item: "r_at bo r (item_bytes bo (n, d) @ ?tail)" using Cons.prems(2) p by simp
  have "read_loop fuel st (r, v) = read_loop f st (r_adv ?len r, v2)"
    using read_loop_pair [OF read_loop_follows _ item _ _ y] Cons.prems p f ok(1) by (simp del: read_loop.simps)
  moreover have f': "length (concat (map (item_bytes bo) ps)) + length rest \<le> f"
    using Cons.prems(4) p f pair_size_ge [of bo n d] by (simp add: item_bytes_def [of bo "(n, d)"])
  moreover obtain fuel' where "length rest \<le> fuel'"
    "read_loop f st (r_adv ?len r, v2) = read_loop fuel' st (r_adv (length (concat (map (item_bytes bo) ps))) (r_adv ?len r), v1)"
    using Cons.IH [OF _ r_at_adv [OF item] Cons.prems(3) f' ok(2)] Cons.prems(1) by auto
  ultimately show ?case using p by (auto simp: r_adv_def add.assoc simp del: read_loop.simps)
qed

lemma read_loop_lost:
  assumes wf: "wf_pair (n, NNvlist qs)" and at: "r_at bo r (item_bytes bo (n, NNvlist qs) @ post)"
    and lost: "field_index (struct_fields T) n = None"
  shows "read_loop (Suc fuel) st (r, VStruct T vs) = read_loop fuel st (r_adv (pair_size bo n (NNvlist qs)) r, VStruct T vs)"
proof -
  have "read_pair_head r =
      (Ok (Some (wire_nvpair bo n (NNvlist qs), n, wire_pair_reader bo n (NNvlist qs) r)), r_adv (pair_size bo n (NNvlist qs)) r)"
    using at wf pairs_bytes_ge [of bo qs]
    by (intro read_pair_head_wire [of bo r n "NNvlist qs" "pairs_bytes bo qs @ post"]) (auto simp: item_bytes_def wf_pair_def)
  then show ?thesis using lost by (simp add: handle_pair_def read_nvlist_def bind_comp_def)
qed

lemma Unmarshal_ptr_struct:
  assumes "readNvHeader (new_reader data) = (Ok (), r)"
    and "read_loop (Suc (length data)) True (r, VStruct T vs) = (x, (r', v'))"
  shows "Unmarshal data (VPtr P (Some (VStruct T vs))) = (x, VPtr P (Some v'))"
  using assms by (simp add: Unmarshal_def readPairs_def enter_pairs_def enter_iface_def check_target_def del: read_loop.simps)

lemma Unmarshal_lost:
  assumes wf: "wf_nvpairs (ps @ (n, NNvlist qs) # ps')"
    and ps: "decode_pairs ps True (VStruct T vs) = (Ok (), VStruct T us)"
    and lost: "field_index (struct_fields T) n = None"
    and qs: "decode_pairs qs True (VStruct T us) = (x, v')" and x: "x \<noteq> Diverge"
  shows "Unmarshal (nvlist_bytes bo (ps @ (n, NNvlist qs) # ps') @ post) (VPtr P (Some (VStruct T vs))) = (x, VPtr P (Some v'))"
proof -
  let ?all = "ps @ (n, NNvlist qs) # ps'" and ?d = "NNvlist qs" and ?front = "concat (map (item_bytes bo) ps)"
  let ?data = "nvlist_bytes bo ?all @ post" and ?rest = "item_bytes bo (n, NNvlist qs) @ pairs_bytes bo ps' @ post"
  obtain r where r: "readNvHeader (new_reader ?data) = (Ok (), r)" "at_pairs bo ?all post r"
    by (rule header_at_pairs)
  have wf': "wf_nvpairs ps" "wf_pair (n, ?d)" "wf_nvpairs qs" using wf by (simp_all add: wf_nvpairs_def wf_pair_def)
  have at: "r_at bo r (?front @ ?rest)" using r(2) by (simp add: pairs_bytes_def)
  have len: "length ?front + length ?rest \<le> Suc (length ?data)" by (simp add: nvlist_bytes_def pairs_bytes_def)
  have four: "4 \<le> length ?rest" using pair_size_ge [of bo n ?d] by (simp add: item_bytes_def)
  obtain fuel where fuel: "length ?rest \<le> fuel"
    "read_loop (Suc (length ?data)) True (r, VStruct T vs) = read_loop fuel True (r_adv (length ?front) r, VStruct T us)"
    using read_loop_prefix [OF wf'(1) at four len ps] by blast
  then obtain f where f: "fuel = Suc f" "length (pairs_bytes bo qs) \<le> f"
    using pair_size_ge [of bo n ?d] by (cases fuel) (simp_all add: item_bytes_def)
  let ?r = "r_adv (length ?front) r"
  have at1: "r_at bo ?r (item_bytes bo (n, ?d) @ pairs_bytes bo ps' @ post)" using r_at_adv [OF at] by simp
  then have "at_pairs bo qs (pairs_bytes bo ps' @ post) (r_adv (pair_size bo n ?d) ?r)"
    using r_at_adv [of bo ?r "pair_bytes bo n ?d"] by (simp add: item_bytes_def)
  from followsD [OF read_loop_follows [OF wf'(3) f(2)] this qs x]
  obtain r' where "read_loop f True (r_adv (pair_size bo n ?d) ?r, VStruct T us) = (x, (r', v'))" by blast
  then have "read_loop (Suc (length ?data)) True (r, VStruct T vs) = (x, (r', v'))"
    using fuel(2) f(1) read_loop_lost [OF wf'(2) at1 lost, of f True us] by (simp del: read_loop.simps)
  then show ?thesis by (rule Unmarshal_ptr_struct [OF r(1)])
qed

section \<open>Properties\<close>


text \<open>A map of structs, a struct in a struct, and an nvlist for them.\<close>

definition inner_type :: gotype where
  "inner_type = TStruct [(''Value'', ''value'', TIface), (''Source'', ''source'', TString)]"

definition typed_target :: gval where
  "typed_target = VPtr (TPtr (TStruct [(''Props'', ''props'', TMap TString inner_type), (''One'', ''one'', inner_type)]))
     (Some (VStruct (TStruct [(''Props'', ''props'', TMap TString inner_type), (''One'', ''one'', inner_type)])
       [VMap (TMap TString inner_type) (Some []), zero_value inner_type]))"

definition typed_list :: nvpairs where
  "typed_list =
     [(''props'', NNvlist [(''used'', NNvlist [(''value'', NNum typeUint64 42), (''source'', NString ''local'')])]),
      (''one'', NNvlist [(''source'', NString ''x'')])]"


text \<open>
  C13. A nested list nobody asked for derails the decoder: if a struct has no field for it, the
  decoder does not skip it. The pairs of the nested list are stored into the fields of the
  outer struct and the end of the nested list is taken for the end of the input, so everything
  that follows is lost without an error.
\<close>

theorem Unmarshal_unknown_list_derails:
  assumes "wf_nvpairs (ps @ (n, NNvlist qs) # ps')"
    and "decode_pairs ps True (VStruct T vs) = (Ok (), VStruct T us)"
    and "field_index (struct_fields T) n = None"
    and "fst (decode_pairs qs True (VStruct T us)) = Ok ()"
  shows "Unmarshal (nvlist_bytes bo (ps @ (n, NNvlist qs) # ps')) (VPtr P (Some (VStruct T vs))) =
    Unmarshal (nvlist_bytes bo (ps @ qs)) (VPtr P (Some (VStruct T vs)))"
proof -
  obtain v' where v': "decode_pairs qs True (VStruct T us) = (Ok (), v')" using assms(4) by (metis prod.collapse)
  have wf: "wf_nvpairs (ps @ qs)" using assms(1) by (simp add: wf_nvpairs_def wf_pair_def)
  have "decode_pairs (ps @ qs) True (VStruct T vs) = (Ok (), v')"
    using assms(2) v' by (simp add: decode_pairs_append andthen_def)
  then have "decode_into (ps @ qs) (VPtr P (Some (VStruct T vs))) = (Ok (), VPtr P (Some v'))"
    by (simp add: decode_into_def decode_target_def decode_iface_def decode_container_def)
  then show ?thesis
    using Unmarshal_decode_into [OF wf, of "VPtr P (Some (VStruct T vs))" bo "[]"]
      Unmarshal_lost [OF assms(1-3) v', of bo "[]" P] by simp
qed

abbreviation "TOne \<equiv> TStruct [(''A'', ''a'', TUint64)]"

theorem Unmarshal_unknown_list_derails_witness:
  "Unmarshal (nvlist_bytes LittleEndian [(''x'', NNvlist [(''a'', NNum typeUint64 1)]), (''a'', NNum typeUint64 2)])
     (VPtr (TPtr TOne) (Some (VStruct TOne [VNum TUint64 0]))) =
   (Ok (), VPtr (TPtr TOne) (Some (VStruct TOne [VNum TUint64 1])))"
proof -
  let ?v = "VPtr (TPtr TOne) (Some (VStruct TOne [VNum TUint64 0]))"
  have "Unmarshal (nvlist_bytes LittleEndian ([] @ (''x'', NNvlist [(''a'', NNum typeUint64 1)]) # [(''a'', NNum typeUint64 2)])) ?v =
      Unmarshal (nvlist_bytes LittleEndian ([] @ [(''a'', NNum typeUint64 1)])) ?v"
  proof (rule Unmarshal_unknown_list_derails)
    show "wf_nvpairs ([] @ (''x'', NNvlist [(''a'', NNum typeUint64 1)]) # [(''a'', NNum typeUint64 2)])" by code_simp
    show "decode_pairs [] True (VStruct TOne [VNum TUint64 0]) = (Ok (), VStruct TOne [VNum TUint64 0])" by simp
    show "field_index (struct_fields TOne) ''x'' = None" by code_simp
    show "fst (decode_pairs [(''a'', NNum typeUint64 1)] True (VStruct TOne [VNum TUint64 0])) = Ok ()" by code_simp
  qed
  moreover have "Unmarshal (nvlist_bytes LittleEndian [(''a'', NNum typeUint64 1)]) ?v =
      (Ok (), VPtr (TPtr TOne) (Some (VStruct TOne [VNum TUint64 1])))" by code_simp
  ultimately show ?thesis by simp
qed

end
