(* ===== verification/Zfs_Types.thy ===== *)
theory Zfs_Types
  imports Go_Reflect
begin

text \<open>
  Model of \<^verbatim>\<open>ioctl/types.go\<close>, \<^verbatim>\<open>ioctl/types_most.go\<close> and \<^verbatim>\<open>ioctl/types_freebsd.go\<close>: the
  command structure \<^verbatim>\<open>zfs_cmd\<close> that is shared with the kernel, its parts, the ioctl numbers
  and the constants. Fields have the width of the source; a fixed-size array is a list whose
  length the well-formedness predicate \<open>wf_cmd\<close> states.
\<close>

section \<open>The command structure\<close>

record DMUObjectSetStats =
  dds_Num_clones :: uint64
  dds_Creation_txg :: uint64
  dds_Guid :: uint64
  dds_Type :: uint32
  dds_Is_snapshot :: byte
  dds_Inconsistent :: byte
  dds_Origin :: "byte list"
  dds_Pad_cgo_0 :: "byte list"

record ZInjectRecord =
  zi_Objset :: uint64
  zi_Object :: uint64
  zi_Start :: uint64
  zi_End :: uint64
  zi_Guid :: uint64
  zi_Level :: uint32
  zi_Error :: uint32
  zi_Type :: uint64
  zi_Freq :: uint32
  zi_Failfast :: uint32
  zi_Func :: "byte list"
  zi_Pad_cgo_0 :: "byte list"
  zi_Iotype :: uint32
  zi_Duration :: uint32
  zi_Timer :: uint64
  zi_Nlanes :: uint64
  zi_Cmd :: uint32
  zi_Pad :: uint32

record Share =
  sh_Exportdata :: uint64
  sh_Sharedata :: uint64
  sh_Sharetype :: uint64
  sh_Sharemax :: uint64

record Stat =
  st_Gen :: uint64
  st_Mode :: uint64
  st_Links :: uint64
  st_Ctime :: "uint64 list"

record DRRBegin =
  drr_Magic :: uint64
  drr_Versioninfo :: uint64
  drr_Creation_time :: uint64
  drr_Type :: uint32
  drr_Flags :: uint32
  drr_Toguid :: uint64
  drr_Fromguid :: uint64
  drr_Toname :: "byte list"
  drr_Pad_cgo_0 :: "byte list"

record Cmd =
  c_Name :: "byte list"
  c_Nvlist_src :: uint64
  c_Nvlist_src_size :: uint64
  c_Nvlist_dst :: uint64
  c_Nvlist_dst_size :: uint64
  c_Nvlist_dst_filled :: bool
  c_Pad_cgo_0 :: "byte list"
  c_Pad2 :: uint32
  c_History :: uint64
  c_Value :: "byte list"
  c_String :: "byte list"
  c_Guid :: uint64
  c_Nvlist_conf :: uint64
  c_Nvlist_conf_size :: uint64
  c_Cookie :: uint64
  c_Objset_type :: uint64
  c_Perm_action :: uint64
  c_History_len :: uint64
  c_History_offset :: uint64
  c_Obj :: uint64
  c_Iflags :: uint64
  c_Share :: Share
  c_Objset_stats :: DMUObjectSetStats
  c_Begin_record :: DRRBegin
  c_Inject_record :: ZInjectRecord
  c_Defer_destroy :: uint32
  c_Flags :: uint32
  c_Action_handle :: uint64
  c_Cleanup_fd :: uint32
  c_Simple :: byte
  c_Pad :: "byte list"
  c_Sendobj :: uint64
  c_Fromobj :: uint64
  c_Createtxg :: uint64
  c_Stat :: Stat

section \<open>Zero values\<close>

definition zero_stats :: DMUObjectSetStats where
  "zero_stats = \<lparr>dds_Num_clones = 0, dds_Creation_txg = 0, dds_Guid = 0, dds_Type = 0,
     dds_Is_snapshot = 0, dds_Inconsistent = 0, dds_Origin = replicate 256 0,
     dds_Pad_cgo_0 = replicate 2 0\<rparr>"

definition zero_inject :: ZInjectRecord where
  "zero_inject = \<lparr>zi_Objset = 0, zi_Object = 0, zi_Start = 0, zi_End = 0, zi_Guid = 0,
     zi_Level = 0, zi_Error = 0, zi_Type = 0, zi_Freq = 0, zi_Failfast = 0,
     zi_Func = replicate 255 0, zi_Pad_cgo_0 = replicate 1 0, zi_Iotype = 0, zi_Duration = 0,
     zi_Timer = 0, zi_Nlanes = 0, zi_Cmd = 0, zi_Pad = 0\<rparr>"

definition zero_begin :: DRRBegin where
  "zero_begin = \<lparr>drr_Magic = 0, drr_Versioninfo = 0, drr_Creation_time = 0, drr_Type = 0,
     drr_Flags = 0, drr_Toguid = 0, drr_Fromguid = 0, drr_Toname = replicate 255 0,
     drr_Pad_cgo_0 = replicate 1 0\<rparr>"

text \<open>\<^verbatim>\<open>Cmd{}\<close>\<close>

definition zero_cmd :: Cmd where
  "zero_cmd = \<lparr>c_Name = replicate 4096 0, c_Nvlist_src = 0, c_Nvlist_src_size = 0,
     c_Nvlist_dst = 0, c_Nvlist_dst_size = 0, c_Nvlist_dst_filled = False,
     c_Pad_cgo_0 = replicate 3 0, c_Pad2 = 0, c_History = 0, c_Value = replicate 8192 0,
     c_String = replicate 256 0, c_Guid = 0, c_Nvlist_conf = 0, c_Nvlist_conf_size = 0,
     c_Cookie = 0, c_Objset_type = 0, c_Perm_action = 0, c_History_len = 0,
     c_History_offset = 0, c_Obj = 0, c_Iflags = 0,
     c_Share = \<lparr>sh_Exportdata = 0, sh_Sharedata = 0, sh_Sharetype = 0, sh_Sharemax = 0\<rparr>,
     c_Objset_stats = zero_stats, c_Begin_record = zero_begin, c_Inject_record = zero_inject,
     c_Defer_destroy = 0, c_Flags = 0, c_Action_handle = 0, c_Cleanup_fd = 0, c_Simple = 0,
     c_Pad = replicate 3 0, c_Sendobj = 0, c_Fromobj = 0, c_Createtxg = 0,
     c_Stat = \<lparr>st_Gen = 0, st_Mode = 0, st_Links = 0, st_Ctime = replicate 2 0\<rparr>\<rparr>"

text \<open>The array lengths that Go's type of the structure fixes, for the arrays the code uses.\<close>

definition wf_cmd :: "Cmd \<Rightarrow> bool" where
  "wf_cmd c \<longleftrightarrow>
     length (c_Name c) = 4096 \<and> length (c_Value c) = 8192 \<and> length (c_String c) = 256 \<and>
     length (dds_Origin (c_Objset_stats c)) = 256"

section \<open>Ioctl numbers\<close>

type_synonym Ioctl = uint32

text \<open>The first number depends on the operating system: \<^verbatim>\<open>'Z' << 8\<close>, and 0 on FreeBSD.\<close>

datatype goos = FreeBSD | OtherOS

fun ZFS_IOC_FIRST :: "goos \<Rightarrow> Ioctl" where
  "ZFS_IOC_FIRST FreeBSD = 0"
| "ZFS_IOC_FIRST OtherOS = push_bit 8 0x5A"

definition ZFS_IOC_POOL_CREATE :: "Ioctl \<Rightarrow> Ioctl" where "ZFS_IOC_POOL_CREATE first = first + 0"
definition ZFS_IOC_POOL_DESTROY :: "Ioctl \<Rightarrow> Ioctl" where "ZFS_IOC_POOL_DESTROY first = first + 1"
definition ZFS_IOC_POOL_IMPORT :: "Ioctl \<Rightarrow> Ioctl" where "ZFS_IOC_POOL_IMPORT first = first + 2"
definition ZFS_IOC_POOL_EXPORT :: "Ioctl \<Rightarrow> Ioctl" where "ZFS_IOC_POOL_EXPORT first = first + 3"
definition ZFS_IOC_POOL_CONFIGS :: "Ioctl \<Rightarrow> Ioctl" where "ZFS_IOC_POOL_CONFIGS first = first + 4"
definition ZFS_IOC_POOL_STATS :: "Ioctl \<Rightarrow> Ioctl" where "ZFS_IOC_POOL_STATS first = first + 5"
definition ZFS_IOC_POOL_TRYIMPORT :: "Ioctl \<Rightarrow> Ioctl" where "ZFS_IOC_POOL_TRYIMPORT first = first + 6"
definition ZFS_IOC_POOL_SCAN :: "Ioctl \<Rightarrow> Ioctl" where "ZFS_IOC_POOL_SCAN first = first + 7"
definition ZFS_IOC_POOL_FREEZE :: "Ioctl \<Rightarrow> Ioctl" where "ZFS_IOC_POOL_FREEZE first = first + 8"
definition ZFS_IOC_POOL_UPGRADE :: "Ioctl \<Rightarrow> Ioctl" where "ZFS_IOC_POOL_UPGRADE first = first + 9"
definition ZFS_IOC_POOL_GET_HISTORY :: "Ioctl \<Rightarrow> Ioctl" where "ZFS_IOC_POOL_GET_HISTORY first = first + 10"
definition ZFS_IOC_VDEV_ADD :: "Ioctl \<Rightarrow> Ioctl" where "ZFS_IOC_VDEV_ADD first = first + 11"
definition ZFS_IOC_VDEV_REMOVE :: "Ioctl \<Rightarrow> Ioctl" where "ZFS_IOC_VDEV_REMOVE first = first + 12"
definition ZFS_IOC_VDEV_SET_STATE :: "Ioctl \<Rightarrow> Ioctl" where "ZFS_IOC_VDEV_SET_STATE first = first + 13"
definition ZFS_IOC_VDEV_ATTACH :: "Ioctl \<Rightarrow> Ioctl" where "ZFS_IOC_VDEV_ATTACH first = first + 14"
definition ZFS_IOC_VDEV_DETACH :: "Ioctl \<Rightarrow> Ioctl" where "ZFS_IOC_VDEV_DETACH first = first + 15"
definition ZFS_IOC_VDEV_SETPATH :: "Ioctl \<Rightarrow> Ioctl" where "ZFS_IOC_VDEV_SETPATH first = first + 16"
definition ZFS_IOC_VDEV_SETFRU :: "Ioctl \<Rightarrow> Ioctl" where "ZFS_IOC_VDEV_SETFRU first = first + 17"
definition ZFS_IOC_OBJSET_STATS :: "Ioctl \<Rightarrow> Ioctl" where "ZFS_IOC_OBJSET_STATS first = first + 18"
definition ZFS_IOC_OBJSET_ZPLPROPS :: "Ioctl \<Rightarrow> Ioctl" where "ZFS_IOC_OBJSET_ZPLPROPS first = first + 19"
definition ZFS_IOC_DATASET_LIST_NEXT :: "Ioctl \<Rightarrow> Ioctl" where "ZFS_IOC_DATASET_LIST_NEXT first = first + 20"
definition ZFS_IOC_SNAPSHOT_LIST_NEXT :: "Ioctl \<Rightarrow> Ioctl" where "ZFS_IOC_SNAPSHOT_LIST_NEXT first = first + 21"
definition ZFS_IOC_SET_PROP :: "Ioctl \<Rightarrow> Ioctl" where "ZFS_IOC_SET_PROP first = first + 22"
definition ZFS_IOC_CREATE :: "Ioctl \<Rightarrow> Ioctl" where "ZFS_IOC_CREATE first = first + 23"
definition ZFS_IOC_DESTROY :: "Ioctl \<Rightarrow> Ioctl" where "ZFS_IOC_DESTROY first = first + 24"
definition ZFS_IOC_ROLLBACK :: "Ioctl \<Rightarrow> Ioctl" where "ZFS_IOC_ROLLBACK first = first + 25"
definition ZFS_IOC_RENAME :: "Ioctl \<Rightarrow> Ioctl" where "ZFS_IOC_RENAME first = first + 26"
definition ZFS_IOC_RECV :: "Ioctl \<Rightarrow> Ioctl" where "ZFS_IOC_RECV first = first + 27"
definition ZFS_IOC_SEND :: "Ioctl \<Rightarrow> Ioctl" where "ZFS_IOC_SEND first = first + 28"
definition ZFS_IOC_INJECT_FAULT :: "Ioctl \<Rightarrow> Ioctl" where "ZFS_IOC_INJECT_FAULT first = first + 29"
definition ZFS_IOC_CLEAR_FAULT :: "Ioctl \<Rightarrow> Ioctl" where "ZFS_IOC_CLEAR_FAULT first = first + 30"
definition ZFS_IOC_INJECT_LIST_NEXT :: "Ioctl \<Rightarrow> Ioctl" where "ZFS_IOC_INJECT_LIST_NEXT first = first + 31"
definition ZFS_IOC_ERROR_LOG :: "Ioctl \<Rightarrow> Ioctl" where "ZFS_IOC_ERROR_LOG first = first + 32"
definition ZFS_IOC_CLEAR :: "Ioctl \<Rightarrow> Ioctl" where "ZFS_IOC_CLEAR first = first + 33"
definition ZFS_IOC_PROMOTE :: "Ioctl \<Rightarrow> Ioctl" where "ZFS_IOC_PROMOTE first = first + 34"
definition ZFS_IOC_SNAPSHOT :: "Ioctl \<Rightarrow> Ioctl" where "ZFS_IOC_SNAPSHOT first = first + 35"
definition ZFS_IOC_DSOBJ_TO_DSNAME :: "Ioctl \<Rightarrow> Ioctl" where "ZFS_IOC_DSOBJ_TO_DSNAME first = first + 36"
definition ZFS_IOC_OBJ_TO_PATH :: "Ioctl \<Rightarrow> Ioctl" where "ZFS_IOC_OBJ_TO_PATH first = first + 37"
definition ZFS_IOC_POOL_SET_PROPS :: "Ioctl \<Rightarrow> Ioctl" where "ZFS_IOC_POOL_SET_PROPS first = first + 38"
definition ZFS_IOC_POOL_GET_PROPS :: "Ioctl \<Rightarrow> Ioctl" where "ZFS_IOC_POOL_GET_PROPS first = first + 39"
definition ZFS_IOC_SET_FSACL :: "Ioctl \<Rightarrow> Ioctl" where "ZFS_IOC_SET_FSACL first = first + 40"
definition ZFS_IOC_GET_FSACL :: "Ioctl \<Rightarrow> Ioctl" where "ZFS_IOC_GET_FSACL first = first + 41"
definition ZFS_IOC_SHARE :: "Ioctl \<Rightarrow> Ioctl" where "ZFS_IOC_SHARE first = first + 42"
definition ZFS_IOC_INHERIT_PROP :: "Ioctl \<Rightarrow> Ioctl" where "ZFS_IOC_INHERIT_PROP first = first + 43"
definition ZFS_IOC_SMB_ACL :: "Ioctl \<Rightarrow> Ioctl" where "ZFS_IOC_SMB_ACL first = first + 44"
definition ZFS_IOC_USERSPACE_ONE :: "Ioctl \<Rightarrow> Ioctl" where "ZFS_IOC_USERSPACE_ONE first = first + 45"
definition ZFS_IOC_USERSPACE_MANY :: "Ioctl \<Rightarrow> Ioctl" where "ZFS_IOC_USERSPACE_MANY first = first + 46"
definition ZFS_IOC_USERSPACE_UPGRADE :: "Ioctl \<Rightarrow> Ioctl" where "ZFS_IOC_USERSPACE_UPGRADE first = first + 47"
definition ZFS_IOC_HOLD :: "Ioctl \<Rightarrow> Ioctl" where "ZFS_IOC_HOLD first = first + 48"
definition ZFS_IOC_RELEASE :: "Ioctl \<Rightarrow> Ioctl" where "ZFS_IOC_RELEASE first = first + 49"
definition ZFS_IOC_GET_HOLDS :: "Ioctl \<Rightarrow> Ioctl" where "ZFS_IOC_GET_HOLDS first = first + 50"
definition ZFS_IOC_OBJSET_RECVD_PROPS :: "Ioctl \<Rightarrow> Ioctl" where "ZFS_IOC_OBJSET_RECVD_PROPS first = first + 51"
definition ZFS_IOC_VDEV_SPLIT :: "Ioctl \<Rightarrow> Ioctl" where "ZFS_IOC_VDEV_SPLIT first = first + 52"
definition ZFS_IOC_NEXT_OBJ :: "Ioctl \<Rightarrow> Ioctl" where "ZFS_IOC_NEXT_OBJ first = first + 53"
definition ZFS_IOC_DIFF :: "Ioctl \<Rightarrow> Ioctl" where "ZFS_IOC_DIFF first = first + 54"
definition ZFS_IOC_TMP_SNAPSHOT :: "Ioctl \<Rightarrow> Ioctl" where "ZFS_IOC_TMP_SNAPSHOT first = first + 55"
definition ZFS_IOC_OBJ_TO_STATS :: "Ioctl \<Rightarrow> Ioctl" where "ZFS_IOC_OBJ_TO_STATS first = first + 56"
definition ZFS_IOC_SPACE_WRITTEN :: "Ioctl \<Rightarrow> Ioctl" where "ZFS_IOC_SPACE_WRITTEN first = first + 57"
definition ZFS_IOC_SPACE_SNAPS :: "Ioctl \<Rightarrow> Ioctl" where "ZFS_IOC_SPACE_SNAPS first = first + 58"
definition ZFS_IOC_DESTROY_SNAPS :: "Ioctl \<Rightarrow> Ioctl" where "ZFS_IOC_DESTROY_SNAPS first = first + 59"
definition ZFS_IOC_POOL_REGUID :: "Ioctl \<Rightarrow> Ioctl" where "ZFS_IOC_POOL_REGUID first = first + 60"
definition ZFS_IOC_POOL_REOPEN :: "Ioctl \<Rightarrow> Ioctl" where "ZFS_IOC_POOL_REOPEN first = first + 61"
definition ZFS_IOC_SEND_PROGRESS :: "Ioctl \<Rightarrow> Ioctl" where "ZFS_IOC_SEND_PROGRESS first = first + 62"
definition ZFS_IOC_LOG_HISTORY :: "Ioctl \<Rightarrow> Ioctl" where "ZFS_IOC_LOG_HISTORY first = first + 63"
definition ZFS_IOC_SEND_NEW :: "Ioctl \<Rightarrow> Ioctl" where "ZFS_IOC_SEND_NEW first = first + 64"
definition ZFS_IOC_SEND_SPACE :: "Ioctl \<Rightarrow> Ioctl" where "ZFS_IOC_SEND_SPACE first = first + 65"
definition ZFS_IOC_CLONE :: "Ioctl \<Rightarrow> Ioctl" where "ZFS_IOC_CLONE first = first + 66"
definition ZFS_IOC_BOOKMARK :: "Ioctl \<Rightarrow> Ioctl" where "ZFS_IOC_BOOKMARK first = first + 67"
definition ZFS_IOC_GET_BOOKMARKS :: "Ioctl \<Rightarrow> Ioctl" where "ZFS_IOC_GET_BOOKMARKS first = first + 68"
definition ZFS_IOC_DESTROY_BOOKMARKS :: "Ioctl \<Rightarrow> Ioctl" where "ZFS_IOC_DESTROY_BOOKMARKS first = first + 69"
definition ZFS_IOC_RECV_NEW :: "Ioctl \<Rightarrow> Ioctl" where "ZFS_IOC_RECV_NEW first = first + 70"
definition ZFS_IOC_POOL_SYNC :: "Ioctl \<Rightarrow> Ioctl" where "ZFS_IOC_POOL_SYNC first = first + 71"
definition ZFS_IOC_PLATFORM :: "Ioctl \<Rightarrow> Ioctl" where "ZFS_IOC_PLATFORM first = first + 0x80 + 0"
definition ZFS_IOC_EVENTS_NEXT :: "Ioctl \<Rightarrow> Ioctl" where "ZFS_IOC_EVENTS_NEXT first = first + 0x80 + 1"
definition ZFS_IOC_EVENTS_CLEAR :: "Ioctl \<Rightarrow> Ioctl" where "ZFS_IOC_EVENTS_CLEAR first = first + 0x80 + 2"
definition ZFS_IOC_EVENTS_SEEK :: "Ioctl \<Rightarrow> Ioctl" where "ZFS_IOC_EVENTS_SEEK first = first + 0x80 + 3"
definition ZFS_IOC_NEXTBOOT :: "Ioctl \<Rightarrow> Ioctl" where "ZFS_IOC_NEXTBOOT first = first + 0x80 + 4"
definition ZFS_IOC_JAIL :: "Ioctl \<Rightarrow> Ioctl" where "ZFS_IOC_JAIL first = first + 0x80 + 5"
definition ZFS_IOC_UNJAIL :: "Ioctl \<Rightarrow> Ioctl" where "ZFS_IOC_UNJAIL first = first + 0x80 + 6"
definition ZFS_IOC_SET_BOOTENV :: "Ioctl \<Rightarrow> Ioctl" where "ZFS_IOC_SET_BOOTENV first = first + 0x80 + 7"
definition ZFS_IOC_GET_BOOTENV :: "Ioctl \<Rightarrow> Ioctl" where "ZFS_IOC_GET_BOOTENV first = first + 0x80 + 8"
definition ZFS_IOC_LAST :: "Ioctl \<Rightarrow> Ioctl" where "ZFS_IOC_LAST first = first + 0x80 + 9"

definition core_ioctls :: "(Ioctl \<Rightarrow> Ioctl) list" where
  "core_ioctls =
    [ZFS_IOC_POOL_CREATE, ZFS_IOC_POOL_DESTROY, ZFS_IOC_POOL_IMPORT, ZFS_IOC_POOL_EXPORT,
     ZFS_IOC_POOL_CONFIGS, ZFS_IOC_POOL_STATS, ZFS_IOC_POOL_TRYIMPORT, ZFS_IOC_POOL_SCAN,
     ZFS_IOC_POOL_FREEZE, ZFS_IOC_POOL_UPGRADE, ZFS_IOC_POOL_GET_HISTORY, ZFS_IOC_VDEV_ADD,
     ZFS_IOC_VDEV_REMOVE, ZFS_IOC_VDEV_SET_STATE, ZFS_IOC_VDEV_ATTACH, ZFS_IOC_VDEV_DETACH,
     ZFS_IOC_VDEV_SETPATH, ZFS_IOC_VDEV_SETFRU, ZFS_IOC_OBJSET_STATS, ZFS_IOC_OBJSET_ZPLPROPS,
     ZFS_IOC_DATASET_LIST_NEXT, ZFS_IOC_SNAPSHOT_LIST_NEXT, ZFS_IOC_SET_PROP, ZFS_IOC_CREATE,
     ZFS_IOC_DESTROY, ZFS_IOC_ROLLBACK, ZFS_IOC_RENAME, ZFS_IOC_RECV, ZFS_IOC_SEND,
     ZFS_IOC_INJECT_FAULT, ZFS_IOC_CLEAR_FAULT, ZFS_IOC_INJECT_LIST_NEXT, ZFS_IOC_ERROR_LOG,
     ZFS_IOC_CLEAR, ZFS_IOC_PROMOTE, ZFS_IOC_SNAPSHOT, ZFS_IOC_DSOBJ_TO_DSNAME,
     ZFS_IOC_OBJ_TO_PATH, ZFS_IOC_POOL_SET_PROPS, ZFS_IOC_POOL_GET_PROPS, ZFS_IOC_SET_FSACL,
     ZFS_IOC_GET_FSACL, ZFS_IOC_SHARE, ZFS_IOC_INHERIT_PROP, ZFS_IOC_SMB_ACL,
     ZFS_IOC_USERSPACE_ONE, ZFS_IOC_USERSPACE_MANY, ZFS_IOC_USERSPACE_UPGRADE, ZFS_IOC_HOLD,
     ZFS_IOC_RELEASE, ZFS_IOC_GET_HOLDS, ZFS_IOC_OBJSET_RECVD_PROPS, ZFS_IOC_VDEV_SPLIT,
     ZFS_IOC_NEXT_OBJ, ZFS_IOC_DIFF, ZFS_IOC_TMP_SNAPSHOT, ZFS_IOC_OBJ_TO_STATS,
     ZFS_IOC_SPACE_WRITTEN, ZFS_IOC_SPACE_SNAPS, ZFS_IOC_DESTROY_SNAPS, ZFS_IOC_POOL_REGUID,
     ZFS_IOC_POOL_REOPEN, ZFS_IOC_SEND_PROGRESS, ZFS_IOC_LOG_HISTORY, ZFS_IOC_SEND_NEW,
     ZFS_IOC_SEND_SPACE, ZFS_IOC_CLONE, ZFS_IOC_BOOKMARK, ZFS_IOC_GET_BOOKMARKS,
     ZFS_IOC_DESTROY_BOOKMARKS, ZFS_IOC_RECV_NEW, ZFS_IOC_POOL_SYNC]"

definition platform_ioctls :: "(Ioctl \<Rightarrow> Ioctl) list" where
  "platform_ioctls =
    [ZFS_IOC_PLATFORM, ZFS_IOC_EVENTS_NEXT, ZFS_IOC_EVENTS_CLEAR, ZFS_IOC_EVENTS_SEEK,
     ZFS_IOC_NEXTBOOT, ZFS_IOC_JAIL, ZFS_IOC_UNJAIL, ZFS_IOC_SET_BOOTENV, ZFS_IOC_GET_BOOTENV,
     ZFS_IOC_LAST]"

lemmas ioctl_defs =
  ZFS_IOC_POOL_CREATE_def ZFS_IOC_POOL_DESTROY_def ZFS_IOC_POOL_IMPORT_def
  ZFS_IOC_POOL_EXPORT_def ZFS_IOC_POOL_CONFIGS_def ZFS_IOC_POOL_STATS_def
  ZFS_IOC_POOL_TRYIMPORT_def ZFS_IOC_POOL_SCAN_def ZFS_IOC_POOL_FREEZE_def
  ZFS_IOC_POOL_UPGRADE_def ZFS_IOC_POOL_GET_HISTORY_def ZFS_IOC_VDEV_ADD_def
  ZFS_IOC_VDEV_REMOVE_def ZFS_IOC_VDEV_SET_STATE_def ZFS_IOC_VDEV_ATTACH_def
  ZFS_IOC_VDEV_DETACH_def ZFS_IOC_VDEV_SETPATH_def ZFS_IOC_VDEV_SETFRU_def
  ZFS_IOC_OBJSET_STATS_def ZFS_IOC_OBJSET_ZPLPROPS_def ZFS_IOC_DATASET_LIST_NEXT_def
  ZFS_IOC_SNAPSHOT_LIST_NEXT_def ZFS_IOC_SET_PROP_def ZFS_IOC_CREATE_def ZFS_IOC_DESTROY_def
  ZFS_IOC_ROLLBACK_def ZFS_IOC_RENAME_def ZFS_IOC_RECV_def ZFS_IOC_SEND_def
  ZFS_IOC_INJECT_FAULT_def ZFS_IOC_CLEAR_FAULT_def ZFS_IOC_INJECT_LIST_NEXT_def
  ZFS_IOC_ERROR_LOG_def ZFS_IOC_CLEAR_def ZFS_IOC_PROMOTE_def ZFS_IOC_SNAPSHOT_def
  ZFS_IOC_DSOBJ_TO_DSNAME_def ZFS_IOC_OBJ_TO_PATH_def ZFS_IOC_POOL_SET_PROPS_def
  ZFS_IOC_POOL_GET_PROPS_def ZFS_IOC_SET_FSACL_def ZFS_IOC_GET_FSACL_def ZFS_IOC_SHARE_def
  ZFS_IOC_INHERIT_PROP_def ZFS_IOC_SMB_ACL_def ZFS_IOC_USERSPACE_ONE_def
  ZFS_IOC_USERSPACE_MANY_def ZFS_IOC_USERSPACE_UPGRADE_def ZFS_IOC_HOLD_def ZFS_IOC_RELEASE_def
  ZFS_IOC_GET_HOLDS_def ZFS_IOC_OBJSET_RECVD_PROPS_def ZFS_IOC_VDEV_SPLIT_def
  ZFS_IOC_NEXT_OBJ_def ZFS_IOC_DIFF_def ZFS_IOC_TMP_SNAPSHOT_def ZFS_IOC_OBJ_TO_STATS_def
  ZFS_IOC_SPACE_WRITTEN_def ZFS_IOC_SPACE_SNAPS_def ZFS_IOC_DESTROY_SNAPS_def
  ZFS_IOC_POOL_REGUID_def ZFS_IOC_POOL_REOPEN_def ZFS_IOC_SEND_PROGRESS_def
  ZFS_IOC_LOG_HISTORY_def ZFS_IOC_SEND_NEW_def ZFS_IOC_SEND_SPACE_def ZFS_IOC_CLONE_def
  ZFS_IOC_BOOKMARK_def ZFS_IOC_GET_BOOKMARKS_def ZFS_IOC_DESTROY_BOOKMARKS_def
  ZFS_IOC_RECV_NEW_def ZFS_IOC_POOL_SYNC_def ZFS_IOC_PLATFORM_def ZFS_IOC_EVENTS_NEXT_def
  ZFS_IOC_EVENTS_CLEAR_def ZFS_IOC_EVENTS_SEEK_def ZFS_IOC_NEXTBOOT_def ZFS_IOC_JAIL_def
  ZFS_IOC_UNJAIL_def ZFS_IOC_SET_BOOTENV_def ZFS_IOC_GET_BOOTENV_def ZFS_IOC_LAST_def

section \<open>Constants\<close>

type_synonym State = uint64
type_synonym FailMode = uint64
type_synonym ObjectType = uint32

definition StateUnknown :: State where "StateUnknown = 0"
definition StateClosed :: State where "StateClosed = 1"
definition StateOffline :: State where "StateOffline = 2"
definition StateRemoved :: State where "StateRemoved = 3"
definition StateCantOpen :: State where "StateCantOpen = 4"
definition StateFaulted :: State where "StateFaulted = 5"
definition StateDegraded :: State where "StateDegraded = 6"
definition StateHealthy :: State where "StateHealthy = 7"

definition FailWait :: FailMode where "FailWait = 0"
definition FailContinue :: FailMode where "FailContinue = 1"
definition FailPanic :: FailMode where "FailPanic = 2"

definition ObjectTypeNone :: ObjectType where "ObjectTypeNone = 0"
definition ObjectTypeMeta :: ObjectType where "ObjectTypeMeta = 1"
definition ObjectTypeZFS :: ObjectType where "ObjectTypeZFS = 2"
definition ObjectTypeZvol :: ObjectType where "ObjectTypeZvol = 3"
definition ObjectTypeOther :: ObjectType where "ObjectTypeOther = 4"
definition ObjectTypeAny :: ObjectType where "ObjectTypeAny = 5"
definition ObjectTypeNumtypes :: ObjectType where "ObjectTypeNumtypes = 6"

definition ErrorPropClearFailed :: uint64 where "ErrorPropClearFailed = 0x01"
definition ErrorPropRestoreFailed :: uint64 where "ErrorPropRestoreFailed = 0x02"

section \<open>Lemmas\<close>

lemma wf_zero_cmd [simp]: "wf_cmd zero_cmd"
  by (simp add: wf_cmd_def zero_cmd_def zero_stats_def)

text \<open>The numbers as offsets from the first one.\<close>

lemma ioctl_offsets:
  "map (\<lambda>f. f first) (core_ioctls @ platform_ioctls) =
     map (\<lambda>k. first + word_of_nat k) ([0..<72] @ [0x80..<0x8A])"
  by (simp add: core_ioctls_def platform_ioctls_def ioctl_defs upt_rec add.assoc)

lemma distinct_ioctls: "distinct (map (\<lambda>f. f first) (core_ioctls @ platform_ioctls))"
proof -
  have "inj_on (\<lambda>k. first + word_of_nat k :: uint32) (set ([0..<72] @ [0x80..<0x8A]))"
    by (auto simp: inj_on_def word_of_nat_eq_iff take_bit_nat_eq_self)
  then show ?thesis by (simp only: ioctl_offsets distinct_map) simp
qed

end
