(* ===== verification/Zfs_Ioctl.thy ===== *)
theory Zfs_Ioctl
  imports Zfs_Types Nv_Roundtrip
begin

text \<open>
  Model of \<^verbatim>\<open>ioctl/ioctl.go\<close> and of the buffer helpers of \<^verbatim>\<open>ioctl/wrappers.go\<close>. The kernel
  is a parameter: a function of the file descriptor, the ioctl number, the command structure,
  the buffers behind its three nvlist pointers and the kernel's own state. The addresses the
  Go runtime gives the buffers are a parameter too.
\<close>

section \<open>Delimited buffers\<close>

primrec delim_len :: "byte list \<Rightarrow> nat" where
  "delim_len [] = 0"
| "delim_len (b # buf) = (if b = 0x00 then 0 else Suc (delim_len buf))"

definition delimitedBufToString :: "byte list \<Rightarrow> string" where
  "delimitedBufToString buf = string_of_bytes (take (delim_len buf) buf)"

primrec copy_str :: "string \<Rightarrow> nat \<Rightarrow> byte list \<Rightarrow> unit res \<times> byte list" where
  "copy_str [] i buf = (Ok (), buf)"
| "copy_str (c # str) i buf =
     (if byte_of_char c = 0x00 then
        (Err (ErrText ''String contains null byte, this is unsupported by ZFS''), buf)
      else copy_str str (Suc i) (buf[i := byte_of_char c]))"

text \<open>The buffer is a slice of the caller's array, so what was copied before an error stays.\<close>

definition stringToDelimitedBuf :: "string \<Rightarrow> byte list \<Rightarrow> unit res \<times> byte list" where
  "stringToDelimitedBuf str buf =
     (if int (length str) > int (length buf) - 1 then
        (Err (ErrText ''String longer than target buffer''), buf)
      else copy_str str 0 buf)"

section \<open>The kernel and the runtime\<close>

definition ENOMEM :: uint64 where "ENOMEM = 12"
definition EPIPE :: uint64 where "EPIPE = 32"

record user_mem =
  um_src :: "byte list"
  um_dst :: "byte list"
  um_conf :: "byte list"

text \<open>The errno, the command structure as the kernel left it, the bytes written to the destination.\<close>

record ioctl_reply =
  rp_errno :: uint64
  rp_cmd :: Cmd
  rp_dst :: "byte list"

type_synonym 'k kernel = "uint64 \<Rightarrow> Ioctl \<Rightarrow> Cmd \<Rightarrow> user_mem \<Rightarrow> 'k \<Rightarrow> ioctl_reply \<times> 'k"

datatype nvbuf = SrcBuf | DstBuf | ConfBuf

type_synonym runtime = "nat \<Rightarrow> nvbuf \<Rightarrow> uint64"

text \<open>A write never changes the length of the destination.\<close>

definition copy_out :: "byte list \<Rightarrow> byte list \<Rightarrow> byte list" where
  "copy_out ws dst = take (length dst) ws @ drop (length ws) dst"

section \<open>NvlistIoctl\<close>

text \<open>The kernel, the caller's \<^verbatim>\<open>*cmd\<close> and the value \<^verbatim>\<open>response\<close> refers to, \<open>None\<close> for nil.\<close>

record 'k ioctl_call =
  k_kernel :: 'k
  k_cmd :: Cmd
  k_resp :: "gval option"

text \<open>\<^verbatim>\<open>&buf[0]\<close>\<close>

definition first_addr :: "uint64 \<Rightarrow> byte list \<Rightarrow> uint64 res" where
  "first_addr a buf = bind_res (go_index buf 0) (\<lambda>_. Ok a)"

definition put_dst :: "uint64 \<Rightarrow> byte list option \<Rightarrow> Cmd \<Rightarrow> Cmd res" where
  "put_dst a dst c =
     (case dst of None \<Rightarrow> Ok c
      | Some bs \<Rightarrow> bind_res (first_addr a bs) (\<lambda>p.
          Ok (c\<lparr>c_Nvlist_dst := p, c_Nvlist_dst_size := word_of_nat (length bs)\<rparr>)))"

definition put_src :: "uint64 \<Rightarrow> byte list option \<Rightarrow> Cmd \<Rightarrow> Cmd res" where
  "put_src a src c =
     (case src of None \<Rightarrow> Ok c
      | Some bs \<Rightarrow> bind_res (first_addr a bs) (\<lambda>p.
          Ok (c\<lparr>c_Nvlist_src := p, c_Nvlist_src_size := word_of_nat (length bs)\<rparr>)))"

definition put_conf :: "uint64 \<Rightarrow> gval option \<Rightarrow> Cmd \<Rightarrow> (Cmd \<times> byte list) res" where
  "put_conf a config c =
     (case config of None \<Rightarrow> Ok (c, [])
      | Some v \<Rightarrow> bind_res (Marshal v) (\<lambda>bs. bind_res (first_addr a bs) (\<lambda>p.
          Ok (c\<lparr>c_Nvlist_conf := p, c_Nvlist_conf_size := word_of_nat (length bs)\<rparr>, bs))))"

definition put_name :: "string \<Rightarrow> Cmd \<Rightarrow> Cmd" where
  "put_name name c = c\<lparr>c_Name := snd (stringToDelimitedBuf name (c_Name c))\<rparr>"

text \<open>The private copy of the command for attempt \<open>i\<close>, with the encoded configuration.\<close>

definition prepare_cmd ::
  "runtime \<Rightarrow> nat \<Rightarrow> string \<Rightarrow> byte list option \<Rightarrow> byte list option \<Rightarrow> gval option \<Rightarrow> Cmd \<Rightarrow>
   (Cmd \<times> byte list) res" where
  "prepare_cmd rt i name src dst config cmd =
     bind_res (put_dst (rt i DstBuf) dst cmd) (\<lambda>c.
       bind_res (put_src (rt i SrcBuf) src c) (\<lambda>c.
         bind_res (put_conf (rt i ConfBuf) config c) (\<lambda>(c, conf). Ok (put_name name c, conf))))"

text \<open>The length of \<^verbatim>\<open>dst\<close> in attempt \<open>i\<close>.\<close>

primrec dst_size :: "nat \<Rightarrow> nat" where
  "dst_size 0 = 8 * 1024"
| "dst_size (Suc i) = dst_size i * 8"

lemma dst_size_pow: "dst_size i = 8192 * 8 ^ i"
  by (induction i) simp_all

lemma dst_size_less: "int (dst_size i) < 16 * 1024 * 1024 \<Longrightarrow> i < 4"
proof (rule ccontr)
  assume less: "int (dst_size i) < 16 * 1024 * 1024" and "\<not> i < 4"
  then have "(8 :: int) ^ 4 \<le> 8 ^ i" by (intro power_increasing) simp_all
  then show False using less by (simp add: dst_size_pow)
qed

lemma dst_size_measure: "\<not> 16777216 \<le> dst_size i \<Longrightarrow> 4 - i < 5 - i"
  using dst_size_less [of i] by simp

function ioctl_loop ::
  "'k kernel \<Rightarrow> runtime \<Rightarrow> uint64 \<Rightarrow> Ioctl \<Rightarrow> string \<Rightarrow> byte list option \<Rightarrow> gval option \<Rightarrow> nat \<Rightarrow>
   ('k ioctl_call, byte list) comp" where
  "ioctl_loop K rt fd ioctl name src config i s =
     (let dst = replicate (dst_size i) 0;
          out = (if k_resp s = None then None else Some dst)
      in case prepare_cmd rt i name src out config (k_cmd s) of
           Ok (privateCmd, conf) \<Rightarrow>
             (case K fd ioctl privateCmd
                 \<lparr>um_src = (case src of None \<Rightarrow> [] | Some bs \<Rightarrow> bs),
                  um_dst = (case out of None \<Rightarrow> [] | Some bs \<Rightarrow> bs), um_conf = conf\<rparr> (k_kernel s) of
                (reply, k') \<Rightarrow>
                  let s' = s\<lparr>k_kernel := k'\<rparr> in
                  if rp_errno reply = ENOMEM then
                    if int (dst_size i) \<ge> 16 * 1024 * 1024 then
                      (Err (ErrText ''return buffer is bigger than 16MiB, something probably went wrong''), s')
                    else ioctl_loop K rt fd ioctl name src config (Suc i) s'
                  else
                    let s'' = s'\<lparr>k_cmd := rp_cmd reply\<rparr> in
                    if rp_errno reply \<noteq> 0 then (Err (Errno (rp_errno reply)), s'')
                    else (Ok (copy_out (rp_dst reply) dst), s''))
         | Err e \<Rightarrow> (Err e, s) | Panic p \<Rightarrow> (Panic p, s) | Diverge \<Rightarrow> (Diverge, s))"
  by pat_completeness auto
termination
  by (relation "measure (\<lambda>(K, rt, fd, ioctl, name, src, config, i, s). 5 - i)")
    (auto intro: dst_size_measure)

declare ioctl_loop.simps [simp del]

definition NvlistIoctl ::
  "'k kernel \<Rightarrow> runtime \<Rightarrow> uint64 \<Rightarrow> Ioctl \<Rightarrow> string \<Rightarrow> gval option \<Rightarrow> gval option \<Rightarrow>
   ('k ioctl_call, unit) comp" where
  "NvlistIoctl K rt fd ioctl name request config s =
     (case (case request of None \<Rightarrow> Ok None | Some v \<Rightarrow> bind_res (Marshal v) (\<lambda>bs. Ok (Some bs))) of
        Ok src \<Rightarrow>
          bind_comp (ioctl_loop K rt fd ioctl name src config 0) (\<lambda>dst s'.
            case k_resp s' of
              None \<Rightarrow> (Ok (), s')
            | Some v \<Rightarrow> (case Unmarshal dst v of (x, v') \<Rightarrow> (x, s'\<lparr>k_resp := Some v'\<rparr>))) s
      | Err e \<Rightarrow> (Err e, s) | Panic p \<Rightarrow> (Panic p, s) | Diverge \<Rightarrow> (Diverge, s))"

section \<open>Lemmas\<close>

lemma copy_str_result:
  "nul_free str \<Longrightarrow> i + length str \<le> length buf \<Longrightarrow>
   copy_str str i buf = (Ok (), take i buf @ bytes_of_string str @ drop (i + length str) buf)"
proof (induction str arbitrary: i buf)
  case Nil
  then show ?case by simp
next
  case (Cons c str)
  then have "copy_str str (Suc i) (buf[i := byte_of_char c]) =
      (Ok (), take (Suc i) (buf[i := byte_of_char c]) @ bytes_of_string str @
        drop (Suc i + length str) (buf[i := byte_of_char c]))" by simp
  then show ?case using Cons.prems by (simp add: take_Suc_conv_app_nth)
qed

lemma length_copy_str [simp]: "length (snd (copy_str str i buf)) = length buf"
  by (induction str arbitrary: i buf) simp_all

lemma length_stringToDelimitedBuf [simp]: "length (snd (stringToDelimitedBuf str buf)) = length buf"
  by (simp add: stringToDelimitedBuf_def)

lemma stringToDelimitedBuf_result:
  "nul_free str \<Longrightarrow> length str < length buf \<Longrightarrow>
   stringToDelimitedBuf str buf = (Ok (), bytes_of_string str @ drop (length str) buf)"
  using copy_str_result [of str 0 buf] by (simp add: stringToDelimitedBuf_def)

lemma delim_len_append:
  "nul_free str \<Longrightarrow> delim_len (bytes_of_string str @ 0 # rest) = length str"
  by (induction str) simp_all

lemma delimitedBufToString_cstring:
  "nul_free str \<Longrightarrow> delimitedBufToString (bytes_of_string str @ 0 # rest) = str"
  by (simp add: delimitedBufToString_def delim_len_append comp_def)

lemma delimited_roundtrip:
  assumes "nul_free str" and "length str < length buf" and "buf ! length str = 0"
  shows "fst (stringToDelimitedBuf str buf) = Ok ()"
    and "delimitedBufToString (snd (stringToDelimitedBuf str buf)) = str"
proof -
  have "drop (length str) buf = 0 # drop (Suc (length str)) buf"
    using assms(2,3) by (metis Cons_nth_drop_Suc)
  then show "delimitedBufToString (snd (stringToDelimitedBuf str buf)) = str"
    using assms by (simp add: stringToDelimitedBuf_result delimitedBufToString_cstring)
qed (use assms in \<open>simp add: stringToDelimitedBuf_result\<close>)

lemma dst_size_pos [simp]: "0 < dst_size i"
  by (simp add: dst_size_pow)

lemma length_copy_out [simp]: "length (copy_out ws dst) = length dst"
  by (simp add: copy_out_def)

lemma copy_out_fits: "length ws \<le> length dst \<Longrightarrow> copy_out ws dst = ws @ drop (length ws) dst"
  by (simp add: copy_out_def)

end
