(* ===== verification/Zfs_Wrappers.thy ===== *)
theory Zfs_Wrappers
  imports Zfs_Ioctl
begin

text \<open>
  Model of the wrappers of \<^verbatim>\<open>ioctl/wrappers.go\<close> around \<^verbatim>\<open>NvlistIoctl\<close>, all but the two
  streams: the struct types with their tags, the package's handle, and one definition per
  exported function. A wrapper takes the system (kernel, runtime, platform, handle) and the
  kernel's state. A function that returns a value and an error has both in its result.
\<close>

section \<open>Types\<close>

definition TPropWithSource :: gotype where
  "TPropWithSource = TNamed ''PropWithSource'' (TStruct
     [(''Value'', ''value'', TIface), (''Source'', ''source'', TString)])"

definition TDatasetPropsWithSource :: gotype where
  "TDatasetPropsWithSource = TNamed ''DatasetPropsWithSource'' (TMap TString TPropWithSource)"

definition TDatasetProps :: gotype where
  "TDatasetProps = TNamed ''DatasetProps'' TAnyMap"

definition TFilesystemProps :: gotype where
  "TFilesystemProps = TNamed ''FilesystemProps'' (TStruct
     [(''SnapshotDirectoryEnabled'', ''snapdir,asuint64'', TBool),
      (''ACLInheritancePolicy'', ''aclinherit,omitempty,default=4'', TNamed ''ACLInheritancePolicy'' TUint64),
      (''DNodeSize'', ''dnodesize,omitempty'', TNamed ''DNodeSize'' TUint64),
      (''Atime'', ''atime,default=true'', TBool),
      (''RelativeAtime'', ''relatime'', TBool),
      (''Zoned'', ''zoned'', TBool),
      (''VirusScan'', ''vscan'', TBool),
      (''Overlay'', ''overlay'', TBool),
      (''CanMount'', ''canmount,default=true'', TNamed ''CanMount'' TUint64),
      (''Mounted'', ''mounted'', TBool),
      (''Mountpoint'', ''mountpoint'', TString)])"

definition TVolumeProps :: gotype where
  "TVolumeProps = TNamed ''VolumeProps'' (TStruct [])"

abbreviation "TState \<equiv> TNamed ''State'' TUint64"
abbreviation "TFailMode \<equiv> TNamed ''FailMode'' TUint64"
abbreviation "TObjectType \<equiv> TNamed ''ObjectType'' TInt32"

definition TPoolProps :: gotype where
  "TPoolProps = TNamed ''PoolProps'' (TStruct
     [(''Name'', ''name,omitempty'', TString),
      (''Version'', ''version,omitempty'', TUint64),
      (''Comment'', ''comment,omitempty'', TString),
      (''AlternativeRoot'', ''altroot,omitempty'', TString),
      (''TemporaryName'', ''tname,omitempty'', TString),
      (''BootFS'', ''bootfs,omitempty'', TString),
      (''CacheFile'', ''cachefile,omitempty'', TString),
      (''ReadOnly'', ''readonly,omitempty'', TBool),
      (''Multihost'', ''multihost,omitempty'', TBool),
      (''Failmode'', ''failmode,omitempty'', TFailMode),
      (''DedupDitto'', ''dedupditto,omitempty'', TUint64),
      (''AlignmentShift'', ''ashift,omitempty'', TUint64),
      (''Delegation'', ''delegation,omitempty'', TBool),
      (''Autoreplace'', ''autoreplace,omitempty'', TBool),
      (''ListSnapshots'', ''listsnapshots,omitempty'', TBool),
      (''Autoexpand'', ''autoexpand,omitempty'', TBool),
      (''MaxBlockSize'', ''maxblocksize,omitempty'', TUint64),
      (''MaxDnodeSize'', ''maxdnodesize,omitempty'', TUint64),
      (''RootProps'', ''root-props-nvl,omitempty'', TPtr TDatasetProps),
      (''User'', ''-,extra,omitempty'', TMap TString TString),
      (''Size'', ''size,ro'', TUint64),
      (''Free'', ''free,ro'', TUint64),
      (''Freeing'', ''freeing,ro'', TUint64),
      (''Leaked'', ''leaked,ro'', TUint64),
      (''Allocated'', ''allocated,ro'', TUint64),
      (''ExpandSize'', ''expandsize,ro'', TUint64),
      (''Fragmentation'', ''fragmentation,ro'', TUint64),
      (''Capacity'', ''capacity,ro'', TUint64),
      (''GUID'', ''guid,ro'', TUint64),
      (''Health'', ''health,ro'', TState),
      (''DedupRatio'', ''dedupratio,ro'', TUint64)])"

abbreviation "TVDevSlice \<equiv> TSlice (TRec ''VDev'' KStruct)"

definition TVDev :: gotype where
  "TVDev = TNamed ''VDev'' (TStruct
     [(''IsLog'', ''is_log'', TUint64),
      (''DTL'', ''DTL,omitempty'', TUint64),
      (''AlignmentShift'', ''ashift,omitempty'', TUint64),
      (''AllocatableCapacity'', ''asize,omitempty'', TUint64),
      (''GUID'', ''guid,omitempty'', TUint64),
      (''ID'', ''id,omitempty'', TUint64),
      (''Path'', ''path'', TString),
      (''Type'', ''type'', TString),
      (''Children'', ''children,omitempty'', TVDevSlice),
      (''L2CacheChildren'', ''l2cache,omitempty'', TVDevSlice),
      (''SparesChildren'', ''spares,omitempty'', TVDevSlice)])"

definition TPoolConfig :: gotype where
  "TPoolConfig = TNamed ''PoolConfig'' (TStruct
     [(''Version'', ''version,omitempty'', TUint64),
      (''Name'', ''name,omitempty'', TString),
      (''State'', ''state,omitempty'', TUint64),
      (''TXG'', ''txg,omitempty'', TUint64),
      (''GUID'', ''pool_guid,omitempty'', TUint64),
      (''Errata'', ''errata,omitempty'', TUint64),
      (''Hostname'', ''hostname,omitempty'', TString),
      (''NumberOfChildren'', ''vdev_children'', TUint64),
      (''VDevTree'', ''vdev_tree'', TPtr TVDev),
      (''HostID'', ''hostid,omitempty'', TUint64),
      (''FeaturesForRead'', ''features_for_read'', TMap TString TBool)])"

text \<open>A \<^verbatim>\<open>VDev\<close> with its fields in the order of the source, and the Go value it is.\<close>

datatype VDev = VDev
  (vd_IsLog: uint64) (vd_DTL: uint64) (vd_AlignmentShift: uint64)
  (vd_AllocatableCapacity: uint64) (vd_GUID: uint64) (vd_ID: uint64)
  (vd_Path: string) (vd_Type: string)
  (vd_Children: "VDev list") (vd_L2CacheChildren: "VDev list") (vd_SparesChildren: "VDev list")

fun vdev_val :: "VDev \<Rightarrow> gval" where
  "vdev_val (VDev isLog dtl ashift asize guid ident path type children l2cache spares) =
     VStruct TVDev
       [VNum TUint64 isLog, VNum TUint64 dtl, VNum TUint64 ashift, VNum TUint64 asize,
        VNum TUint64 guid, VNum TUint64 ident, VString TString path, VString TString type,
        VSlice TVDevSlice (map vdev_val children), VSlice TVDevSlice (map vdev_val l2cache),
        VSlice TVDevSlice (map vdev_val spares)]"

text \<open>A Go map, \<open>None\<close> when nil, and the pointer to one.\<close>

type_synonym 'v go_map = "(string \<times> 'v) list option"

definition dataset_props_ptr :: "gval go_map option \<Rightarrow> gval" where
  "dataset_props_ptr p = VPtr (TPtr TDatasetProps) (map_option (VMap TDatasetProps) p)"

definition map_val :: "gotype \<Rightarrow> ('v \<Rightarrow> gval) \<Rightarrow> 'v go_map \<Rightarrow> gval" where
  "map_val T f m = VMap (TMap TString T) (map_option (map (\<lambda>(k, v). (k, f v))) m)"

text \<open>\<^verbatim>\<open>make(map[string]T)\<close>\<close>

abbreviation make_map :: "gotype \<Rightarrow> gval" where
  "make_map T \<equiv> VMap (TMap TString T) (Some [])"

section \<open>The system\<close>

record 'k zfs =
  z_kernel :: "'k kernel"
  z_runtime :: runtime
  z_os :: goos
  z_handle :: "uint64 option"

text \<open>\<^verbatim>\<open>zfsHandle.Fd()\<close>, which on a nil file is the largest number.\<close>

definition zfs_Fd :: "'k zfs \<Rightarrow> uint64" where
  "zfs_Fd z = (case z_handle z of Some fd \<Rightarrow> fd | None \<Rightarrow> -1)"

text \<open>
  \<^verbatim>\<open>Init\<close> over the file system: \<open>open_f\<close> is \<^verbatim>\<open>os.Open\<close>, with an errno when it fails,
  \<open>mknod\<close> is \<^verbatim>\<open>unix.Mknod\<close> of a path, mode and device, whose result is dropped, and \<open>mkdev\<close>
  is \<^verbatim>\<open>unix.Mkdev\<close>. The result holds the new value of \<^verbatim>\<open>zfsHandle\<close>.
\<close>

definition ENOENT :: uint64 where "ENOENT = 2"

definition Init ::
  "(string \<Rightarrow> 'f \<Rightarrow> (uint64 + uint64) \<times> 'f) \<Rightarrow> (string \<Rightarrow> uint32 \<Rightarrow> uint64 \<Rightarrow> 'f \<Rightarrow> 'f) \<Rightarrow>
   (uint32 \<Rightarrow> uint32 \<Rightarrow> uint64) \<Rightarrow> string \<Rightarrow> 'f \<Rightarrow> unit res \<times> uint64 option \<times> 'f" where
  "Init open_f mknod mkdev nodePath f =
     (let nodePath = (if nodePath = '''' then ''/dev/zfs'' else nodePath) in
      case open_f nodePath f of (first, f1) \<Rightarrow>
        let f2 = (if first = Inl ENOENT then mknod nodePath 666 (mkdev 10 54) f1 else f1) in
        case open_f nodePath f2 of
          (Inr fd, f3) \<Rightarrow> (Ok (), Some fd, f3)
        | (Inl e, f3) \<Rightarrow> (Err (ErrText ''Failed to open or create ZFS device node''), None, f3))"

definition issue ::
  "'k zfs \<Rightarrow> (Ioctl \<Rightarrow> Ioctl) \<Rightarrow> string \<Rightarrow> Cmd \<Rightarrow> gval option \<Rightarrow> gval option \<Rightarrow> gval option \<Rightarrow> 'k \<Rightarrow>
   unit res \<times> 'k ioctl_call" where
  "issue z ioctl name cmd request response config k =
     NvlistIoctl (z_kernel z) (z_runtime z) (zfs_Fd z) (ioctl (ZFS_IOC_FIRST (z_os z))) name
       request config \<lparr>k_kernel = k, k_cmd = cmd, k_resp = response\<rparr>"

text \<open>What a wrapper does after the call, given the error and the command and response.\<close>

definition after ::
  "unit res \<times> 'k ioctl_call \<Rightarrow> (goerror option \<Rightarrow> 'k ioctl_call \<Rightarrow> 'a res) \<Rightarrow> 'a res \<times> 'k" where
  "after r f =
     (case r of
        (Ok _, s) \<Rightarrow> (f None s, k_kernel s)
      | (Err e, s) \<Rightarrow> (f (Some e) s, k_kernel s)
      | (Panic p, s) \<Rightarrow> (Panic p, k_kernel s)
      | (Diverge, s) \<Rightarrow> (Diverge, k_kernel s))"

text \<open>\<^verbatim>\<open>return NvlistIoctl(...)\<close>\<close>

definition only_err :: "unit res \<times> 'k ioctl_call \<Rightarrow> unit res \<times> 'k" where
  "only_err r = (fst r, k_kernel (snd r))"

definition resp_val :: "'k ioctl_call \<Rightarrow> gval" where
  "resp_val s = (case k_resp s of Some v \<Rightarrow> v | None \<Rightarrow> VInvalid)"

section \<open>Listing\<close>

definition DatasetListNext ::
  "'k zfs \<Rightarrow> string \<Rightarrow> uint64 \<Rightarrow> 'k \<Rightarrow>
   (string \<times> uint64 \<times> DMUObjectSetStats \<times> gval \<times> goerror option) res \<times> 'k" where
  "DatasetListNext z name cursor k =
     after (issue z ZFS_IOC_DATASET_LIST_NEXT name (zero_cmd\<lparr>c_Cookie := cursor\<rparr>) None
              (Some (VMap TDatasetPropsWithSource (Some []))) None k)
       (\<lambda>err s. case err of
          Some e \<Rightarrow> Ok ('''', 0, zero_stats, resp_val s, Some e)
        | None \<Rightarrow> Ok (delimitedBufToString (c_Name (k_cmd s)), c_Cookie (k_cmd s),
            c_Objset_stats (k_cmd s), resp_val s, None))"

text \<open>\<^verbatim>\<open>props\<close> is an interface; \<open>None\<close> for nil. The value it refers to afterwards is returned too.\<close>

definition SnapshotListNext ::
  "'k zfs \<Rightarrow> string \<Rightarrow> uint64 \<Rightarrow> gval option \<Rightarrow> 'k \<Rightarrow>
   (string \<times> uint64 \<times> DMUObjectSetStats \<times> gval option \<times> goerror option) res \<times> 'k" where
  "SnapshotListNext z name cursor props k =
     after (issue z ZFS_IOC_SNAPSHOT_LIST_NEXT name (zero_cmd\<lparr>c_Cookie := cursor\<rparr>) None props None k)
       (\<lambda>err s. case err of
          Some e \<Rightarrow> Ok ('''', 0, zero_stats, k_resp s, Some e)
        | None \<Rightarrow> Ok (delimitedBufToString (c_Name (k_cmd s)), c_Cookie (k_cmd s),
            c_Objset_stats (k_cmd s), k_resp s, None))"

section \<open>Pools\<close>

definition PoolCreate :: "'k zfs \<Rightarrow> string \<Rightarrow> uint64 go_map \<Rightarrow> VDev \<Rightarrow> 'k \<Rightarrow> unit res \<times> 'k" where
  "PoolCreate z name features config k =
     only_err (issue z ZFS_IOC_POOL_CREATE name zero_cmd
       (Some (map_val TUint64 (VNum TUint64) features)) None (Some (vdev_val config)) k)"

definition PoolDestroy :: "'k zfs \<Rightarrow> string \<Rightarrow> 'k \<Rightarrow> unit res \<times> 'k" where
  "PoolDestroy z name k = only_err (issue z ZFS_IOC_POOL_DESTROY name zero_cmd None None None k)"

definition PoolConfigs :: "'k zfs \<Rightarrow> 'k \<Rightarrow> (gval \<times> goerror option) res \<times> 'k" where
  "PoolConfigs z k =
     after (issue z ZFS_IOC_POOL_CONFIGS '''' zero_cmd None (Some (make_map TIface)) None k)
       (\<lambda>err s. Ok (resp_val s, err))"

definition PoolStats :: "'k zfs \<Rightarrow> string \<Rightarrow> 'k \<Rightarrow> (gval \<times> goerror option) res \<times> 'k" where
  "PoolStats z name k =
     after (issue z ZFS_IOC_POOL_STATS name zero_cmd None (Some (make_map TIface)) None k)
       (\<lambda>err s. case err of
          Some e \<Rightarrow> Ok (VMap TAnyMap None, Some e)
        | None \<Rightarrow> if c_Cookie (k_cmd s) \<noteq> 0 then Ok (VMap TAnyMap None, Some (Errno (c_Cookie (k_cmd s))))
                  else Ok (resp_val s, None))"

text \<open>\<^verbatim>\<open>config["pool_guid"].(uint64)\<close>\<close>

definition pool_guid :: "gval go_map \<Rightarrow> uint64 res" where
  "pool_guid config =
     (case map_of (case config of None \<Rightarrow> [] | Some es \<Rightarrow> es) ''pool_guid'' of
        Some (VIface (Some (VNum T w))) \<Rightarrow> if T = TUint64 then Ok w else Panic FailedTypeAssertion
      | _ \<Rightarrow> Panic FailedTypeAssertion)"

definition PoolImport ::
  "'k zfs \<Rightarrow> string \<Rightarrow> gval go_map \<Rightarrow> gval go_map \<Rightarrow> 'k \<Rightarrow> (gval \<times> goerror option) res \<times> 'k" where
  "PoolImport z name config props k =
     (case pool_guid config of
        Ok guid \<Rightarrow>
          after (issue z ZFS_IOC_POOL_IMPORT name (zero_cmd\<lparr>c_Guid := guid\<rparr>) (Some (VMap TAnyMap props))
                   (Some (make_map TIface)) (Some (VMap TAnyMap config)) k)
            (\<lambda>err s. if c_Cookie (k_cmd s) \<noteq> 0
                     then Ok (VMap TAnyMap None, Some (Errno (c_Cookie (k_cmd s))))
                     else Ok (resp_val s, err))
      | Err e \<Rightarrow> (Err e, k) | Panic p \<Rightarrow> (Panic p, k) | Diverge \<Rightarrow> (Diverge, k))"

definition PoolExport :: "'k zfs \<Rightarrow> string \<Rightarrow> bool \<Rightarrow> bool \<Rightarrow> 'k \<Rightarrow> unit res \<times> 'k" where
  "PoolExport z name force hardForce k =
     (let cmd = zero_cmd;
          cmd = (if force then cmd\<lparr>c_Cookie := 1\<rparr> else cmd);
          cmd = (if hardForce then cmd\<lparr>c_Guid := 1\<rparr> else cmd)
      in only_err (issue z ZFS_IOC_POOL_EXPORT name cmd None None None k))"

section \<open>Datasets\<close>

definition Promote :: "'k zfs \<Rightarrow> string \<Rightarrow> 'k \<Rightarrow> (string \<times> goerror option) res \<times> 'k" where
  "Promote z name k =
     after (issue z ZFS_IOC_PROMOTE name zero_cmd None None None k)
       (\<lambda>err s. Ok (delimitedBufToString (c_String (k_cmd s)), err))"

definition cloneReq :: "string \<Rightarrow> gval go_map option \<Rightarrow> gval" where
  "cloneReq origin props = VStruct (TStruct
     [(''Origin'', ''origin'', TString), (''Props'', ''props'', TPtr TDatasetProps)])
     [VString TString origin, dataset_props_ptr props]"

definition Clone ::
  "'k zfs \<Rightarrow> string \<Rightarrow> string \<Rightarrow> gval go_map option \<Rightarrow> 'k \<Rightarrow> unit res \<times> 'k" where
  "Clone z origin name props k =
     only_err (issue z ZFS_IOC_CLONE name zero_cmd (Some (cloneReq origin props))
       (Some (make_map TInt32)) None k)"

definition createReq :: "ObjectType \<Rightarrow> gval go_map option \<Rightarrow> gval" where
  "createReq t props = VStruct (TStruct
     [(''Type'', ''type'', TObjectType), (''Props'', ''props'', TPtr TDatasetProps)])
     [VNum TObjectType (ucast t), dataset_props_ptr props]"

definition Create ::
  "'k zfs \<Rightarrow> string \<Rightarrow> ObjectType \<Rightarrow> gval go_map option \<Rightarrow> 'k \<Rightarrow> unit res \<times> 'k" where
  "Create z name t props k =
     only_err (issue z ZFS_IOC_CREATE name zero_cmd (Some (createReq t props))
       (Some (make_map TInt32)) None k)"

text \<open>The loop that builds the set of snapshot names.\<close>

fun snap_set :: "string list \<Rightarrow> (string \<times> gval) list \<Rightarrow> (string \<times> gval) list res" where
  "snap_set [] snaps = Ok snaps"
| "snap_set (name # names) snaps =
     (if map_of snaps name \<noteq> None then Err (ErrText ''duplicate snapshot name'')
      else snap_set names (alist_set name (VBool TBool True) snaps))"

definition snapReq :: "(string \<times> gval) list \<Rightarrow> gval go_map option \<Rightarrow> gval" where
  "snapReq snaps props = VStruct (TStruct
     [(''Snaps'', ''snaps'', TMap TString TBool), (''Props'', ''props'', TPtr TDatasetProps)])
     [VMap (TMap TString TBool) (Some snaps), dataset_props_ptr props]"

definition Snapshot ::
  "'k zfs \<Rightarrow> string list \<Rightarrow> string \<Rightarrow> gval go_map option \<Rightarrow> 'k \<Rightarrow> unit res \<times> 'k" where
  "Snapshot z names pool props k =
     (case snap_set names [] of
        Ok snaps \<Rightarrow> only_err (issue z ZFS_IOC_SNAPSHOT pool zero_cmd (Some (snapReq snaps props))
                     (Some (make_map TInt32)) None k)
      | Err e \<Rightarrow> (Err e, k) | Panic p \<Rightarrow> (Panic p, k) | Diverge \<Rightarrow> (Diverge, k))"

definition destroySnapReq :: "(string \<times> gval) list \<Rightarrow> bool \<Rightarrow> gval" where
  "destroySnapReq snaps deferred = VStruct (TStruct
     [(''Snaps'', ''snaps'', TMap TString TBool), (''Defer'', ''defer'', TBool)])
     [VMap (TMap TString TBool) (Some snaps), VBool TBool deferred]"

definition DestroySnapshots :: "'k zfs \<Rightarrow> string list \<Rightarrow> string \<Rightarrow> bool \<Rightarrow> 'k \<Rightarrow> unit res \<times> 'k" where
  "DestroySnapshots z names pool deferred k =
     (case snap_set names [] of
        Ok snaps \<Rightarrow> only_err (issue z ZFS_IOC_CLONE pool zero_cmd (Some (destroySnapReq snaps deferred))
                     (Some (make_map TInt32)) None k)
      | Err e \<Rightarrow> (Err e, k) | Panic p \<Rightarrow> (Panic p, k) | Diverge \<Rightarrow> (Diverge, k))"

definition Bookmark :: "'k zfs \<Rightarrow> string go_map \<Rightarrow> 'k \<Rightarrow> unit res \<times> 'k" where
  "Bookmark z snapshotsToBookmarks k =
     only_err (issue z ZFS_IOC_BOOKMARK '''' zero_cmd
       (Some (map_val TString (VString TString) snapshotsToBookmarks)) (Some (make_map TInt32)) None k)"

text \<open>
  The response is passed by value, so what is decoded goes to a copy and the target returned is
  the one of the caller's variable.
\<close>

definition rollbackReq :: "string \<Rightarrow> gval" where
  "rollbackReq target = VStruct (TStruct [(''Target'', ''target,omitempty'', TString)])
     [VString TString target]"

definition rollbackRes :: gval where
  "rollbackRes = VStruct (TStruct [(''Target'', ''target'', TString)]) [VString TString '''']"

definition rollback_target :: "gval \<Rightarrow> string" where
  "rollback_target v = (case v of VStruct T (x # _) \<Rightarrow> val_string x | _ \<Rightarrow> '''')"

definition Rollback :: "'k zfs \<Rightarrow> string \<Rightarrow> string \<Rightarrow> 'k \<Rightarrow> (string \<times> goerror option) res \<times> 'k" where
  "Rollback z name target k =
     (let res = rollbackRes in
      after (issue z ZFS_IOC_ROLLBACK name zero_cmd (Some (rollbackReq target)) (Some res) None k)
        (\<lambda>err s. Ok (rollback_target res, err)))"

section \<open>Properties of datasets\<close>

type_synonym PropSource = uint64

definition PropSourceNone :: PropSource where "PropSourceNone = 1"
definition PropSourceDefault :: PropSource where "PropSourceDefault = 2"
definition PropSourceTemporary :: PropSource where "PropSourceTemporary = 4"
definition PropSourceLocal :: PropSource where "PropSourceLocal = 8"
definition PropSourceInherited :: PropSource where "PropSourceInherited = 16"
definition PropSourceReceived :: PropSource where "PropSourceReceived = 32"

definition SetProp :: "'k zfs \<Rightarrow> string \<Rightarrow> gval go_map \<Rightarrow> PropSource \<Rightarrow> 'k \<Rightarrow> unit res \<times> 'k" where
  "SetProp z name props source k =
     only_err (issue z ZFS_IOC_SET_PROP name (zero_cmd\<lparr>c_Cookie := source\<rparr>)
       (Some (VMap TAnyMap props)) (Some (make_map TInt64)) None k)"

definition InheritProp :: "'k zfs \<Rightarrow> string \<Rightarrow> string \<Rightarrow> bool \<Rightarrow> 'k \<Rightarrow> unit res \<times> 'k" where
  "InheritProp z name propName revertToReceived k =
     (let cookie = (if revertToReceived then 1 else 0); cmd = zero_cmd\<lparr>c_Cookie := cookie\<rparr> in
      case stringToDelimitedBuf propName (c_Value cmd) of
        (Ok _, buf) \<Rightarrow> only_err (issue z ZFS_IOC_INHERIT_PROP name (cmd\<lparr>c_Value := buf\<rparr>) None None None k)
      | (Err e, _) \<Rightarrow> (Err e, k) | (Panic p, _) \<Rightarrow> (Panic p, k) | (Diverge, _) \<Rightarrow> (Diverge, k))"

definition GetSpaceWritten :: "'k zfs \<Rightarrow> string \<Rightarrow> string \<Rightarrow> 'k \<Rightarrow> (uint64 \<times> goerror option) res \<times> 'k" where
  "GetSpaceWritten z dataset snapshot k =
     (let cmd = zero_cmd\<lparr>c_Value := snd (stringToDelimitedBuf snapshot (c_Value zero_cmd))\<rparr> in
      after (issue z ZFS_IOC_SPACE_WRITTEN dataset cmd None None None k)
        (\<lambda>err s. case err of Some e \<Rightarrow> Ok (0, Some e) | None \<Rightarrow> Ok (c_Cookie (k_cmd s), None)))"

definition Rename :: "'k zfs \<Rightarrow> string \<Rightarrow> string \<Rightarrow> bool \<Rightarrow> 'k \<Rightarrow> unit res \<times> 'k" where
  "Rename z oldName newName recursive k =
     (let cookieVal = (if recursive then 1 else 0);
          cmd = zero_cmd\<lparr>c_Cookie := cookieVal, c_Value := snd (stringToDelimitedBuf newName (c_Value zero_cmd))\<rparr>
      in only_err (issue z ZFS_IOC_RENAME oldName cmd None None None k))"

text \<open>\<^verbatim>\<open>uint64(t)\<close> extends the sign of the 32-bit type.\<close>

definition Destroy :: "'k zfs \<Rightarrow> string \<Rightarrow> ObjectType \<Rightarrow> bool \<Rightarrow> 'k \<Rightarrow> unit res \<times> 'k" where
  "Destroy z name t deferred k =
     only_err (issue z ZFS_IOC_DESTROY name (zero_cmd\<lparr>c_Objset_type := scast t\<rparr>) None None None k)"

record SendSpaceOptions =
  sso_From :: string
  sso_LargeBlocks :: bool
  sso_Embed :: bool
  sso_Compress :: bool

definition send_space_req :: "SendSpaceOptions \<Rightarrow> gval" where
  "send_space_req opts = VStruct (TNamed ''SendSpaceOptions'' (TStruct
     [(''From'', ''from,omitempty'', TString), (''LargeBlocks'', ''largeblockok'', TBool),
      (''Embed'', ''embedok'', TBool), (''Compress'', ''compressok'', TBool)]))
     [VString TString (sso_From opts), VBool TBool (sso_LargeBlocks opts),
      VBool TBool (sso_Embed opts), VBool TBool (sso_Compress opts)]"

abbreviation "TSpaceRes \<equiv> TStruct [(''Space'', ''space'', TUint64)]"

definition space_of :: "gval \<Rightarrow> uint64" where
  "space_of v = (case v of VPtr T (Some (VStruct T' (VNum T'' w # _))) \<Rightarrow> w | _ \<Rightarrow> 0)"

definition SendSpace :: "'k zfs \<Rightarrow> string \<Rightarrow> SendSpaceOptions \<Rightarrow> 'k \<Rightarrow> (uint64 \<times> goerror option) res \<times> 'k" where
  "SendSpace z name options k =
     after (issue z ZFS_IOC_SEND_SPACE name zero_cmd (Some (send_space_req options))
              (Some (VPtr (TPtr TSpaceRes) (Some (zero_value TSpaceRes)))) None k)
       (\<lambda>err s. case err of Some e \<Rightarrow> Ok (0, Some e) | None \<Rightarrow> Ok (space_of (resp_val s), None))"

section \<open>Queries and scans\<close>

definition PoolGetProps :: "'k zfs \<Rightarrow> string \<Rightarrow> 'k \<Rightarrow> (gval \<times> goerror option) res \<times> 'k" where
  "PoolGetProps z name k =
     after (issue z ZFS_IOC_POOL_GET_PROPS name zero_cmd None (Some new_iface) None k)
       (\<lambda>err s. Ok (resp_val s, err))"

definition ObjsetZPLProps :: "'k zfs \<Rightarrow> string \<Rightarrow> 'k \<Rightarrow> (gval \<times> goerror option) res \<times> 'k" where
  "ObjsetZPLProps z name k =
     after (issue z ZFS_IOC_OBJSET_ZPLPROPS name zero_cmd None (Some new_iface) None k)
       (\<lambda>err s. Ok (resp_val s, err))"

definition ObjsetStats :: "'k zfs \<Rightarrow> string \<Rightarrow> 'k \<Rightarrow> (gval \<times> goerror option) res \<times> 'k" where
  "ObjsetStats z name k =
     after (issue z ZFS_IOC_OBJSET_STATS name zero_cmd None
              (Some (VMap TDatasetPropsWithSource (Some []))) None k)
       (\<lambda>err s. Ok (resp_val s, err))"

type_synonym ScanType = uint64

definition ScanTypeNone :: ScanType where "ScanTypeNone = 0"
definition ScanTypeScrub :: ScanType where "ScanTypeScrub = 1"
definition ScanTypeResilver :: ScanType where "ScanTypeResilver = 2"

definition PauseScan :: "'k zfs \<Rightarrow> string \<Rightarrow> 'k \<Rightarrow> unit res \<times> 'k" where
  "PauseScan z pool k =
     only_err (issue z ZFS_IOC_POOL_SCAN pool (zero_cmd\<lparr>c_Flags := 1\<rparr>) None None None k)"

definition StartStopScan :: "'k zfs \<Rightarrow> string \<Rightarrow> ScanType \<Rightarrow> 'k \<Rightarrow> unit res \<times> 'k" where
  "StartStopScan z pool t k =
     only_err (issue z ZFS_IOC_POOL_SCAN pool (zero_cmd\<lparr>c_Cookie := t\<rparr>) None None None k)"

definition RegenerateGUID :: "'k zfs \<Rightarrow> string \<Rightarrow> 'k \<Rightarrow> unit res \<times> 'k" where
  "RegenerateGUID z pool k = only_err (issue z ZFS_IOC_POOL_REGUID pool zero_cmd None None None k)"

end
