(* ===== verification/Zfs_Ioctl_Correct.thy ===== *)
theory Zfs_Ioctl_Correct
  imports Zfs_Ioctl Nv_Typed
begin

text \<open>
  Correctness of \<^verbatim>\<open>NvlistIoctl\<close>: what the kernel is shown in each attempt, how often it is
  called, the growing destination buffer, the errors, and that no index or target panic occurs
  for encodable inputs. The properties at the end rest on the encoder's and the decoder's.
\<close>

section \<open>Preparing the command\<close>

lemma first_addr_Ok [simp]: "bs \<noteq> [] \<Longrightarrow> first_addr a bs = Ok a"
  by (simp add: first_addr_def go_index_def)

lemma Marshal_nonempty: "Marshal v = Ok bs \<Longrightarrow> bs \<noteq> []"
  using Marshal_progress [of v] by auto

text \<open>What the private copy holds, by the inputs of the call.\<close>

definition encoded :: "gval option \<Rightarrow> byte list option \<Rightarrow> bool" where
  "encoded request src \<longleftrightarrow>
     (case request of None \<Rightarrow> src = None | Some v \<Rightarrow> \<exists>bs. Marshal v = Ok bs \<and> src = Some bs)"

definition filled_cmd ::
  "runtime \<Rightarrow> nat \<Rightarrow> string \<Rightarrow> byte list option \<Rightarrow> byte list option \<Rightarrow> byte list option \<Rightarrow> Cmd \<Rightarrow> Cmd" where
  "filled_cmd rt i name src dst conf c = put_name name
     (let c = (case dst of None \<Rightarrow> c | Some bs \<Rightarrow>
            c\<lparr>c_Nvlist_dst := rt i DstBuf, c_Nvlist_dst_size := word_of_nat (length bs)\<rparr>);
          c = (case src of None \<Rightarrow> c | Some bs \<Rightarrow>
            c\<lparr>c_Nvlist_src := rt i SrcBuf, c_Nvlist_src_size := word_of_nat (length bs)\<rparr>)
      in case conf of None \<Rightarrow> c | Some bs \<Rightarrow>
            c\<lparr>c_Nvlist_conf := rt i ConfBuf, c_Nvlist_conf_size := word_of_nat (length bs)\<rparr>)"

lemma prepare_cmd_filled:
  assumes "encoded request src" and "encoded config conf" and "\<forall>bs. dst = Some bs \<longrightarrow> bs \<noteq> []"
  shows "prepare_cmd rt i name src dst config c =
    Ok (filled_cmd rt i name src dst conf c, case conf of None \<Rightarrow> [] | Some bs \<Rightarrow> bs)"
proof -
  have "\<forall>bs. src = Some bs \<longrightarrow> bs \<noteq> []"
    using assms(1) Marshal_nonempty by (auto simp: encoded_def split: option.splits)
  then show ?thesis
    using assms Marshal_nonempty
    by (auto simp: prepare_cmd_def filled_cmd_def put_dst_def put_src_def put_conf_def encoded_def
        split: option.splits)
qed

section \<open>Number of kernel calls\<close>

text \<open>The kernel with a counter of the calls it gets.\<close>

definition counted :: "'k kernel \<Rightarrow> (nat \<times> 'k) kernel" where
  "counted K fd ioctl c m s =
     (case K fd ioctl c m (snd s) of (reply, k') \<Rightarrow> (reply, (Suc (fst s), k')))"

lemma ioctl_loop_count:
  assumes "i \<le> 4" and "ioctl_loop (counted K) rt fd ioctl name src config i s = (x, s')"
  shows "fst (k_kernel s') \<le> fst (k_kernel s) + (5 - i)"
  using assms
proof (induction "4 - i" arbitrary: i s)
  case 0
  then have "int (dst_size i) \<ge> 16 * 1024 * 1024" by (simp add: dst_size_pow)
  with 0 show ?case
    by (subst (asm) ioctl_loop.simps)
      (auto simp: Let_def counted_def split: res.splits prod.splits if_splits)
next
  case (Suc d)
  then have i: "Suc i \<le> 4" "d = 4 - Suc i" by simp_all
  have IH: "fst (k_kernel s') \<le> fst (k_kernel t) + (5 - Suc i)"
    if "ioctl_loop (counted K) rt fd ioctl name src config (Suc i) t = (x, s')" for t
    using Suc.hyps(1) [OF i(2) i(1) that] .
  show ?case
    using Suc.prems(2) i
    by (subst (asm) ioctl_loop.simps)
      (auto simp: Let_def counted_def split: res.splits prod.splits if_splits dest!: IH)
qed

lemma NvlistIoctl_count:
  "fst (k_kernel (snd (NvlistIoctl (counted K) rt fd ioctl name request config s))) \<le> fst (k_kernel s) + 5"
proof -
  have "fst (k_kernel s') \<le> fst (k_kernel s) + 5"
    if "ioctl_loop (counted K) rt fd ioctl name src config 0 s = (x, s')" for src x s'
    using ioctl_loop_count [OF _ that] by simp
  then show ?thesis
    by (auto simp: NvlistIoctl_def bind_comp_def split: res.splits prod.splits option.splits)
qed


section \<open>One attempt\<close>

text \<open>The memory the kernel may reach in attempt \<open>i\<close>.\<close>

definition attempt_mem :: "nat \<Rightarrow> byte list option \<Rightarrow> byte list option \<Rightarrow> bool \<Rightarrow> user_mem" where
  "attempt_mem i src conf resp =
     \<lparr>um_src = (case src of None \<Rightarrow> [] | Some bs \<Rightarrow> bs),
      um_dst = (if resp then replicate (dst_size i) 0 else []),
      um_conf = (case conf of None \<Rightarrow> [] | Some bs \<Rightarrow> bs)\<rparr>"

definition attempt_cmd ::
  "runtime \<Rightarrow> nat \<Rightarrow> string \<Rightarrow> byte list option \<Rightarrow> byte list option \<Rightarrow> 'k ioctl_call \<Rightarrow> Cmd" where
  "attempt_cmd rt i name src conf s =
     filled_cmd rt i name src (if k_resp s = None then None else Some (replicate (dst_size i) 0)) conf (k_cmd s)"

lemma attempt_cmd_kernel [simp]: "attempt_cmd rt i name src conf (s\<lparr>k_kernel := k\<rparr>) = attempt_cmd rt i name src conf s"
  by (simp add: attempt_cmd_def)

lemma ioctl_loop_unfold:
  assumes "encoded request src" and "encoded config conf"
    and "K fd ioctl (attempt_cmd rt i name src conf s) (attempt_mem i src conf (k_resp s \<noteq> None)) (k_kernel s) =
      (reply, k')"
  shows "ioctl_loop K rt fd ioctl name src config i s =
    (if rp_errno reply = ENOMEM then
       if int (dst_size i) \<ge> 16 * 1024 * 1024 then
         (Err (ErrText ''return buffer is bigger than 16MiB, something probably went wrong''), s\<lparr>k_kernel := k'\<rparr>)
       else ioctl_loop K rt fd ioctl name src config (Suc i) (s\<lparr>k_kernel := k'\<rparr>)
     else if rp_errno reply \<noteq> 0 then
       (Err (Errno (rp_errno reply)), s\<lparr>k_kernel := k', k_cmd := rp_cmd reply\<rparr>)
     else (Ok (copy_out (rp_dst reply) (replicate (dst_size i) 0)),
           s\<lparr>k_kernel := k', k_cmd := rp_cmd reply\<rparr>))"
proof -
  let ?dst = "replicate (dst_size i) (0 :: byte)"
  let ?out = "if k_resp s = None then None else Some ?dst"
  have "?dst \<noteq> []" using dst_size_pos [of i] by (metis length_replicate less_irrefl list.size(3))
  then have "prepare_cmd rt i name src ?out config (k_cmd s) =
      Ok (attempt_cmd rt i name src conf s, case conf of None \<Rightarrow> [] | Some bs \<Rightarrow> bs)"
    using prepare_cmd_filled [OF assms(1,2), of ?out] unfolding attempt_cmd_def by simp
  then show ?thesis
    using assms(3) unfolding attempt_mem_def
    by (subst ioctl_loop.simps) (auto simp: Let_def split: option.splits)
qed

lemma NvlistIoctl_encoded:
  assumes "encoded request src"
  shows "NvlistIoctl K rt fd ioctl name request config s =
    bind_comp (ioctl_loop K rt fd ioctl name src config 0) (\<lambda>dst s'.
      case k_resp s' of
        None \<Rightarrow> (Ok (), s')
      | Some v \<Rightarrow> (case Unmarshal dst v of (x, v') \<Rightarrow> (x, s'\<lparr>k_resp := Some v'\<rparr>))) s"
  using assms by (auto simp: NvlistIoctl_def encoded_def split: option.splits)

section \<open>Growing the buffer\<close>

text \<open>
  A kernel that answers \<^verbatim>\<open>ENOMEM\<close>, perhaps after writing to the command, while the destination
  is smaller than \<open>need\<close>, and then succeeds with the bytes \<open>out\<close> and the command \<open>f c\<close>.
\<close>

definition serves :: "'k kernel \<Rightarrow> Ioctl \<Rightarrow> nat \<Rightarrow> (Cmd \<Rightarrow> Cmd) \<Rightarrow> byte list \<Rightarrow> bool" where
  "serves K ioctl need f out \<longleftrightarrow> (\<forall>fd c m k. \<forall>reply. fst (K fd ioctl c m k) = reply \<longrightarrow>
     (if length (um_dst m) < need then rp_errno reply = ENOMEM
      else rp_errno reply = 0 \<and> rp_cmd reply = f c \<and> rp_dst reply = out))"

lemma servesD:
  assumes "serves K ioctl need f out" and "K fd ioctl c m k = (reply, k')"
  shows "length (um_dst m) < need \<Longrightarrow> rp_errno reply = ENOMEM"
    and "\<not> length (um_dst m) < need \<Longrightarrow> rp_errno reply = 0 \<and> rp_cmd reply = f c \<and> rp_dst reply = out"
proof -
  have "fst (K fd ioctl c m k) = reply" using assms(2) by simp
  then have *: "if length (um_dst m) < need then rp_errno reply = ENOMEM
      else rp_errno reply = 0 \<and> rp_cmd reply = f c \<and> rp_dst reply = out"
    using assms(1) unfolding serves_def by blast
  show "length (um_dst m) < need \<Longrightarrow> rp_errno reply = ENOMEM" using * by simp
  show "\<not> length (um_dst m) < need \<Longrightarrow> rp_errno reply = 0 \<and> rp_cmd reply = f c \<and> rp_dst reply = out"
    using * by simp
qed

lemma ioctl_loop_serves:
  assumes K: "serves K ioctl need f out" and need: "need \<le> dst_size 4" and out: "length out \<le> need"
    and enc: "encoded request src" "encoded config conf"
    and "i \<le> 4" and "k_resp s \<noteq> None"
  shows "\<exists>j k'. i \<le> j \<and> j \<le> 4 \<and> ioctl_loop K rt fd ioctl name src config i s =
    (Ok (out @ replicate (dst_size j - length out) 0),
     s\<lparr>k_kernel := k', k_cmd := f (attempt_cmd rt j name src conf s)\<rparr>)"
  using assms(6,7)
proof (induction "4 - i" arbitrary: i s)
  case (0 i s)
  let ?c = "attempt_cmd rt i name src conf s" and ?m = "attempt_mem i src conf (k_resp s \<noteq> None)"
  obtain reply k' where r: "K fd ioctl ?c ?m (k_kernel s) = (reply, k')" by force
  have i: "i = 4" using 0 by simp
  then have "\<not> length (um_dst ?m) < need" using need 0 by (simp add: attempt_mem_def)
  then have "rp_errno reply = 0" "rp_cmd reply = f ?c" "rp_dst reply = out"
    using servesD(2) [OF K r] by blast+
  then show ?case
    using ioctl_loop_unfold [where K = K, OF enc r] out need i
    by (intro exI [of _ i] exI [of _ k']) (simp add: ENOMEM_def copy_out_fits)
next
  case (Suc d i s)
  let ?c = "attempt_cmd rt i name src conf s" and ?m = "attempt_mem i src conf (k_resp s \<noteq> None)"
  obtain reply k' where r: "K fd ioctl ?c ?m (k_kernel s) = (reply, k')" by force
  show ?case
  proof (cases "dst_size i < need")
    case True
    then have "rp_errno reply = ENOMEM"
      using servesD(1) [OF K r] Suc.prems by (simp add: attempt_mem_def)
    moreover have "int (dst_size i) < 16 * 1024 * 1024"
    proof -
      have "i \<le> 3" using Suc.hyps(2) Suc.prems(1) by simp
      then have "(8 :: int) ^ i \<le> 8 ^ 3" by (intro power_increasing) simp_all
      then show ?thesis by (simp add: dst_size_pow)
    qed
    ultimately have "ioctl_loop K rt fd ioctl name src config i s =
        ioctl_loop K rt fd ioctl name src config (Suc i) (s\<lparr>k_kernel := k'\<rparr>)"
      using ioctl_loop_unfold [where K = K, OF enc r] by simp
    moreover have "d = 4 - Suc i" "Suc i \<le> 4" using Suc.hyps(2) by simp_all
    then have "\<exists>j k''. Suc i \<le> j \<and> j \<le> 4 \<and> ioctl_loop K rt fd ioctl name src config (Suc i) (s\<lparr>k_kernel := k'\<rparr>) =
        (Ok (out @ replicate (dst_size j - length out) 0),
         s\<lparr>k_kernel := k'', k_cmd := f (attempt_cmd rt j name src conf s)\<rparr>)"
      using Suc.hyps(1) [of "Suc i" "s\<lparr>k_kernel := k'\<rparr>"] Suc.prems by simp
    ultimately show ?thesis by (metis Suc_leD)
  next
    case False
    then have "\<not> length (um_dst ?m) < need" using Suc.prems by (simp add: attempt_mem_def)
    then have "rp_errno reply = 0" "rp_cmd reply = f ?c" "rp_dst reply = out"
      using servesD(2) [OF K r] by blast+
    then show ?thesis
      using ioctl_loop_unfold [where K = K, OF enc r] out False Suc.prems
      by (intro exI [of _ i] exI [of _ k']) (simp add: ENOMEM_def copy_out_fits)
  qed
qed

lemma NvlistIoctl_serves:
  assumes K: "serves K ioctl need f (nvlist_bytes bo ps)" and wf: "wf_nvpairs ps"
    and need: "need \<le> dst_size 4" and out: "length (nvlist_bytes bo ps) \<le> need"
    and enc: "encoded request src" "encoded config conf"
    and resp: "k_resp s = Some v"
    and dec: "\<And>post. Unmarshal (nvlist_bytes bo ps @ post) v = (x, v')"
  shows "\<exists>j k'. j \<le> 4 \<and> NvlistIoctl K rt fd ioctl name request config s =
    (x, \<lparr>k_kernel = k', k_cmd = f (attempt_cmd rt j name src conf s), k_resp = Some v'\<rparr>)"
proof -
  obtain j k' where "j \<le> 4" and "ioctl_loop K rt fd ioctl name src config 0 s =
      (Ok (nvlist_bytes bo ps @ replicate (dst_size j - length (nvlist_bytes bo ps)) 0),
       s\<lparr>k_kernel := k', k_cmd := f (attempt_cmd rt j name src conf s)\<rparr>)"
    using ioctl_loop_serves [OF K need out enc, of 0 s rt fd name] resp by auto
  then show ?thesis
    using dec resp NvlistIoctl_encoded [OF enc(1), of K rt fd ioctl name config s]
    by (intro exI [of _ j] exI [of _ k']) (simp add: bind_comp_def)
qed


section \<open>Errors\<close>

definition starved :: "'k kernel \<Rightarrow> Ioctl \<Rightarrow> bool" where
  "starved K ioctl \<longleftrightarrow> (\<forall>fd c m k. rp_errno (fst (K fd ioctl c m k)) = ENOMEM)"

lemma ioctl_loop_starved:
  assumes K: "starved K ioctl" and enc: "encoded request src" "encoded config conf" and "i \<le> 4"
  shows "\<exists>k'. ioctl_loop K rt fd ioctl name src config i s =
    (Err (ErrText ''return buffer is bigger than 16MiB, something probably went wrong''), s\<lparr>k_kernel := k'\<rparr>)"
  using assms(4)
proof (induction "4 - i" arbitrary: i s)
  case (0 i s)
  obtain reply k' where r: "K fd ioctl (attempt_cmd rt i name src conf s)
      (attempt_mem i src conf (k_resp s \<noteq> None)) (k_kernel s) = (reply, k')" by force
  have "rp_errno reply = ENOMEM" using K r unfolding starved_def by (metis fst_conv)
  moreover have "int (dst_size i) \<ge> 16 * 1024 * 1024" using 0 by (simp add: dst_size_pow)
  ultimately show ?case using ioctl_loop_unfold [where K = K, OF enc r] by auto
next
  case (Suc d i s)
  obtain reply k' where r: "K fd ioctl (attempt_cmd rt i name src conf s)
      (attempt_mem i src conf (k_resp s \<noteq> None)) (k_kernel s) = (reply, k')" by force
  have "rp_errno reply = ENOMEM" using K r unfolding starved_def by (metis fst_conv)
  then show ?case
    using ioctl_loop_unfold [where K = K, OF enc r] Suc.hyps(1) [of "Suc i" "s\<lparr>k_kernel := k'\<rparr>"] Suc.hyps(2)
    by (cases "int (dst_size i) \<ge> 16 * 1024 * 1024") auto
qed

text \<open>The loop stays within errors and results when the encodings succeed.\<close>

lemma ioctl_loop_safe:
  assumes enc: "encoded request src" "encoded config conf" and "i \<le> 4"
    and "ioctl_loop K rt fd ioctl name src config i s = (x, s')"
  shows "safe x \<and> k_resp s' = k_resp s"
  using assms(3,4)
proof (induction "4 - i" arbitrary: i s)
  case (0 i s)
  obtain reply k' where r: "K fd ioctl (attempt_cmd rt i name src conf s)
      (attempt_mem i src conf (k_resp s \<noteq> None)) (k_kernel s) = (reply, k')" by force
  have "int (dst_size i) \<ge> 16 * 1024 * 1024" using 0 by (simp add: dst_size_pow)
  then show ?case
    using ioctl_loop_unfold [where K = K, OF enc r] 0 by (auto split: if_splits)
next
  case (Suc d i s)
  obtain reply k' where r: "K fd ioctl (attempt_cmd rt i name src conf s)
      (attempt_mem i src conf (k_resp s \<noteq> None)) (k_kernel s) = (reply, k')" by force
  have "d = 4 - Suc i" "Suc i \<le> 4" using Suc.hyps(2) by simp_all
  from Suc.hyps(1) [OF this, of "s\<lparr>k_kernel := k'\<rparr>"]
  show ?case
    using ioctl_loop_unfold [where K = K, OF enc r] Suc.prems(2) by (auto split: if_splits)
qed

lemma NvlistIoctl_safe:
  assumes enc: "encoded request src" "encoded config conf"
    and resp: "\<forall>v. k_resp s = Some v \<longrightarrow> untyped_target v"
  shows "safe (fst (NvlistIoctl K rt fd ioctl name request config s))"
proof -
  obtain x s' where loop: "ioctl_loop K rt fd ioctl name src config 0 s = (x, s')" by force
  then have "safe x" "k_resp s' = k_resp s" using ioctl_loop_safe [OF enc _ loop] by simp_all
  moreover have "untyped_target v \<Longrightarrow> Unmarshal d v = (y, v') \<Longrightarrow> safe y" for d v y v'
    using Unmarshal_untyped_safe [of v d] by simp
  ultimately show ?thesis
    using loop resp NvlistIoctl_encoded [OF enc(1), of K rt fd ioctl name config s]
    by (cases x) (auto simp: bind_comp_def split: option.splits prod.splits)
qed


text \<open>Only the kernel's answers to these attempts matter.\<close>

lemma ioctl_loop_agree:
  assumes enc: "encoded request src" "encoded config conf" and "i \<le> 4"
    and agree: "\<And>i c b k. K fd ioctl c (attempt_mem i src conf b) k = K' fd ioctl c (attempt_mem i src conf b) k"
  shows "ioctl_loop K rt fd ioctl name src config i s = ioctl_loop K' rt fd ioctl name src config i s"
  using assms(3)
proof (induction "4 - i" arbitrary: i s)
  case (0 i s)
  obtain reply k' where r: "K fd ioctl (attempt_cmd rt i name src conf s)
      (attempt_mem i src conf (k_resp s \<noteq> None)) (k_kernel s) = (reply, k')" by force
  have "int (dst_size i) \<ge> 16 * 1024 * 1024" using 0 by (simp add: dst_size_pow)
  then show ?case
    using ioctl_loop_unfold [where K = K, OF enc r] ioctl_loop_unfold [where K = K', OF enc r [unfolded agree]]
    by simp
next
  case (Suc d i s)
  obtain reply k' where r: "K fd ioctl (attempt_cmd rt i name src conf s)
      (attempt_mem i src conf (k_resp s \<noteq> None)) (k_kernel s) = (reply, k')" by force
  have "d = 4 - Suc i" "Suc i \<le> 4" using Suc.hyps(2) by simp_all
  from Suc.hyps(1) [OF this, of "s\<lparr>k_kernel := k'\<rparr>"]
  show ?case
    using ioctl_loop_unfold [where K = K, OF enc r] ioctl_loop_unfold [where K = K', OF enc r [unfolded agree]]
    by simp
qed

section \<open>The name\<close>

lemma c_Name_filled [simp]:
  "c_Name (filled_cmd rt i name src dst conf c) = snd (stringToDelimitedBuf name (c_Name c))"
  by (auto simp: filled_cmd_def put_name_def Let_def split: option.splits)

lemma c_Cookie_filled [simp]: "c_Cookie (filled_cmd rt i name src dst conf c) = c_Cookie c"
  by (auto simp: filled_cmd_def put_name_def Let_def split: option.splits)

section \<open>Properties\<close>

definition encodable :: "gval option \<Rightarrow> bool" where
  "encodable r \<longleftrightarrow> (case r of None \<Rightarrow> True | Some v \<Rightarrow> (case Marshal v of Ok bs \<Rightarrow> True | _ \<Rightarrow> False))"

lemma encodable_encoded: "encodable r \<Longrightarrow> \<exists>src. encoded r src"
  by (auto simp: encodable_def encoded_def split: option.splits res.splits)

text \<open>
  C18. The retry loop is bounded: \<^verbatim>\<open>NvlistIoctl\<close> issues at most five system calls, whatever
  the kernel answers.
\<close>

theorem NvlistIoctl_five_calls:
  "fst (k_kernel (snd (NvlistIoctl (counted K) rt fd ioctl name request config s))) \<le> fst (k_kernel s) + 5"
  by (rule NvlistIoctl_count)


definition sample_reply :: nvpairs where
  "sample_reply = [(''space'', NNum typeUint64 4096)]"

definition sample_kernel :: "unit kernel" where
  "sample_kernel fd ioctl c m k =
     (if length (um_dst m) < 100000
      then (\<lparr>rp_errno = ENOMEM, rp_cmd = zero_cmd, rp_dst = [1]\<rparr>, ())
      else (\<lparr>rp_errno = 0, rp_cmd = c\<lparr>c_Cookie := 7\<rparr>, rp_dst = nvlist_bytes BigEndian sample_reply\<rparr>, ()))"

lemma sample_reply_wf: "wf_nvpairs sample_reply"
  by code_simp

lemma sample_reply_length: "length (nvlist_bytes BigEndian sample_reply) = 48"
  by code_simp

lemma sample_kernel_serves:
  "serves sample_kernel ioctl 100000 (\<lambda>c. c\<lparr>c_Cookie := 7\<rparr>) (nvlist_bytes BigEndian sample_reply)"
  by (simp add: serves_def sample_kernel_def)




text \<open>
  When the kernel reports \<^verbatim>\<open>ENOMEM\<close> for every buffer the call gives up with an error, and
  neither the caller's command nor the response has changed.
\<close>

theorem NvlistIoctl_gives_up:
  assumes "starved K ioctl" and "encodable request" and "encodable config"
  shows "\<exists>k'. NvlistIoctl K rt fd ioctl name request config s =
    (Err (ErrText ''return buffer is bigger than 16MiB, something probably went wrong''), s\<lparr>k_kernel := k'\<rparr>)"
proof -
  obtain src conf where enc: "encoded request src" "encoded config conf"
    using assms encodable_encoded by blast
  then show ?thesis
    using ioctl_loop_starved [OF assms(1) enc, of 0 rt fd name s]
      NvlistIoctl_encoded [OF enc(1), of K rt fd ioctl name config s]
    by (auto simp: bind_comp_def)
qed

theorem NvlistIoctl_gives_up_witness:
  "\<exists>k'. NvlistIoctl (\<lambda>fd ioctl c m n. (\<lparr>rp_errno = ENOMEM, rp_cmd = c\<lparr>c_Cookie := 1\<rparr>, rp_dst = []\<rparr>, n + 1))
      (\<lambda>i b. 0) 3 0 ''tank'' None None \<lparr>k_kernel = 0 :: nat, k_cmd = zero_cmd, k_resp = None\<rparr> =
    (Err (ErrText ''return buffer is bigger than 16MiB, something probably went wrong''),
     \<lparr>k_kernel = k', k_cmd = zero_cmd, k_resp = None\<rparr>)"
  using NvlistIoctl_gives_up [of "\<lambda>fd ioctl c m n. (\<lparr>rp_errno = ENOMEM, rp_cmd = c\<lparr>c_Cookie := 1\<rparr>, rp_dst = []\<rparr>, n + 1)"
      0 None None "\<lambda>i b. 0" 3 "''tank''" "\<lparr>k_kernel = 0 :: nat, k_cmd = zero_cmd, k_resp = None\<rparr>"]
  by (simp add: starved_def encodable_def)



text \<open>
  Names reach the kernel: a name without null bytes of at most 4095 bytes, written into a
  fresh command, is what \<^verbatim>\<open>delimitedBufToString\<close> reads back from the command the kernel sees.
\<close>

theorem NvlistIoctl_name_delivered:
  assumes "nul_free name" and "length name \<le> 4095" and "c_Name (k_cmd s) = replicate 4096 0"
  shows "delimitedBufToString (c_Name (attempt_cmd rt i name src conf s)) = name"
  using delimited_roundtrip(2) [of name "replicate 4096 0"] assms by (simp add: attempt_cmd_def)

theorem NvlistIoctl_name_delivered_witness:
  "delimitedBufToString (c_Name (attempt_cmd (\<lambda>i b. 0) 0 ''tank/a'' None None
     \<lparr>k_kernel = (), k_cmd = zero_cmd, k_resp = None\<rparr>)) = ''tank/a''"
  by (rule NvlistIoctl_name_delivered) (simp_all add: zero_cmd_def)





text \<open>
  The ioctl numbers are pairwise distinct for every first number, so on every platform a
  number names one operation.
\<close>

theorem ioctl_numbers_distinct: "distinct (map (\<lambda>f. f (ZFS_IOC_FIRST os)) (core_ioctls @ platform_ioctls))"
  by (rule distinct_ioctls)

end
