(* ===== verification/Zfs_Wrappers_Correct.thy ===== *)
theory Zfs_Wrappers_Correct
  imports Zfs_Wrappers Zfs_Ioctl_Correct Nv_Struct
begin

text \<open>
  Properties of the wrappers: which system calls they issue, what they send, what they return,
  and the deviations from their documentation.
\<close>

section \<open>Recording the system calls\<close>

definition recorded :: "'k kernel \<Rightarrow> ((uint64 \<times> Ioctl \<times> Cmd) list \<times> 'k) kernel" where
  "recorded K fd ioctl c m s =
     (case K fd ioctl c m (snd s) of (reply, k') \<Rightarrow> (reply, (fst s @ [(fd, ioctl, c)], k')))"

text \<open>All calls recorded after the ones in \<open>old\<close> are of the given descriptor and number.\<close>

definition only_calls ::
  "uint64 \<Rightarrow> Ioctl \<Rightarrow> (uint64 \<times> Ioctl \<times> Cmd) list \<Rightarrow> (uint64 \<times> Ioctl \<times> Cmd) list \<Rightarrow> bool" where
  "only_calls fd ioctl old new \<longleftrightarrow>
     take (length old) new = old \<and> list_all (\<lambda>(fd', ioctl', c). fd' = fd \<and> ioctl' = ioctl) (drop (length old) new)"

lemma only_calls_refl [simp]: "only_calls fd ioctl old old"
  by (simp add: only_calls_def)

lemma only_calls_step: "only_calls fd ioctl (old @ [(fd, ioctl, c)]) new \<Longrightarrow> only_calls fd ioctl old new"
proof -
  assume *: "only_calls fd ioctl (old @ [(fd, ioctl, c)]) new"
  then have new: "new = (old @ [(fd, ioctl, c)]) @ drop (Suc (length old)) new"
    unfolding only_calls_def by (metis append_take_drop_id length_append_singleton)
  then have "take (length old) new = old" "drop (length old) new = (fd, ioctl, c) # drop (Suc (length old)) new"
    by (metis append_eq_conv_conj append.assoc, metis append_eq_conv_conj append.assoc append_Cons append_Nil)
  then show ?thesis using * by (simp add: only_calls_def)
qed

lemma only_calls_one [simp]: "only_calls fd ioctl old (old @ [(fd, ioctl, c)])"
  by (simp add: only_calls_def)

lemma ioctl_loop_recorded:
  assumes "i \<le> 4" and "ioctl_loop (recorded K) rt fd ioctl name src config i s = (x, s')"
  shows "only_calls fd ioctl (fst (k_kernel s)) (fst (k_kernel s'))"
  using assms
proof (induction "4 - i" arbitrary: i s)
  case 0
  then have "int (dst_size i) \<ge> 16 * 1024 * 1024" by (simp add: dst_size_pow)
  with 0 show ?case
    by (subst (asm) ioctl_loop.simps)
      (auto simp: Let_def recorded_def intro: only_calls_step split: res.splits prod.splits if_splits)
next
  case (Suc d)
  then have i: "Suc i \<le> 4" "d = 4 - Suc i" by simp_all
  have IH: "only_calls fd ioctl (fst (k_kernel t)) (fst (k_kernel s'))"
    if "ioctl_loop (recorded K) rt fd ioctl name src config (Suc i) t = (x, s')" for t
    using Suc.hyps(1) [OF i(2) i(1) that] .
  show ?case
    using Suc.prems(2) i
    by (subst (asm) ioctl_loop.simps)
      (auto simp: Let_def recorded_def intro: only_calls_step split: res.splits prod.splits if_splits dest!: IH)
qed

lemma NvlistIoctl_recorded:
  "only_calls fd ioctl (fst (k_kernel s))
     (fst (k_kernel (snd (NvlistIoctl (recorded K) rt fd ioctl name request config s))))"
proof -
  have "only_calls fd ioctl (fst (k_kernel s)) (fst (k_kernel s'))"
    if "ioctl_loop (recorded K) rt fd ioctl name src config 0 s = (x, s')" for src x s'
    using ioctl_loop_recorded [OF _ that] by simp
  then show ?thesis
    by (auto simp: NvlistIoctl_def bind_comp_def split: res.splits prod.splits option.splits)
qed

definition recording :: "'k zfs \<Rightarrow> ((uint64 \<times> Ioctl \<times> Cmd) list \<times> 'k) zfs" where
  "recording z = \<lparr>z_kernel = recorded (z_kernel z), z_runtime = z_runtime z, z_os = z_os z, z_handle = z_handle z\<rparr>"

abbreviation log_of :: "'a \<times> (uint64 \<times> Ioctl \<times> Cmd) list \<times> 'k \<Rightarrow> (uint64 \<times> Ioctl \<times> Cmd) list" where
  "log_of r \<equiv> fst (snd r)"

lemma issue_recorded:
  "only_calls (zfs_Fd z) (ioctl (ZFS_IOC_FIRST (z_os z))) (fst k)
     (fst (k_kernel (snd (issue (recording z) ioctl name cmd request response config k))))"
  using NvlistIoctl_recorded [of "zfs_Fd z" "ioctl (ZFS_IOC_FIRST (z_os z))"
      "\<lparr>k_kernel = k, k_cmd = cmd, k_resp = response\<rparr>" "z_kernel z" "z_runtime z"]
  by (simp add: issue_def recording_def zfs_Fd_def)

lemma after_kernel: "snd (after r f) = k_kernel (snd r)"
  by (cases r; cases "fst r") (auto simp: after_def)

lemma after_recorded:
  "only_calls (zfs_Fd z) (ioctl (ZFS_IOC_FIRST (z_os z))) (fst k)
     (log_of (after (issue (recording z) ioctl name cmd request response config k) f))"
  "only_calls (zfs_Fd z) (ioctl (ZFS_IOC_FIRST (z_os z))) (fst k)
     (log_of (only_err (issue (recording z) ioctl name cmd request response config k)))"
  using issue_recorded [of z ioctl k name cmd request response config]
  by (simp_all add: after_kernel only_err_def)

section \<open>Snapshot names\<close>

lemma snap_set_result:
  assumes "\<forall>n \<in> set names. n \<notin> fst ` set snaps" and "distinct names"
  shows "snap_set names snaps = Ok (snaps @ map (\<lambda>n. (n, VBool TBool True)) names)"
  using assms
proof (induction names arbitrary: snaps)
  case Nil
  then show ?case by simp
next
  case (Cons n names)
  then have "map_of snaps n = None" by (simp add: map_of_eq_None_iff)
  moreover have "snap_set names (snaps @ [(n, VBool TBool True)]) =
      Ok ((snaps @ [(n, VBool TBool True)]) @ map (\<lambda>n. (n, VBool TBool True)) names)"
    using Cons.prems by (intro Cons.IH) auto
  ultimately show ?case using Cons.prems by (simp add: alist_set_new)
qed

lemma snap_set_duplicate:
  "\<not> distinct names \<or> (\<exists>n \<in> set names. n \<in> fst ` set snaps) \<Longrightarrow>
   snap_set names snaps = Err (ErrText ''duplicate snapshot name'')"
proof (induction names arbitrary: snaps)
  case Nil
  then show ?case by simp
next
  case (Cons n names)
  show ?case
  proof (cases "map_of snaps n = None")
    case True
    then have "n \<notin> fst ` set snaps" by (simp add: map_of_eq_None_iff)
    then have "\<not> distinct names \<or> (\<exists>m \<in> set names. m \<in> fst ` set (alist_set n (VBool TBool True) snaps))"
      using Cons.prems by (auto simp: keys_alist_set)
    then show ?thesis using Cons.IH True by simp
  qed simp
qed

lemma snap_set_cases:
  "snap_set names [] = (if distinct names then Ok (map (\<lambda>n. (n, VBool TBool True)) names)
     else Err (ErrText ''duplicate snapshot name''))"
  using snap_set_result [of names "[]"] snap_set_duplicate [of names "[]"] by simp

section \<open>Requests\<close>

lemma unpackVal_simps [simp]:
  "unpackVal (VBool T b) = VBool T b" "unpackVal (VNum T w) = VNum T w" "unpackVal (VString T s) = VString T s"
  "unpackVal (VMap T m) = VMap T m" "unpackVal (VStruct T vs) = VStruct T vs"
  "unpackVal (VPtr T None) = VInvalid" "unpackVal (VPtr T (Some (VMap T' m))) = VMap T' m"
  by (simp_all add: unpackVal_def unpack_ptr_def unpack_iface_def)

lemma nvlist_of_struct:
  "nvlist_of (VStruct T vs) = pairs_spec (nvlist_spec (size (VStruct T vs))) (collect_struct (VStruct T vs))"
  by (simp add: nvlist_of_def collect_pairs_def del: gval.size collect_struct.simps)

lemma send_space_fields:
  "field_opt (''From'', ''from,omitempty'', TString) = Some ''omitempty''"
  "field_opt (''LargeBlocks'', ''largeblockok'', TBool) = None" "field_opt (''Embed'', ''embedok'', TBool) = None"
  "field_opt (''Compress'', ''compressok'', TBool) = None"
  "field_key (''From'', ''from,omitempty'', TString) = ''from''"
  "field_key (''LargeBlocks'', ''largeblockok'', TBool) = ''largeblockok''"
  "field_key (''Embed'', ''embedok'', TBool) = ''embedok''"
  "field_key (''Compress'', ''compressok'', TBool) = ''compressok''"
  by code_simp+

lemma enc_name_lits:
  "enc_name ''from''" "enc_name ''largeblockok''" "enc_name ''embedok''" "enc_name ''compressok''"
  "enc_name ''snaps''" "enc_name ''props''" "enc_name ''defer''"
  by code_simp+

text \<open>The nvlist of the options of \<^verbatim>\<open>SendSpace\<close>: empty and false options are left out.\<close>

definition send_space_pairs :: "SendSpaceOptions \<Rightarrow> nvpairs" where
  "send_space_pairs opts =
     (if sso_From opts = [] then [] else [(''from'', NString (sso_From opts))]) @
     (if sso_LargeBlocks opts then [(''largeblockok'', NBoolean)] else []) @
     (if sso_Embed opts then [(''embedok'', NBoolean)] else []) @
     (if sso_Compress opts then [(''compressok'', NBoolean)] else [])"

lemma send_space_nvlist:
  assumes "nul_free (sso_From opts)"
  shows "nvlist_of (send_space_req opts) = Some (send_space_pairs opts)"
proof -
  have "collect_struct (send_space_req opts) =
      (if sso_From opts = [] then [] else [(''from'', VString TString (sso_From opts))]) @
      [(''largeblockok'', VBool TBool (sso_LargeBlocks opts)), (''embedok'', VBool TBool (sso_Embed opts)),
       (''compressok'', VBool TBool (sso_Compress opts))]"
    by (simp add: send_space_req_def collect_field_spec send_space_fields)
  then show ?thesis
    using assms unfolding send_space_pairs_def send_space_req_def
    by (simp add: nvlist_of_struct enc_name_lits del: gval.size collect_struct.simps)
qed

text \<open>The nvlist of a snapshot request without properties.\<close>

lemma snap_fields:
  "field_opt (''Snaps'', ''snaps'', T) = None" "field_opt (''Props'', ''props'', T) = None"
  "field_opt (''Defer'', ''defer'', T) = None"
  "field_key (''Snaps'', ''snaps'', T) = ''snaps''" "field_key (''Props'', ''props'', T) = ''props''"
  "field_key (''Defer'', ''defer'', T) = ''defer''"
  by (simp_all add: field_opt_def field_key_def split_comma_plain)

lemma pairs_spec_names:
  "list_all enc_name names \<Longrightarrow>
   pairs_spec rec (map (\<lambda>n. (n, VBool TBool True)) names) = Some (map (\<lambda>n. (n, NBoolean)) names)"
  by (induction names) simp_all

lemma nvlist_spec_names:
  assumes "list_all enc_name names"
  shows "nvlist_spec (Suc fuel) (VMap (TMap TString TBool) (Some (map (\<lambda>n. (n, VBool TBool True)) names))) =
    Some (map (\<lambda>n. (n, NBoolean)) names)"
proof -
  have "collect_map (VMap (TMap TString TBool) (Some (map (\<lambda>n. (n, VBool TBool True)) names))) =
      Ok (map (\<lambda>n. (n, VBool TBool True)) names)"
    by (induction names) (simp_all add: collect_map_def)
  then show ?thesis using pairs_spec_names [OF assms] by (simp add: collect_pairs_def)
qed

lemma snapReq_nvlist:
  assumes "list_all enc_name names"
  shows "nvlist_of (snapReq (map (\<lambda>n. (n, VBool TBool True)) names) None) =
    Some [(''snaps'', NNvlist (map (\<lambda>n. (n, NBoolean)) names))]"
proof -
  let ?m = "VMap (TMap TString TBool) (Some (map (\<lambda>n. (n, VBool TBool True)) names))"
  obtain f where f: "size (snapReq (map (\<lambda>n. (n, VBool TBool True)) names) None) = Suc f"
    by (simp add: snapReq_def)
  have "collect_struct (snapReq (map (\<lambda>n. (n, VBool TBool True)) names) None) = [(''snaps'', ?m)]"
    by (simp add: snapReq_def collect_field_spec snap_fields dataset_props_ptr_def)
  then show ?thesis
    using f nvlist_spec_names [OF assms, of f] unfolding snapReq_def
    by (simp add: nvlist_of_struct enc_name_lits del: gval.size collect_struct.simps nvlist_spec.simps)
qed

section \<open>Properties\<close>


text \<open>
  C26. \<^verbatim>\<open>DestroySnapshots\<close> issues the wrong system call: every call it makes has the number of
  the clone operation, which is not the number of the operation that destroys snapshots.
\<close>

theorem DestroySnapshots_issues_clone:
  "only_calls (zfs_Fd z) (ZFS_IOC_CLONE (ZFS_IOC_FIRST (z_os z))) (fst k)
     (log_of (DestroySnapshots (recording z) names pool deferred k)) \<and>
   ZFS_IOC_CLONE (ZFS_IOC_FIRST (z_os z)) \<noteq> ZFS_IOC_DESTROY_SNAPS (ZFS_IOC_FIRST (z_os z))"
proof
  show "only_calls (zfs_Fd z) (ZFS_IOC_CLONE (ZFS_IOC_FIRST (z_os z))) (fst k)
     (log_of (DestroySnapshots (recording z) names pool deferred k))"
    by (auto simp: DestroySnapshots_def after_recorded split: res.splits)
qed (simp add: ioctl_defs)

text \<open>
  C25. Duplicate names: \<^verbatim>\<open>Snapshot\<close> and \<^verbatim>\<open>DestroySnapshots\<close> reject a list that names a snapshot
  twice before the kernel is called; otherwise the request holds every name exactly once.
\<close>

theorem snapshot_names_checked:
  "Snapshot z names pool props k =
     (if distinct names then
        only_err (issue z ZFS_IOC_SNAPSHOT pool zero_cmd
          (Some (snapReq (map (\<lambda>n. (n, VBool TBool True)) names) props)) (Some (make_map TInt32)) None k)
      else (Err (ErrText ''duplicate snapshot name''), k)) \<and>
   (\<not> distinct names \<longrightarrow>
      DestroySnapshots z names pool deferred k = (Err (ErrText ''duplicate snapshot name''), k))"
  by (simp add: Snapshot_def DestroySnapshots_def snap_set_cases)

text \<open>A system whose kernel accepts every call.\<close>

definition quiet_zfs :: "unit zfs" where
  "quiet_zfs = \<lparr>z_kernel = (\<lambda>fd ioctl c m k. (\<lparr>rp_errno = 0, rp_cmd = c, rp_dst = []\<rparr>, ())),
     z_runtime = (\<lambda>i b. 0), z_os = OtherOS, z_handle = Some 3\<rparr>"

theorem snapshot_names_checked_witness:
  "DestroySnapshots quiet_zfs [''t@a'', ''t@b'', ''t@a''] ''t'' True () =
     (Err (ErrText ''duplicate snapshot name''), ())"
  using snapshot_names_checked [of quiet_zfs "[''t@a'', ''t@b'', ''t@a'']" "''t''" None "()" True] by simp

text \<open>
  The bytes of a snapshot request: for distinct names the request of \<^verbatim>\<open>Snapshot\<close> without
  properties is encoded as one embedded list with one boolean pair for each name.
\<close>

theorem snapshot_request_bytes:
  assumes "list_all enc_name names"
  shows "Marshal (snapReq (map (\<lambda>n. (n, VBool TBool True)) names) None) =
    Ok (nvlist_bytes LittleEndian [(''snaps'', NNvlist (map (\<lambda>n. (n, NBoolean)) names))])"
  by (rule Marshal_nvlist_of [OF snapReq_nvlist [OF assms]])

theorem snapshot_request_bytes_witness:
  "Marshal (snapReq (map (\<lambda>n. (n, VBool TBool True)) [''t@a'', ''t@b'']) None) =
    Ok (nvlist_bytes LittleEndian [(''snaps'', NNvlist [(''t@a'', NBoolean), (''t@b'', NBoolean)])])"
  using snapshot_request_bytes [of "[''t@a'', ''t@b'']"] by (simp add: enc_name_def)


definition sample_zfs :: "unit zfs" where
  "sample_zfs = \<lparr>z_kernel = sample_kernel, z_runtime = (\<lambda>i b. 0), z_os = OtherOS, z_handle = Some 3\<rparr>"


text \<open>
  \<^verbatim>\<open>Rollback\<close> never reports the target: its response is decoded into a copy, so the target
  returned is the empty string whatever the kernel answers.
\<close>

lemma Rollback_target_empty:
  "case fst (Rollback z name target k) of Ok (t, err) \<Rightarrow> t = [] | _ \<Rightarrow> True"
  by (auto simp: Rollback_def Let_def after_def rollback_target_def rollbackRes_def split: res.splits prod.splits)

text \<open>
  \<^verbatim>\<open>Destroy\<close> ignores its \<^verbatim>\<open>deferred\<close> flag: with and without it the same system call is made
  with the same command.
\<close>

lemma Destroy_ignores_deferred: "Destroy z name t True k = Destroy z name t False k"
  by (simp add: Destroy_def)

text \<open>
  C27. Names passed in the value buffer: \<^verbatim>\<open>InheritProp\<close> returns the error of a property name that
  is too long or holds a null byte without calling the kernel, while \<^verbatim>\<open>Rename\<close> of such a long
  new name goes on to call the kernel with an empty one.
\<close>

theorem value_buffer_errors:
  assumes "8192 \<le> length n"
  shows "(\<exists>e. InheritProp z name n revert k = (Err e, k)) \<and>
    Rename z name n False k = only_err (issue z ZFS_IOC_RENAME name zero_cmd None None None k)"
proof -
  have long: "stringToDelimitedBuf n (c_Value zero_cmd) = (Err (ErrText ''String longer than target buffer''), c_Value zero_cmd)"
    using assms by (simp add: stringToDelimitedBuf_def zero_cmd_def)
  have same: "zero_cmd\<lparr>c_Cookie := 0, c_Value := c_Value zero_cmd\<rparr> = zero_cmd"
    by (simp add: zero_cmd_def)
  show ?thesis using long same by (simp add: InheritProp_def Rename_def Let_def)
qed

theorem value_buffer_errors_witness:
  "\<exists>e. InheritProp quiet_zfs ''t'' (replicate 9000 CHR ''p'') True () = (Err e, ())"
  using value_buffer_errors [of "replicate 9000 CHR ''p''" quiet_zfs "''t''" True "()"] by simp

text \<open>
  Read-only pool properties are never sent: whatever the fields of a \<^verbatim>\<open>PoolProps\<close> hold, the
  encoder writes only the writable ones.
\<close>

definition pool_readonly :: "string list" where
  "pool_readonly = [''size'', ''free'', ''freeing'', ''leaked'', ''allocated'', ''expandsize'',
     ''fragmentation'', ''capacity'', ''guid'', ''health'', ''dedupratio'']"

lemma pool_readonly_fields:
  "list_all (\<lambda>f. field_opt f = Some ''ro'' \<or> field_key f \<notin> set pool_readonly) (struct_fields TPoolProps)"
  by code_simp

theorem PoolProps_readonly_not_sent:
  assumes "length vs = length (struct_fields TPoolProps)"
  shows "k \<in> set pool_readonly \<Longrightarrow> (k, x) \<notin> set (collect_struct (VStruct TPoolProps vs))"
  using collect_struct_spec [OF assms, of k x] pool_readonly_fields assms
  by (auto simp: list_all_length)

theorem PoolProps_readonly_not_sent_witness:
  "(''guid'', VNum TUint64 5) \<notin> set (collect_struct (VStruct TPoolProps (replicate 31 (VNum TUint64 5))))"
  by (rule PoolProps_readonly_not_sent) (simp_all add: TPoolProps_def pool_readonly_def)

text \<open>
  \<^verbatim>\<open>Init\<close> leaves a handle exactly when it reports success, and tries to create the device
  node only when the first attempt to open it reports that it does not exist.
\<close>

theorem Init_handle:
  "(fst (Init open_f mknod mkdev path f) = Ok () \<longleftrightarrow> fst (snd (Init open_f mknod mkdev path f)) \<noteq> None) \<and>
   (fst (open_f (if path = [] then ''/dev/zfs'' else path) f) \<noteq> Inl ENOENT \<longrightarrow>
      Init open_f mknod mkdev path f = Init open_f (\<lambda>p m d f. f) mkdev path f)"
  by (auto simp: Init_def Let_def split: prod.splits sum.splits)

theorem Init_handle_witness:
  "Init (\<lambda>p n. (Inr 7, n + 1)) (\<lambda>p m d n. 0) (\<lambda>a b. 0) '''' (0 :: nat) =
     Init (\<lambda>p n. (Inr 7, n + 1)) (\<lambda>p m d f. f) (\<lambda>a b. 0) '''' 0"
  using Init_handle [of "\<lambda>p n. (Inr 7, n + 1)" "\<lambda>p m d n. 0" "\<lambda>a b. 0" "''''" "0 :: nat"] by simp

end
