(* ===== verification/Zfs_Receive.thy ===== *)
theory Zfs_Receive
  imports Zfs_Wrappers
begin

text \<open>
  Model of the receive stream of \<^verbatim>\<open>ioctl/wrappers.go\<close>: \<^verbatim>\<open>ReceiveStream\<close> with its methods, the
  options and \<^verbatim>\<open>Receive\<close> with its goroutine. The pipe's write end is a parameter \<open>wr\<close>: what a
  write of the given bytes reports and the state of the pipe afterwards. This is the sequential
  view of the stream: the goroutine takes the first value of the begin-record channel, whenever
  it is scheduled, and the model runs it when \<^verbatim>\<open>WaitAndClose\<close> waits for it. The interleaving of
  caller, goroutine and kernel is in \<open>Zfs_Receive_Sys\<close>.
\<close>

section \<open>Types\<close>

record ReceiveOpts =
  ro_Origin :: string
  ro_SnapshotName :: string
  ro_ReceivedProps :: "gval go_map option"
  ro_LocalProps :: "gval go_map option"
  ro_HiddenArgs :: bool
  ro_Fd :: uint32
  ro_BeginRecord :: "byte list"
  ro_CleanupFd :: uint32
  ro_Force :: bool
  ro_Resumable :: bool

text \<open>\<open>ro_HiddenArgs\<close> tells whether the pointer to the empty struct is non-nil.\<close>

definition receive_req :: "ReceiveOpts \<Rightarrow> gval" where
  "receive_req opts = VStruct (TNamed ''ReceiveOpts'' (TStruct
     [(''Origin'', ''origin,omitempty'', TString), (''SnapshotName'', ''snapname'', TString),
      (''ReceivedProps'', ''props'', TPtr TDatasetProps), (''LocalProps'', ''localprops'', TPtr TDatasetProps),
      (''HiddenArgs'', ''hidden_args'', TPtr (TStruct [])), (''Fd'', ''input_fd'', TInt32),
      (''BeginRecord'', ''begin_record'', TSlice TUint8), (''CleanupFd'', ''cleanup_fd,omitempty'', TInt32),
      (''Force'', ''force'', TBool), (''Resumable'', ''resumable'', TBool)]))
     [VString TString (ro_Origin opts), VString TString (ro_SnapshotName opts),
      dataset_props_ptr (ro_ReceivedProps opts), dataset_props_ptr (ro_LocalProps opts),
      VPtr (TPtr (TStruct [])) (if ro_HiddenArgs opts then Some (VStruct (TStruct []) []) else None),
      VNum TInt32 (ucast (ro_Fd opts)),
      VSlice (TSlice TUint8) (map (\<lambda>b. VNum TUint8 (ucast b)) (ro_BeginRecord opts)),
      VNum TInt32 (ucast (ro_CleanupFd opts)), VBool TBool (ro_Force opts), VBool TBool (ro_Resumable opts)]"

definition TReceiveError :: gotype where
  "TReceiveError = TNamed ''ReceiveError'' (TStruct
     [(''ReadBytes'', ''read_bytes'', TUint64), (''ErrorFlags'', ''error_flags'', TUint64),
      (''ErrorList'', ''errors'', TMap TString TInt32)])"

text \<open>\<^verbatim>\<open>ReceiveError.Error\<close>\<close>

definition ReceiveError_Error :: string where
  "ReceiveError_Error = ''Failed to apply props''"

definition error_flags :: "gval \<Rightarrow> uint64" where
  "error_flags v = (case v of VPtr T (Some (VStruct T' (_ # VNum T'' w # _))) \<Rightarrow> w | _ \<Rightarrow> 0)"

section \<open>ReceiveStream\<close>

record ReceiveStream =
  rs_errorChan :: "goerror option list"
  rs_lastError :: "goerror option"
  rs_beginRecord :: "byte list"
  rs_beginRecordPointer :: nat
  rs_beginRecordChan :: "byte list list"
  rs_chanClosed :: bool

text \<open>The error of a write: a \<^verbatim>\<open>*os.PathError\<close> around an errno, or another error.\<close>

datatype write_error = PathErrno uint64 | OtherWriteError string

type_synonym 'p pipe_writer = "byte list \<Rightarrow> 'p \<Rightarrow> (nat \<times> write_error option) \<times> 'p"

text \<open>The copy into the begin record, and its delivery when it is full.\<close>

definition fill_record :: "byte list \<Rightarrow> nat \<Rightarrow> ReceiveStream \<Rightarrow> ReceiveStream res" where
  "fill_record buf n r =
     (let record = take (rs_beginRecordPointer r) (rs_beginRecord r) @ take n buf @
                     drop (rs_beginRecordPointer r + n) (rs_beginRecord r);
          r' = r\<lparr>rs_beginRecord := record, rs_beginRecordPointer := rs_beginRecordPointer r + n\<rparr>
      in if length record - rs_beginRecordPointer r' = 0 then
           if rs_chanClosed r then Panic (PanicText ''send on closed channel'')
           else Ok (r'\<lparr>rs_beginRecordChan := rs_beginRecordChan r @ [record]\<rparr>)
         else Ok r')"

text \<open>The first half of \<^verbatim>\<open>Write\<close>: how many bytes of the buffer go into the begin record.\<close>

definition write_record :: "byte list \<Rightarrow> ReceiveStream \<Rightarrow> (ReceiveStream \<times> nat) res" where
  "write_record buf r =
     (let left = length (rs_beginRecord r) - rs_beginRecordPointer r;
          n = (if left > length buf then length buf else left)
      in if left > 0 then bind_res (fill_record buf n r) (\<lambda>r'. Ok (r', n)) else Ok (r, n))"

text \<open>The last part: what is reported for the outcome of the write into the pipe, and kept.\<close>

definition write_outcome ::
  "nat \<Rightarrow> nat \<times> write_error option \<Rightarrow> ReceiveStream \<Rightarrow> (nat \<times> goerror option) \<times> ReceiveStream" where
  "write_outcome n out r =
     (case out of
        (m, Some (PathErrno e)) \<Rightarrow>
          let err = (if e = EPIPE then ErrText ''receiving stream failed''
                     else ErrText ''unexpected error when sending into ZFS receive pipe'')
          in ((m + n, Some err), r\<lparr>rs_lastError := Some err\<rparr>)
      | (m, Some (OtherWriteError t)) \<Rightarrow>
          let err = ErrText ''unexpected error when sending into ZFS receive pipe''
          in ((m + n, Some err), r\<lparr>rs_lastError := Some err\<rparr>)
      | (m, None) \<Rightarrow> ((m + n, None), r))"

definition ReceiveStream_Write ::
  "'p pipe_writer \<Rightarrow> byte list \<Rightarrow> (ReceiveStream \<times> 'p, nat \<times> goerror option) comp" where
  "ReceiveStream_Write wr buf s =
     (case s of (r, p) \<Rightarrow>
        if rs_lastError r \<noteq> None then (Ok (0, rs_lastError r), s)
        else
          (case write_record buf r of
             Ok (r, n) \<Rightarrow>
               if length buf - n = 0 then (Ok (length buf, None), (r, p))
               else (case wr (drop n buf) p of (out, p') \<Rightarrow>
                 (case write_outcome n out r of (x, r') \<Rightarrow> (Ok x, (r', p'))))
           | Err e \<Rightarrow> (Err e, s) | Panic q \<Rightarrow> (Panic q, s) | Diverge \<Rightarrow> (Diverge, s)))"

lemmas Write_defs = ReceiveStream_Write_def write_record_def write_outcome_def Let_def

section \<open>Receive\<close>

text \<open>
  The checks and the new stream; the goroutine is started with it. \<open>pipe_err\<close> is the error of
  \<^verbatim>\<open>os.Pipe\<close>, if it fails.
\<close>

definition new_ReceiveStream :: "nat \<Rightarrow> ReceiveStream" where
  "new_ReceiveStream n = \<lparr>rs_errorChan = [], rs_lastError = None, rs_beginRecord = replicate n 0,
     rs_beginRecordPointer = 0, rs_beginRecordChan = [], rs_chanClosed = False\<rparr>"

definition Receive :: "goerror option \<Rightarrow> ReceiveOpts \<Rightarrow> ReceiveStream res" where
  "Receive pipe_err opts =
     bind_res (if length (ro_BeginRecord opts) = 312 then Ok 0
       else if length (ro_BeginRecord opts) = 0 then Ok 312
       else Err (ErrText ''BeginRecord is neither 312 bytes nor empty'')) (\<lambda>beginRecordToReadBytes.
         case pipe_err of
           Some e \<Rightarrow> Err e
         | None \<Rightarrow> Ok (new_ReceiveStream beginRecordToReadBytes))"

text \<open>The goroutine, given what it received from the channel; \<open>rfd\<close> is the pipe's read end.\<close>

definition receive_worker ::
  "'k zfs \<Rightarrow> string \<Rightarrow> ReceiveOpts \<Rightarrow> uint32 \<Rightarrow> byte list \<Rightarrow> 'k \<Rightarrow> goerror option res \<times> 'k" where
  "receive_worker z name opts rfd record k =
     (if length record \<noteq> 312 then (Ok (Some (ErrText ''Not enough data received for BeginRecord'')), k)
      else after (issue z ZFS_IOC_RECV_NEW name zero_cmd
                    (Some (receive_req (opts\<lparr>ro_Fd := rfd, ro_BeginRecord := record\<rparr>)))
                    (Some (VPtr (TPtr TReceiveError) (Some (zero_value TReceiveError)))) None k)
             (\<lambda>err s. case err of
                Some e \<Rightarrow> Ok (Some e)
              | None \<Rightarrow> if error_flags (resp_val s) \<noteq> 0 then Ok (Some (ErrText ReceiveError_Error)) else Ok None))"

text \<open>
  \<^verbatim>\<open>WaitAndClose\<close>: the empty record is put behind whatever the writes delivered, the channel is
  closed, and the result of the goroutine is returned. A second call panics.
\<close>

definition WaitAndClose ::
  "'k zfs \<Rightarrow> string \<Rightarrow> ReceiveOpts \<Rightarrow> uint32 \<Rightarrow> ReceiveStream \<Rightarrow> 'k \<Rightarrow> goerror option res \<times> ReceiveStream \<times> 'k" where
  "WaitAndClose z name opts rfd r k =
     (if rs_chanClosed r then (Panic (PanicText ''send on closed channel''), r, k)
      else case rs_beginRecordChan r @ [[]] of
          record # rest \<Rightarrow>
            (case receive_worker z name opts rfd record k of
               (x, k') \<Rightarrow> (x, r\<lparr>rs_beginRecordChan := rest, rs_chanClosed := True\<rparr>, k'))
        | [] \<Rightarrow> (Diverge, r, k))"

section \<open>Writing a stream in pieces\<close>

text \<open>All pieces, with the counts and errors reported.\<close>

primrec write_all ::
  "'p pipe_writer \<Rightarrow> byte list list \<Rightarrow> (ReceiveStream \<times> 'p, (nat \<times> goerror option) list) comp" where
  "write_all wr [] = ret []"
| "write_all wr (buf # bufs) =
     bind_comp (ReceiveStream_Write wr buf) (\<lambda>x. bind_comp (write_all wr bufs) (\<lambda>xs. ret (x # xs)))"

text \<open>A pipe that takes everything, as the bytes it has got.\<close>

definition sink :: "byte list pipe_writer" where
  "sink bs p = ((length bs, None), p @ bs)"

text \<open>The stream after \<open>sofar\<close> has been written, when it expects a begin record of 312 bytes.\<close>

definition written :: "byte list \<Rightarrow> ReceiveStream \<Rightarrow> bool" where
  "written sofar r \<longleftrightarrow> rs_lastError r = None \<and> \<not> rs_chanClosed r \<and>
     rs_beginRecordPointer r = min 312 (length sofar) \<and>
     rs_beginRecord r = take 312 sofar @ replicate (312 - length sofar) 0 \<and>
     rs_beginRecordChan r = (if length sofar \<ge> 312 then [take 312 sofar] else [])"

lemma written_new: "written [] (new_ReceiveStream 312)"
  by (simp add: written_def new_ReceiveStream_def)

lemma fill_record_written:
  assumes "written sofar r" and "length sofar < 312" and "n = min (312 - length sofar) (length buf)"
  shows "\<exists>r'. fill_record buf n r = Ok r' \<and> written (sofar @ take n buf) r'"
proof -
  have r: "rs_beginRecord r = sofar @ replicate (312 - length sofar) 0" "rs_beginRecordPointer r = length sofar"
    "rs_beginRecordChan r = []" "\<not> rs_chanClosed r" "rs_lastError r = None"
    using assms(1,2) by (simp_all add: written_def)
  have n: "n \<le> length buf" "length sofar + n \<le> 312" using assms(2,3) by simp_all
  let ?rec = "sofar @ take n buf @ replicate (312 - (length sofar + n)) 0"
  have rec: "take (length sofar) (rs_beginRecord r) @ take n buf @ drop (length sofar + n) (rs_beginRecord r) = ?rec"
    using n by (simp add: r(1))
  have len: "length ?rec = 312" using n by simp
  show ?thesis
  proof (cases "length sofar + n = 312")
    case True
    then have "n = 312 - length sofar" by simp
    then show ?thesis
      using rec len r n by (auto simp: fill_record_def Let_def written_def)
  next
    case False
    then show ?thesis
      using rec len r n by (auto simp: fill_record_def Let_def written_def)
  qed
qed

lemma Write_written:
  assumes "written sofar r"
  shows "\<exists>r'. ReceiveStream_Write sink buf (r, drop 312 sofar) =
    (Ok (length buf, None), (r', drop 312 (sofar @ buf))) \<and> written (sofar @ buf) r'"
proof (cases "312 \<le> length sofar")
  case True
  then have r: "rs_lastError r = None" "length (rs_beginRecord r) = 312" "rs_beginRecordPointer r = 312"
    using assms by (simp_all add: written_def)
  have "written (sofar @ buf) r" using True assms by (simp add: written_def)
  then show ?thesis
    using r True by (cases buf) (auto simp: Write_defs sink_def)
next
  case False
  let ?n = "min (312 - length sofar) (length buf)"
  have r: "rs_lastError r = None" "length (rs_beginRecord r) = 312" "rs_beginRecordPointer r = length sofar"
    using assms False by (simp_all add: written_def)
  obtain r' where r': "fill_record buf ?n r = Ok r'" "written (sofar @ take ?n buf) r'"
    using fill_record_written [OF assms _ refl] False by force
  have n: "(if 312 - length sofar > length buf then length buf else 312 - length sofar) = ?n" by simp
  show ?thesis
  proof (cases "length buf - ?n = 0")
    case True
    then have "take ?n buf = buf" by simp
    then show ?thesis
      using r r' True False n by (auto simp: Write_defs)
  next
    case rest: False
    then have full: "length sofar + ?n = 312" "?n < length buf" using False by auto
    then have "written (sofar @ buf) r'"
      using r'(2) False by (auto simp: written_def take_append)
    then show ?thesis
      using r r' rest False n full by (auto simp: Write_defs sink_def)
  qed
qed

lemma write_all_written:
  assumes "written sofar r"
  shows "\<exists>r'. write_all sink bufs (r, drop 312 sofar) =
    (Ok (map (\<lambda>buf. (length buf, None)) bufs), (r', drop 312 (sofar @ concat bufs))) \<and> written (sofar @ concat bufs) r'"
  using assms
proof (induction bufs arbitrary: r sofar)
  case Nil
  then show ?case by (simp add: ret_def)
next
  case (Cons buf bufs)
  obtain r1 where r1: "ReceiveStream_Write sink buf (r, drop 312 sofar) =
      (Ok (length buf, None), (r1, drop 312 (sofar @ buf)))" "written (sofar @ buf) r1"
    using Write_written [OF Cons.prems] by blast
  then show ?case using Cons.IH [OF r1(2)] by (auto simp: bind_comp_def ret_def)
qed

text \<open>A stream made for a preset record never delivers one.\<close>

lemma Write_preset:
  assumes "rs_beginRecord r = []"
  shows "snd (ReceiveStream_Write wr buf (r, p)) = (r', p') \<Longrightarrow> rs_beginRecord r' = [] \<and>
    rs_beginRecordChan r' = rs_beginRecordChan r \<and> rs_chanClosed r' = rs_chanClosed r"
  using assms by (auto simp: Write_defs split: if_splits prod.splits option.splits write_error.splits)

section \<open>Properties\<close>

text \<open>Options with a preset begin record, and a system whose kernel accepts every call.\<close>

definition preset_opts :: ReceiveOpts where
  "preset_opts = \<lparr>ro_Origin = '''', ro_SnapshotName = ''t@a'', ro_ReceivedProps = None, ro_LocalProps = None,
     ro_HiddenArgs = False, ro_Fd = 0, ro_BeginRecord = replicate 312 1, ro_CleanupFd = 0, ro_Force = False,
     ro_Resumable = False\<rparr>"

definition idle_zfs :: "unit zfs" where
  "idle_zfs = \<lparr>z_kernel = (\<lambda>fd ioctl c m k. (\<lparr>rp_errno = 0, rp_cmd = c, rp_dst = []\<rparr>, ())),
     z_runtime = (\<lambda>i b. 0), z_os = OtherOS, z_handle = None\<rparr>"

text \<open>
  The stream is split at byte 312 however it is cut: over any sequence of writes, each
  reports its full length and no error, the begin record delivered to the goroutine is the
  first 312 bytes of the stream, delivered once and as soon as they are there, and the pipe gets
  all the bytes behind them in order.
\<close>

theorem Receive_splits_stream:
  "\<exists>r'. write_all sink bufs (new_ReceiveStream 312, []) =
     (Ok (map (\<lambda>buf. (length buf, None)) bufs), (r', drop 312 (concat bufs))) \<and>
   rs_beginRecordChan r' = (if 312 \<le> length (concat bufs) then [take 312 (concat bufs)] else [])"
  using write_all_written [OF written_new, of bufs] by (auto simp: written_def)

text \<open>
  A stream shorter than the begin record: after any writes of less than 312 bytes in all,
  \<^verbatim>\<open>WaitAndClose\<close> reports that there was not enough data, without a system call, and with at
  least 312 bytes it makes the call with the first 312 bytes as the begin record.
\<close>

theorem WaitAndClose_begin_record:
  assumes "write_all sink bufs (new_ReceiveStream 312, []) = (Ok xs, (r, p))"
  shows "(length (concat bufs) < 312 \<longrightarrow>
      (\<exists>r'. WaitAndClose z name opts rfd r k =
        (Ok (Some (ErrText ''Not enough data received for BeginRecord'')), r', k))) \<and>
    (312 \<le> length (concat bufs) \<longrightarrow>
      fst (WaitAndClose z name opts rfd r k) =
        fst (receive_worker z name opts rfd (take 312 (concat bufs)) k))"
proof -
  have "written (concat bufs) r"
    using write_all_written [OF written_new, of bufs] assms by auto
  then show ?thesis
    by (auto simp: WaitAndClose_def written_def receive_worker_def split: prod.splits)
qed

theorem WaitAndClose_begin_record_witness:
  "\<exists>r'. WaitAndClose idle_zfs ''t@a'' preset_opts 4
      (fst (snd (write_all sink [[1, 2], [3]] (new_ReceiveStream 312, [])))) () =
    (Ok (Some (ErrText ''Not enough data received for BeginRecord'')), r', ())"
proof -
  obtain r' where w: "write_all sink [[1, 2], [3]] (new_ReceiveStream 312, []) =
      (Ok [(2, None), (1, None)], (r', drop 312 [1, 2, 3]))"
    using write_all_written [OF written_new, of "[[1, 2], [3]]"] by auto
  show ?thesis using WaitAndClose_begin_record [OF w] w by simp
qed

text \<open>
  A preset begin record cannot work: \<^verbatim>\<open>Receive\<close> accepts options with a record of 312 bytes,
  but the goroutine still waits for one from the stream, which is never delivered, so whatever
  is written \<^verbatim>\<open>WaitAndClose\<close> reports that there was not enough data.
\<close>

theorem Receive_preset_record_fails:
  assumes "length (ro_BeginRecord opts) = 312"
  shows "\<exists>r. Receive None opts = Ok r \<and>
    (\<forall>wr bufs p r' p'. snd (write_all wr bufs (r, p)) = (r', p') \<longrightarrow>
      fst (WaitAndClose z name opts rfd r' k) =
        Ok (Some (ErrText ''Not enough data received for BeginRecord'')))"
proof -
  have pre: "rs_beginRecord r' = [] \<and> rs_beginRecordChan r' = [] \<and> \<not> rs_chanClosed r'"
    if "snd (write_all wr bufs (r, p)) = (r', p')"
      "rs_beginRecord r = []" "rs_beginRecordChan r = []" "\<not> rs_chanClosed r" for wr bufs and p :: 'p and r r' p'
    using that
  proof (induction bufs arbitrary: r p)
    case Nil
    then show ?case by (simp add: ret_def)
  next
    case (Cons buf bufs)
    obtain x r1 p1 where 1: "ReceiveStream_Write wr buf (r, p) = (x, (r1, p1))"
      by (metis prod.collapse)
    then have "rs_beginRecord r1 = [] \<and> rs_beginRecordChan r1 = [] \<and> \<not> rs_chanClosed r1"
      using Write_preset [of r wr buf p r1 p1] Cons.prems by simp
    then show ?case
      using Cons.IH [of r1 p1] Cons.prems(1) 1
      by (cases x) (auto simp: bind_comp_def ret_def split: prod.splits res.splits)
  qed
  show ?thesis
    using assms pre
    by (fastforce simp: Receive_def new_ReceiveStream_def WaitAndClose_def receive_worker_def split: prod.splits)
qed

theorem Receive_preset_record_fails_witness:
  "\<exists>r. Receive None preset_opts = Ok r \<and>
     fst (WaitAndClose idle_zfs ''t@a'' preset_opts 4 (fst (snd (write_all sink [[1, 2], [3]] (r, [])))) ()) =
       Ok (Some (ErrText ''Not enough data received for BeginRecord''))"
proof -
  have len: "length (ro_BeginRecord preset_opts) = 312" by (simp add: preset_opts_def)
  show ?thesis
    using Receive_preset_record_fails [OF len, of idle_zfs "''t@a''" 4 "()"] by (metis prod.collapse)
qed

text \<open>
  A failed stream stays failed: once a write into the pipe has reported an error, every
  later write reports the same error, writes nothing and changes nothing.
\<close>

theorem Write_error_sticky:
  assumes "ReceiveStream_Write wr buf (r, p) = (Ok (n, Some e), (r', p'))"
  shows "ReceiveStream_Write wr' buf' (r', q) = (Ok (0, Some e), (r', q))"
proof -
  have "rs_lastError r' = Some e"
    using assms by (auto simp: Write_defs split: if_splits prod.splits option.splits
        write_error.splits res.splits)
  then show ?thesis by (simp add: ReceiveStream_Write_def)
qed

theorem Write_error_sticky_witness:
  "\<exists>e r'. ReceiveStream_Write (\<lambda>bs p. ((0, Some (PathErrno EPIPE)), p)) [1, 2] (new_ReceiveStream 0, ()) =
      (Ok (0, Some e), (r', ())) \<and>
    ReceiveStream_Write sink [3] (r', []) = (Ok (0, Some e), (r', []))"
proof -
  obtain e r' where w: "ReceiveStream_Write (\<lambda>bs p. ((0, Some (PathErrno EPIPE)), p)) [1, 2] (new_ReceiveStream 0, ()) =
      (Ok (0, Some e), (r', ()))"
    by (simp add: Write_defs new_ReceiveStream_def)
  show ?thesis using w Write_error_sticky [OF w, of sink "[3]" "[]"] by blast
qed

end
