(* ===== verification/Zfs_Replies.thy ===== *)
theory Zfs_Replies
  imports Zfs_Wrappers_Correct Zfs_Receive
begin

text \<open>
  The wrappers end to end, for replies that are decoded into typed targets: what a caller of
  \<^verbatim>\<open>DatasetListNext\<close>, \<^verbatim>\<open>ObjsetStats\<close> and of the goroutine of \<^verbatim>\<open>Receive\<close> gets for what the kernel
  answers, through the retries of \<^verbatim>\<open>NvlistIoctl\<close> and the decoder, by the reference definition of
  decoding.
\<close>

section \<open>Calls and replies\<close>

lemma attempt_cmd_Cookie: "c_Cookie (attempt_cmd rt j name src conf s) = c_Cookie (k_cmd s)"
  by (auto simp: attempt_cmd_def filled_cmd_def put_name_def Let_def split: option.splits)

text \<open>A wrapper's call to a kernel that answers with the given list.\<close>

lemma issue_serves:
  assumes "serves (z_kernel z) (ioctl (ZFS_IOC_FIRST (z_os z))) need f (nvlist_bytes bo ps)" and "wf_nvpairs ps"
    and "need \<le> 8192 * 8 ^ 4" and "length (nvlist_bytes bo ps) \<le> need"
    and "encodable request" and "encodable config" and "decode_into ps v = (x, v')" and "x \<noteq> Diverge"
  shows "\<exists>c k'. c_Cookie c = c_Cookie cmd \<and>
    issue z ioctl name cmd request (Some v) config k = (x, \<lparr>k_kernel = k', k_cmd = f c, k_resp = Some v'\<rparr>)"
proof -
  let ?s = "\<lparr>k_kernel = k, k_cmd = cmd, k_resp = Some v\<rparr>"
  obtain src conf where enc: "encoded request src" "encoded config conf"
    using assms(5,6) encodable_encoded by blast
  have need: "need \<le> dst_size 4" using assms(3) by (simp add: dst_size_pow)
  have dec: "Unmarshal (nvlist_bytes bo ps @ post) v = (x, v')" for post
    using Unmarshal_decode_into [OF assms(2)] assms(7,8) by simp
  obtain j k' where "NvlistIoctl (z_kernel z) (z_runtime z) (zfs_Fd z) (ioctl (ZFS_IOC_FIRST (z_os z))) name request config ?s =
      (x, \<lparr>k_kernel = k', k_cmd = f (attempt_cmd (z_runtime z) j name src conf ?s), k_resp = Some v'\<rparr>)"
    using NvlistIoctl_serves [OF assms(1,2) need assms(4) enc _ dec, of ?s "z_runtime z" "zfs_Fd z" name] by auto
  then show ?thesis
    using attempt_cmd_Cookie [of "z_runtime z" j name src conf ?s] by (auto simp: issue_def)
qed

section \<open>Dataset properties\<close>

text \<open>How the kernel describes a property: its name, a value, and where the value comes from.\<close>

definition prop_item :: "string \<times> nvdata \<times> string \<Rightarrow> string \<times> nvdata" where
  "prop_item p = (case p of (n, d, src) \<Rightarrow> (n, NNvlist [(''value'', d), (''source'', NString src)]))"

definition prop_value :: "nvdata \<Rightarrow> string \<Rightarrow> gval" where
  "prop_value d src = VStruct TPropWithSource [VIface (go_value d), VString TString src]"

definition simple_prop :: "string \<times> nvdata \<times> string \<Rightarrow> bool" where
  "simple_prop p = (case p of (n, d, src) \<Rightarrow> flat d \<and> go_value d \<noteq> None)"

lemma decode_pairs_flat: "flat d \<Longrightarrow> decode_pairs ((n, d) # ps) st v = andthen (decode_flat d st n v) (decode_pairs ps st)"
  by (simp add: decode_pairs_Cons decode_one_flat)

lemma prop_fields:
  "field_index (struct_fields TPropWithSource) ''value'' = Some 0"
  "field_index (struct_fields TPropWithSource) ''source'' = Some 1"
  by code_simp+

lemma decode_prop_struct:
  assumes "flat d" and "go_value d = Some x"
  shows "decode_pairs [(''value'', d), (''source'', NString src)] True (zero_value TPropWithSource) =
    (Ok (), prop_value d src)"
proof -
  have zero: "zero_value TPropWithSource = VStruct TPropWithSource [VIface None, VString TString '''']"
    by (simp add: TPropWithSource_def)
  have ty: "struct_fields TPropWithSource ! 0 = (''Value'', ''value'', TIface)"
    "struct_fields TPropWithSource ! Suc 0 = (''Source'', ''source'', TString)"
    by (simp_all add: TPropWithSource_def)
  have s: "flat (NString src)" by (simp add: flat_def)
  show ?thesis
    unfolding zero using assms
    by (simp add: decode_pairs_flat s decode_flat_def prop_fields ty put_def andthen_def assign_to_def prop_value_def)
qed

lemma decode_prop:
  assumes "simple_prop (n, d, src)"
  shows "decode_one (prop_item (n, d, src)) st (VMap TDatasetPropsWithSource (Some m)) =
    (Ok (), VMap TDatasetPropsWithSource (Some (alist_set n (prop_value d src) m)))"
proof -
  obtain x where x: "flat d" "go_value d = Some x" using assms by (auto simp: simple_prop_def)
  have T: "elem_type TDatasetPropsWithSource = TPropWithSource" "key_type TDatasetPropsWithSource = TString"
    by (simp_all add: TDatasetPropsWithSource_def)
  have k: "kind TPropWithSource = KStruct" by (simp add: TPropWithSource_def)
  have zk: "kind_of (zero_value TPropWithSource) = KStruct" "\<And>p. zero_value TPropWithSource \<noteq> VIface p"
    by (simp_all add: TPropWithSource_def)
  have "decode_target (decode_pairs [(''value'', d), (''source'', NString src)]) False
      (VPtr (TPtr TPropWithSource) (Some (zero_value TPropWithSource))) =
      (Ok (), VPtr (TPtr TPropWithSource) (Some (prop_value d src)))"
    using decode_prop_struct [OF x, of src] zk
    by (auto simp: decode_target_def decode_iface_def decode_container_def split: gval.splits)
  then show ?thesis
    using k by (simp add: prop_item_def decode_one_def decode_nested_def fresh_elem_def T deref_ptr_def
        SetMapIndex_def prop_value_def assign_to_def put_def)
qed

lemma decode_props:
  assumes "list_all simple_prop ps"
  shows "decode_pairs (map prop_item ps) st (VMap TDatasetPropsWithSource (Some m)) =
    (Ok (), VMap TDatasetPropsWithSource (Some (fold (\<lambda>(n, v). alist_set n v) (map (\<lambda>(n, d, src). (n, prop_value d src)) ps) m)))"
  using assms
proof (induction ps arbitrary: m)
  case (Cons p ps)
  obtain n d src where p: "p = (n, d, src)" by (cases p)
  then show ?case
    using Cons decode_prop [of n d src st m] by (simp add: decode_pairs_Cons andthen_def)
qed simp

lemma decode_into_props:
  assumes "list_all simple_prop ps" and "distinct (map fst ps)"
  shows "decode_into (map prop_item ps) (VMap TDatasetPropsWithSource (Some [])) =
    (Ok (), VMap TDatasetPropsWithSource (Some (map (\<lambda>(n, d, src). (n, prop_value d src)) ps)))"
proof -
  have "map fst (map (\<lambda>(n, d, src). (n, prop_value d src)) ps) = map fst ps" by (induction ps) auto
  then have "distinct (map fst (map (\<lambda>(n, d, src). (n, prop_value d src)) ps))" using assms(2) by (simp only:)
  then have "fold (\<lambda>(n, v). alist_set n v) (map (\<lambda>(n, d, src). (n, prop_value d src)) ps) [] =
      map (\<lambda>(n, d, src). (n, prop_value d src)) ps"
    using fold_alist_set_distinct [of "[]" "map (\<lambda>(n, d, src). (n, prop_value d src)) ps"] by simp
  then show ?thesis
    using decode_props [OF assms(1), of False "[]"]
    by (simp add: decode_into_def decode_target_def decode_iface_def decode_container_def)
qed

text \<open>
  C23. \<^verbatim>\<open>DatasetListNext\<close> and \<^verbatim>\<open>ObjsetStats\<close> end to end: when the kernel describes each property by
  its value and its source, in either byte order and after any number of \<^verbatim>\<open>ENOMEM\<close> answers, the
  caller gets exactly these properties as a map of \<^verbatim>\<open>PropWithSource\<close>, no error, and, when
  listing, the name, the next cursor and the statistics of the command the kernel returned
  for a command that carried the caller's cursor.
\<close>

theorem dataset_props_returned:
  assumes "list_all simple_prop ps" and "distinct (map fst ps)" and "wf_nvpairs (map prop_item ps)"
    and "need \<le> 8192 * 8 ^ 4" and "length (nvlist_bytes bo (map prop_item ps)) \<le> need"
    and "serves (z_kernel z) (ZFS_IOC_DATASET_LIST_NEXT (ZFS_IOC_FIRST (z_os z))) need f (nvlist_bytes bo (map prop_item ps))"
    and "serves (z_kernel z) (ZFS_IOC_OBJSET_STATS (ZFS_IOC_FIRST (z_os z))) need g (nvlist_bytes bo (map prop_item ps))"
  shows "(\<exists>c. c_Cookie c = cursor \<and> fst (DatasetListNext z name cursor k) =
      Ok (delimitedBufToString (c_Name (f c)), c_Cookie (f c), c_Objset_stats (f c),
          VMap TDatasetPropsWithSource (Some (map (\<lambda>(n, d, src). (n, prop_value d src)) ps)), None)) \<and>
    fst (ObjsetStats z name k) =
      Ok (VMap TDatasetPropsWithSource (Some (map (\<lambda>(n, d, src). (n, prop_value d src)) ps)), None)"
proof -
  have none: "encodable None" by (simp add: encodable_def)
  note dec = decode_into_props [OF assms(1,2)]
  note served = issue_serves [OF _ assms(3-5) none none dec]
  obtain c k' where "c_Cookie c = cursor" "issue z ZFS_IOC_DATASET_LIST_NEXT name (zero_cmd\<lparr>c_Cookie := cursor\<rparr>) None
      (Some (VMap TDatasetPropsWithSource (Some []))) None k =
      (Ok (), \<lparr>k_kernel = k', k_cmd = f c, k_resp = Some (VMap TDatasetPropsWithSource (Some (map (\<lambda>(n, d, src). (n, prop_value d src)) ps)))\<rparr>)"
    using served [where ioctl = ZFS_IOC_DATASET_LIST_NEXT, OF assms(6), of "zero_cmd\<lparr>c_Cookie := cursor\<rparr>" name k] by auto
  moreover obtain c' k'' where "issue z ZFS_IOC_OBJSET_STATS name zero_cmd None
      (Some (VMap TDatasetPropsWithSource (Some []))) None k =
      (Ok (), \<lparr>k_kernel = k'', k_cmd = g c', k_resp = Some (VMap TDatasetPropsWithSource (Some (map (\<lambda>(n, d, src). (n, prop_value d src)) ps)))\<rparr>)"
    using served [where ioctl = ZFS_IOC_OBJSET_STATS, OF assms(7), of zero_cmd name k] by auto
  ultimately show ?thesis
    by (auto simp: DatasetListNext_def ObjsetStats_def after_def resp_val_def)
qed

definition sample_props :: "(string \<times> nvdata \<times> string) list" where
  "sample_props = [(''used'', NNum typeUint64 42, ''''), (''mountpoint'', NString ''/t'', ''t'')]"

definition props_kernel :: "unit kernel" where
  "props_kernel fd ioctl c m k =
     (if length (um_dst m) < 9000 then (\<lparr>rp_errno = ENOMEM, rp_cmd = zero_cmd, rp_dst = []\<rparr>, ())
      else (\<lparr>rp_errno = 0, rp_cmd = c\<lparr>c_Cookie := c_Cookie c + 1\<rparr>,
              rp_dst = nvlist_bytes LittleEndian (map prop_item sample_props)\<rparr>, ()))"

lemma props_kernel_serves:
  "serves props_kernel ioctl 9000 (\<lambda>c. c\<lparr>c_Cookie := c_Cookie c + 1\<rparr>) (nvlist_bytes LittleEndian (map prop_item sample_props))"
  by (simp add: serves_def props_kernel_def)

definition props_zfs :: "unit zfs" where
  "props_zfs = \<lparr>z_kernel = props_kernel, z_runtime = (\<lambda>i b. 0), z_os = OtherOS, z_handle = Some 3\<rparr>"

theorem dataset_props_returned_witness:
  "fst (ObjsetStats props_zfs ''t'' ()) =
     Ok (VMap TDatasetPropsWithSource (Some [(''used'', prop_value (NNum typeUint64 42) ''''),
       (''mountpoint'', prop_value (NString ''/t'') ''t'')]), None) \<and>
   (\<exists>n st v. fst (DatasetListNext props_zfs ''t'' 7 ()) = Ok (n, 8, st, v, None))"
proof -
  have 1: "list_all simple_prop sample_props" "distinct (map fst sample_props)" by code_simp+
  have 2: "wf_nvpairs (map prop_item sample_props)" by code_simp
  have len: "length (nvlist_bytes LittleEndian (map prop_item sample_props)) \<le> 9000" by code_simp
  have K: "serves (z_kernel props_zfs) (ioctl (ZFS_IOC_FIRST (z_os props_zfs))) 9000 (\<lambda>c. c\<lparr>c_Cookie := c_Cookie c + 1\<rparr>)
      (nvlist_bytes LittleEndian (map prop_item sample_props))" for ioctl
    by (simp add: props_zfs_def props_kernel_serves)
  from dataset_props_returned [OF 1 2 _ len K [of ZFS_IOC_DATASET_LIST_NEXT] K [of ZFS_IOC_OBJSET_STATS], of 7 "''t''" "()"]
  show ?thesis by (auto simp: sample_props_def)
qed

section \<open>Property errors of a receive\<close>

lemma receive_fields:
  "field_index (struct_fields TReceiveError) ''read_bytes'' = Some 0"
  "field_index (struct_fields TReceiveError) ''error_flags'' = Some 1"
  "field_index (struct_fields TReceiveError) ''errors'' = Some 2"
  by code_simp+

text \<open>
  C37. A receive that could not apply a property crashes the program: the kernel reports it in
  the list \<^verbatim>\<open>errors\<close>, which is decoded into the nil map of a new \<^verbatim>\<open>ReceiveError\<close>. The first entry is
  an assignment to an entry of a nil map, so the goroutine panics and the error described by
  \<^verbatim>\<open>ReceiveError\<close> never reaches the caller.
\<close>

theorem Receive_property_errors_crash:
  assumes "ps = [(''read_bytes'', NNum typeUint64 b), (''error_flags'', NNum typeUint64 fl),
      (''errors'', NNvlist ((prop, NNum typeInt32 e) # qs))]"
    and "wf_nvpairs ps" and "need \<le> 8192 * 8 ^ 4" and "length (nvlist_bytes bo ps) \<le> need"
    and "serves (z_kernel z) (ZFS_IOC_RECV_NEW (ZFS_IOC_FIRST (z_os z))) need f (nvlist_bytes bo ps)"
    and "length rec = 312" and "encodable (Some (receive_req (opts\<lparr>ro_Fd := rfd, ro_BeginRecord := rec\<rparr>)))"
  shows "fst (receive_worker z name opts rfd rec k) = Panic NilMapWrite"
proof -
  let ?T = "TReceiveError" and ?M = "TMap TString TInt32"
  have kinds: "scalar_kind typeUint64 = KUint64" "scalar_kind typeInt32 = KInt32" by code_simp+
  have zero: "zero_value ?T = VStruct ?T [VNum TUint64 0, VNum TUint64 0, VMap ?M None]"
    by (simp add: TReceiveError_def)
  have ty: "struct_fields ?T ! 0 = (''ReadBytes'', ''read_bytes'', TUint64)"
    "struct_fields ?T ! Suc 0 = (''ErrorFlags'', ''error_flags'', TUint64)"
    by (simp_all add: TReceiveError_def)
  have "decode_pairs ((prop, NNum typeInt32 e) # qs) True (VMap ?M None) = (Panic NilMapWrite, VMap ?M None)"
    by (simp add: decode_pairs_flat flat_def decode_flat_def kinds SetMapIndex_def assign_to_def put_def andthen_def)
  then have "decode_pairs ps True (zero_value ?T) =
      (Panic NilMapWrite, VStruct ?T [VNum TUint64 b, VNum TUint64 fl, VMap ?M None])"
    unfolding zero assms(1)
    by (simp add: decode_pairs_flat flat_def decode_flat_def receive_fields ty kinds assign_to_def put_def andthen_def
        decode_nested_def decode_target_def decode_iface_def decode_container_def)
  then have dec: "decode_into ps (VPtr (TPtr ?T) (Some (zero_value ?T))) =
      (Panic NilMapWrite, VPtr (TPtr ?T) (Some (VStruct ?T [VNum TUint64 b, VNum TUint64 fl, VMap ?M None])))"
    by (simp add: zero decode_into_def decode_target_def decode_iface_def decode_container_def)
  have none: "encodable None" by (simp add: encodable_def)
  from issue_serves [where ioctl = ZFS_IOC_RECV_NEW, OF assms(5,2,3,4,7) none dec, of zero_cmd name k] show ?thesis
    using assms(6) by (auto simp: receive_worker_def after_def)
qed

text \<open>The reply to a receive that could not set a mount point.\<close>

definition error_reply :: nvpairs where
  "error_reply = [(''read_bytes'', NNum typeUint64 4096), (''error_flags'', NNum typeUint64 1),
     (''errors'', NNvlist [(''mountpoint'', NNum typeInt32 13)])]"

definition error_zfs :: "unit zfs" where
  "error_zfs = \<lparr>z_kernel = (\<lambda>fd ioctl c m k. (\<lparr>rp_errno = (if length (um_dst m) < 200 then ENOMEM else 0), rp_cmd = c,
       rp_dst = nvlist_bytes LittleEndian error_reply\<rparr>, ())), z_runtime = (\<lambda>i b. 0), z_os = OtherOS, z_handle = Some 3\<rparr>"

theorem Receive_property_errors_crash_witness:
  "fst (receive_worker error_zfs ''t'' preset_opts 4 (replicate 312 1) ()) = Panic NilMapWrite"
proof -
  have wf: "wf_nvpairs error_reply" by code_simp
  have len: "length (nvlist_bytes LittleEndian error_reply) \<le> 200" by code_simp
  have K: "serves (z_kernel error_zfs) (ZFS_IOC_RECV_NEW (ZFS_IOC_FIRST (z_os error_zfs))) 200 (\<lambda>c. c)
      (nvlist_bytes LittleEndian error_reply)"
    by (simp add: serves_def error_zfs_def)
  have "nvlist_of (receive_req (preset_opts\<lparr>ro_Fd := 4, ro_BeginRecord := replicate 312 1\<rparr>)) \<noteq> None" by code_simp
  then have enc: "encodable (Some (receive_req (preset_opts\<lparr>ro_Fd := 4, ro_BeginRecord := replicate 312 1\<rparr>)))"
    using Marshal_nvlist_of by (fastforce simp: encodable_def)
  show ?thesis
    by (rule Receive_property_errors_crash [OF error_reply_def wf _ len K _ enc]) simp_all
qed

end
