(* ===== verification/Go_Concurrent.thy ===== *)
theory Go_Concurrent
  imports Nv_Prelude
begin

text \<open>
  What the two streams of \<^verbatim>\<open>ioctl/wrappers.go\<close> use of Go's concurrency and of the operating
  system: buffered channels and pipes, both of bounded capacity. An operation that blocks is
  \<open>None\<close>. A program of several goroutines is a step relation that interleaves them; the locales
  are the contracts of such a system: \<open>protocol\<close> an invariant, \<open>scheduled\<close> an executable form of
  the steps by which a run can be replayed, \<open>winding_down\<close> a phase in which every step brings
  the system closer to its end.
\<close>

section \<open>Channels\<close>

type_synonym 'a chan = "'a list"

definition chan_send :: "nat \<Rightarrow> 'a \<Rightarrow> 'a chan \<Rightarrow> 'a chan option" where
  "chan_send cap x ch = (if length ch < cap then Some (ch @ [x]) else None)"

section \<open>Pipes\<close>

text \<open>
  An \<^verbatim>\<open>os.Pipe\<close>: the bytes in flight, how many there may be, and whether each end is open. A read
  takes some of the bytes (how many, up to the buffer, is \<open>k\<close>), blocks while there are none and
  the write end is open, and reports the end of file afterwards. A write blocks while the pipe
  is full; what happens to it when the read end is closed is up to the writer.
\<close>

record pipe =
  pi_data :: "byte list"
  pi_cap :: nat
  pi_wopen :: bool
  pi_ropen :: bool

definition new_pipe :: "nat \<Rightarrow> pipe" where
  "new_pipe cap = \<lparr>pi_data = [], pi_cap = cap, pi_wopen = True, pi_ropen = True\<rparr>"

definition pipe_Read :: "nat \<Rightarrow> nat \<Rightarrow> pipe \<Rightarrow> ((byte list \<times> goerror option) \<times> pipe) option" where
  "pipe_Read k len p =
     (if \<not> pi_ropen p then Some (([], Some (ErrText ''file already closed'')), p)
      else if len = 0 then Some (([], None), p)
      else if pi_data p \<noteq> [] then
        (let m = min (max 1 k) (min len (length (pi_data p)))
         in Some ((take m (pi_data p), None), p\<lparr>pi_data := drop m (pi_data p)\<rparr>))
      else if pi_wopen p then None
      else Some (([], Some ErrEOF), p))"

definition pipe_put :: "byte \<Rightarrow> pipe \<Rightarrow> pipe option" where
  "pipe_put b p = (if length (pi_data p) < pi_cap p then Some (p\<lparr>pi_data := pi_data p @ [b]\<rparr>) else None)"

lemma pipe_Read_cases:
  assumes "pipe_Read k len p = Some ((bs, err), p')" and "pi_ropen p"
  shows "bs @ pi_data p' = pi_data p \<and> pi_ropen p' \<and> pi_wopen p' = pi_wopen p \<and> pi_cap p' = pi_cap p \<and>
    (err = None \<or> (err = Some ErrEOF \<and> bs = [] \<and> pi_data p = [] \<and> \<not> pi_wopen p)) \<and>
    (err = None \<and> 0 < len \<longrightarrow> bs \<noteq> [] \<and> length bs \<le> len)"
proof -
  let ?m = "min (max 1 k) (min len (length (pi_data p)))"
  have m: "0 < len \<Longrightarrow> pi_data p \<noteq> [] \<Longrightarrow> 0 < ?m" "?m \<le> len" "?m \<le> length (pi_data p)" by simp_all
  then have "take ?m (pi_data p) \<noteq> []" if "0 < len" "pi_data p \<noteq> []" using that by (metis less_irrefl take_eq_Nil)
  then show ?thesis
    using assms m unfolding pipe_Read_def Let_def by (auto simp del: take_eq_Nil split: if_splits)
qed

lemma pipe_Read_closed:
  "\<not> pi_ropen p \<Longrightarrow> pipe_Read k len p = Some (([], Some (ErrText ''file already closed'')), p)"
  by (simp add: pipe_Read_def)

section \<open>Reachable states\<close>

inductive reach :: "('s \<Rightarrow> 's \<Rightarrow> bool) \<Rightarrow> 's \<Rightarrow> 's \<Rightarrow> bool" for step s0 where
  start: "reach step s0 s0"
| step: "reach step s0 s \<Longrightarrow> step s s' \<Longrightarrow> reach step s0 s'"

lemma reach_trans: "reach step s s1 \<Longrightarrow> reach step s0 s \<Longrightarrow> reach step s0 s1"
  by (induction rule: reach.induct) (auto intro: reach.step)

primrec run_acts :: "('a \<Rightarrow> 's \<Rightarrow> 's option) \<Rightarrow> 'a list \<Rightarrow> 's \<Rightarrow> 's option" where
  "run_acts act [] s = Some s"
| "run_acts act (a # as) s = (case act a s of None \<Rightarrow> None | Some s' \<Rightarrow> run_acts act as s')"

text \<open>The state after a schedule, the initial state if it cannot be followed.\<close>

definition after_run :: "('a \<Rightarrow> 's \<Rightarrow> 's option) \<Rightarrow> 'a list \<Rightarrow> 's \<Rightarrow> 's" where
  "after_run act as s = (case run_acts act as s of Some s' \<Rightarrow> s' | None \<Rightarrow> s)"

locale protocol =
  fixes init :: 's
    and step :: "'s \<Rightarrow> 's \<Rightarrow> bool"
    and inv :: "'s \<Rightarrow> bool"
  assumes inv_init: "inv init"
    and inv_step: "inv s \<Longrightarrow> step s s' \<Longrightarrow> inv s'"
begin

lemma reach_inv: "reach step init s \<Longrightarrow> inv s"
  by (induction rule: reach.induct) (auto intro: inv_init inv_step)

end

locale scheduled =
  fixes step :: "'s \<Rightarrow> 's \<Rightarrow> bool"
    and act :: "'a \<Rightarrow> 's \<Rightarrow> 's option"
  assumes act_sound: "act a s = Some s' \<Longrightarrow> step s s'"
begin

lemma run_reach: "run_acts act as s = Some s' \<Longrightarrow> reach step s0 s \<Longrightarrow> reach step s0 s'"
proof (induction as arbitrary: s)
  case (Cons a as)
  then obtain s1 where "act a s = Some s1" "run_acts act as s1 = Some s'"
    by (auto split: option.splits)
  then show ?case using Cons act_sound reach.step by metis
qed simp

lemma after_run_reach: "reach step s (after_run act as s)"
  by (auto simp: after_run_def intro: run_reach reach.start split: option.splits)

end

text \<open>
  A phase, entered once and left only at the end, in which every step decreases a measure and
  a system that has not ended can move: it ends, whatever the order of steps.
\<close>

locale winding_down =
  fixes step :: "'s \<Rightarrow> 's \<Rightarrow> bool"
    and good :: "'s \<Rightarrow> bool"
    and final :: "'s \<Rightarrow> bool"
    and left :: "'s \<Rightarrow> nat"
  assumes good_step: "good s \<Longrightarrow> \<not> final s \<Longrightarrow> step s s' \<Longrightarrow> good s' \<and> left s' < left s"
    and good_moves: "good s \<Longrightarrow> \<not> final s \<Longrightarrow> \<exists>s'. step s s'"
begin

lemma ends: "good s \<Longrightarrow> \<exists>s'. reach step s s' \<and> final s'"
proof (induction "left s" arbitrary: s rule: less_induct)
  case less
  show ?case
  proof (cases "final s")
    case True
    then show ?thesis by (blast intro: reach.start)
  next
    case False
    then obtain s1 where s1: "step s s1" "good s1" "left s1 < left s"
      using less.prems good_step good_moves by blast
    then obtain s' where "reach step s1 s'" "final s'" using less.hyps by blast
    then show ?thesis using reach_trans [of step s1 s' s] s1(1) reach.start reach.step by metis
  qed
qed

text \<open>No run avoids the end: a sequence of steps longer than the measure contains a final state.\<close>

lemma bounded:
  assumes "good (f 0)" and "\<And>i. i < n \<Longrightarrow> step (f i) (f (Suc i))" and "left (f 0) < n"
  shows "\<exists>i\<le>n. final (f i)"
proof (rule ccontr)
  assume nf: "\<not> (\<exists>i\<le>n. final (f i))"
  have "i \<le> n \<Longrightarrow> good (f i) \<and> left (f i) + i \<le> left (f 0)" for i
  proof (induction i)
    case (Suc i)
    then have i: "good (f i)" "left (f i) + i \<le> left (f 0)" "\<not> final (f i)" "step (f i) (f (Suc i))"
      using nf assms(2) by auto
    then show ?case using good_step [OF i(1,3,4)] by simp
  qed (use assms(1) in simp)
  from this [of n] show False using assms(3) by simp
qed

end

end
