(* ===== verification/Zfs_Send.thy ===== *)
theory Zfs_Send
  imports Zfs_Wrappers Go_Concurrent
begin

text \<open>
  Model of the send stream of \<^verbatim>\<open>ioctl/wrappers.go\<close>: \<^verbatim>\<open>sendStream\<close> with its methods, the
  options and \<^verbatim>\<open>Send\<close>. The goroutine of \<^verbatim>\<open>Send\<close>, the kernel that writes into the pipe and the
  reader run concurrently: a step relation interleaves them. A call that blocks is \<open>None\<close>. The
  pipe has a bounded capacity, so the kernel may have to wait for the reader, and the reader
  may close the stream at any time, in which case the kernel's next write fails.
\<close>

section \<open>sendStream\<close>

text \<open>\<^verbatim>\<open>errorChan\<close> holds at most one value, the error or nil.\<close>

record sendStream =
  ss_peekBuf :: "byte list"
  ss_errorChan :: "goerror option list"
  ss_lastError :: "goerror option"
  ss_isEOF :: bool
  ss_r :: pipe

text \<open>What both methods do at the end of the pipe: wait for the result and keep it.\<close>

definition take_result :: "byte list \<Rightarrow> sendStream \<Rightarrow> ((byte list \<times> goerror option) \<times> sendStream) option" where
  "take_result bs s =
     (case ss_errorChan s of
        [] \<Rightarrow> None
      | e # rest \<Rightarrow>
          let lastError = (case e of None \<Rightarrow> Some ErrEOF | Some e \<Rightarrow> Some e)
          in Some ((bs, lastError), s\<lparr>ss_errorChan := rest, ss_lastError := lastError, ss_isEOF := True\<rparr>))"

definition sendStream_Read ::
  "nat \<Rightarrow> nat \<Rightarrow> sendStream \<Rightarrow> ((byte list \<times> goerror option) \<times> sendStream) option" where
  "sendStream_Read k len s =
     (if ss_isEOF s then Some (([], ss_lastError s), s)
      else if length (ss_peekBuf s) > 0 then
        (let n = min len (length (ss_peekBuf s))
         in Some ((take n (ss_peekBuf s), None), s\<lparr>ss_peekBuf := drop n (ss_peekBuf s)\<rparr>))
      else case pipe_Read k len (ss_r s) of
          None \<Rightarrow> None
        | Some ((bs, err), p) \<Rightarrow>
            if err = Some ErrEOF then take_result bs (s\<lparr>ss_r := p\<rparr>)
            else Some ((bs, err), s\<lparr>ss_r := p\<rparr>))"

definition sendStream_peek ::
  "nat \<Rightarrow> nat \<Rightarrow> sendStream \<Rightarrow> ((byte list \<times> goerror option) \<times> sendStream) option" where
  "sendStream_peek k len s =
     (if ss_isEOF s then Some (([], ss_lastError s), s)
      else case pipe_Read k len (ss_r s) of
          None \<Rightarrow> None
        | Some ((bs, err), p) \<Rightarrow>
            let s = s\<lparr>ss_r := p, ss_peekBuf := ss_peekBuf s @ bs\<rparr> in
            if err = Some ErrEOF then take_result bs s else Some ((bs, err), s))"

definition sendStream_Close :: "sendStream \<Rightarrow> sendStream" where
  "sendStream_Close s = s\<lparr>ss_r := (ss_r s)\<lparr>pi_ropen := False\<rparr>\<rparr>"

section \<open>Options\<close>

record SendOptions =
  so_Fd :: uint32
  so_From :: string
  so_FromBookmark :: string
  so_LargeBlocks :: bool
  so_Embed :: bool
  so_Compress :: bool
  so_Raw :: bool
  so_Saved :: bool
  so_ResumeObject :: uint64
  so_ResumeOffset :: uint64

definition send_req :: "SendOptions \<Rightarrow> gval" where
  "send_req opts = VStruct (TNamed ''SendOptions'' (TStruct
     [(''Fd'', ''fd'', TInt32), (''From'', ''fromsnap,omitempty'', TString),
      (''FromBookmark'', ''redactbook,omitempty'', TString),
      (''LargeBlocks'', ''largeblockok'', TBool), (''Embed'', ''embedok'', TBool),
      (''Compress'', ''compress'', TBool), (''Raw'', ''rawok'', TBool), (''Saved'', ''savedok'', TBool),
      (''ResumeObject'', ''resume_object,omitempty'', TUint64),
      (''ResumeOffset'', ''resume_offset,omitempty'', TUint64)]))
     [VNum TInt32 (ucast (so_Fd opts)), VString TString (so_From opts), VString TString (so_FromBookmark opts),
      VBool TBool (so_LargeBlocks opts), VBool TBool (so_Embed opts), VBool TBool (so_Compress opts),
      VBool TBool (so_Raw opts), VBool TBool (so_Saved opts), VNum TUint64 (so_ResumeObject opts),
      VNum TUint64 (so_ResumeOffset opts)]"

text \<open>The call the goroutine makes; \<open>wfd\<close> is the descriptor of the pipe's write end.\<close>

definition send_ioctl :: "'k zfs \<Rightarrow> string \<Rightarrow> SendOptions \<Rightarrow> uint32 \<Rightarrow> 'k \<Rightarrow> unit res \<times> 'k" where
  "send_ioctl z name options wfd k =
     only_err (issue z ZFS_IOC_SEND_NEW name zero_cmd (Some (send_req (options\<lparr>so_Fd := wfd\<rparr>)))
       (Some (VPtr (TPtr (TStruct [])) (Some (VStruct (TStruct []) [])))) None k)"

section \<open>Send as a concurrent system\<close>

text \<open>
  The goroutine: inside the system call, with the bytes the kernel has still to write and the
  error the call will return; with that error; having sent it; having closed the write end.
\<close>

datatype worker =
    InIoctl "byte list" "goerror option"
  | HasResult "goerror option"
  | SentResult
  | WorkerDone

text \<open>The caller of \<^verbatim>\<open>Send\<close>: peeking, failed with an error, reading the stream it got, or done with it.\<close>

datatype phase = Peeking | Failed "goerror option" | Streaming | Closed

record send_sys =
  sy_stream :: sendStream
  sy_worker :: worker
  sy_phase :: phase
  sy_seen :: "byte list"

definition Send_init :: "nat \<Rightarrow> byte list \<Rightarrow> goerror option \<Rightarrow> send_sys" where
  "Send_init cap data result =
     \<lparr>sy_stream = \<lparr>ss_peekBuf = [], ss_errorChan = [], ss_lastError = None, ss_isEOF = False, ss_r = new_pipe cap\<rparr>,
      sy_worker = InIoctl data result, sy_phase = Peeking, sy_seen = []\<rparr>"

text \<open>
  \<^verbatim>\<open>Send\<close> itself: the system it starts, with the error or the write end's descriptor from
  \<^verbatim>\<open>os.Pipe\<close>; \<open>cap\<close> is the capacity of the pipe and \<open>data\<close> are the bytes the kernel writes to
  it during the call.
\<close>

definition Send ::
  "'k zfs \<Rightarrow> string \<Rightarrow> SendOptions \<Rightarrow> goerror + uint32 \<Rightarrow> nat \<Rightarrow> byte list \<Rightarrow> 'k \<Rightarrow> send_sys res" where
  "Send z name options os_pipe cap data k =
     (case os_pipe of
        Inl e \<Rightarrow> Err e
      | Inr wfd \<Rightarrow>
          (case fst (send_ioctl z name options wfd k) of
             Ok _ \<Rightarrow> Ok (Send_init cap data None)
           | Err e \<Rightarrow> Ok (Send_init cap data (Some e))
           | Panic p \<Rightarrow> Panic p
           | Diverge \<Rightarrow> Diverge))"

text \<open>The steps of the goroutine and the kernel inside it; the channel has room for one value.\<close>

definition worker_step :: "send_sys \<Rightarrow> send_sys option" where
  "worker_step s =
     (let st = sy_stream s in
      case sy_worker s of
        InIoctl [] e \<Rightarrow> Some (s\<lparr>sy_worker := HasResult e\<rparr>)
      | InIoctl (b # bs) e \<Rightarrow>
          if pi_ropen (ss_r st) then
            map_option (\<lambda>p. s\<lparr>sy_worker := InIoctl bs e, sy_stream := st\<lparr>ss_r := p\<rparr>\<rparr>) (pipe_put b (ss_r st))
          else None
      | HasResult e \<Rightarrow>
          map_option (\<lambda>ch. s\<lparr>sy_worker := SentResult, sy_stream := st\<lparr>ss_errorChan := ch\<rparr>\<rparr>)
            (chan_send 1 e (ss_errorChan st))
      | SentResult \<Rightarrow>
          Some (s\<lparr>sy_worker := WorkerDone, sy_stream := st\<lparr>ss_r := (ss_r st)\<lparr>pi_wopen := False\<rparr>\<rparr>\<rparr>)
      | WorkerDone \<Rightarrow> None)"

text \<open>The kernel's write into a pipe nobody reads: the call ends early, with an error of the kernel's choice.\<close>

definition broken_step :: "goerror \<Rightarrow> send_sys \<Rightarrow> send_sys option" where
  "broken_step e' s =
     (case sy_worker s of
        InIoctl (b # bs) e \<Rightarrow>
          if pi_ropen (ss_r (sy_stream s)) then None else Some (s\<lparr>sy_worker := HasResult (Some e')\<rparr>)
      | _ \<Rightarrow> None)"

text \<open>The rest of \<^verbatim>\<open>Send\<close> in the caller: one peek of one byte, and what follows from it.\<close>

definition peek_step :: "nat \<Rightarrow> send_sys \<Rightarrow> send_sys option" where
  "peek_step k s =
     (case sendStream_peek k 1 (sy_stream s) of
        None \<Rightarrow> None
      | Some ((bs, None), st) \<Rightarrow> Some (s\<lparr>sy_stream := st, sy_phase := Streaming\<rparr>)
      | Some ((bs, Some e), st) \<Rightarrow>
          Some (s\<lparr>sy_stream := st\<lparr>ss_r := (ss_r st)\<lparr>pi_ropen := False, pi_wopen := False\<rparr>\<rparr>,
                  sy_phase := Failed (Some e)\<rparr>))"

inductive goroutine_step :: "send_sys \<Rightarrow> send_sys \<Rightarrow> bool" where
  work: "worker_step s = Some s' \<Longrightarrow> goroutine_step s s'"
| broken: "broken_step e s = Some s' \<Longrightarrow> goroutine_step s s'"

inductive send_step :: "send_sys \<Rightarrow> send_sys \<Rightarrow> bool" where
  go: "goroutine_step s s' \<Longrightarrow> send_step s s'"
| peek: "sy_phase s = Peeking \<Longrightarrow> peek_step k s = Some s' \<Longrightarrow> send_step s s'"
| read: "sy_phase s \<in> {Streaming, Closed} \<Longrightarrow> sendStream_Read k len (sy_stream s) = Some ((bs, err), st) \<Longrightarrow>
    send_step s (s\<lparr>sy_stream := st, sy_seen := sy_seen s @ bs\<rparr>)"
| close: "sy_phase s = Streaming \<Longrightarrow>
    send_step s (s\<lparr>sy_stream := sendStream_Close (sy_stream s), sy_phase := Closed\<rparr>)"

inductive_cases goroutine_stepE: "goroutine_step s s'"
inductive_cases send_stepE: "send_step s s'"

section \<open>The invariant\<close>

text \<open>The error a reader gets in the end: end of file when the call succeeded.\<close>

definition final_error :: "goerror option \<Rightarrow> goerror option" where
  "final_error result = (case result of None \<Rightarrow> Some ErrEOF | Some e \<Rightarrow> Some e)"

fun worker_todo :: "worker \<Rightarrow> byte list" where
  "worker_todo (InIoctl bs e) = bs"
| "worker_todo _ = []"

fun worker_result :: "worker \<Rightarrow> goerror option list" where
  "worker_result (InIoctl bs e) = [e]"
| "worker_result (HasResult e) = [e]"
| "worker_result _ = []"

text \<open>What holds until the reader closes the stream: no byte is lost and the result is still there.\<close>

definition intact :: "byte list \<Rightarrow> goerror option \<Rightarrow> send_sys \<Rightarrow> bool" where
  "intact data result s \<longleftrightarrow>
     (let st = sy_stream s; p = ss_r st in
      sy_seen s @ ss_peekBuf st @ pi_data p @ worker_todo (sy_worker s) = data \<and>
      ss_errorChan st @ worker_result (sy_worker s) = (if ss_isEOF st then [] else [result]) \<and>
      (ss_isEOF st \<longrightarrow> pi_data p = []) \<and>
      (sy_phase s = Peeking \<longrightarrow> sy_seen s = [] \<and> ss_peekBuf st = [] \<and> \<not> ss_isEOF st) \<and>
      ((\<forall>e. sy_phase s \<noteq> Failed e) \<longrightarrow> pi_ropen p \<and> (pi_wopen p \<longleftrightarrow> sy_worker s \<noteq> WorkerDone)) \<and>
      (\<forall>e. sy_phase s = Failed e \<longrightarrow> ss_isEOF st \<and> e = final_error result \<and> sy_seen s = []))"

definition send_inv :: "byte list \<Rightarrow> goerror option \<Rightarrow> send_sys \<Rightarrow> bool" where
  "send_inv data result s \<longleftrightarrow>
     (let st = sy_stream s in
      0 < pi_cap (ss_r st) \<and>
      length (ss_errorChan st @ worker_result (sy_worker s)) \<le> 1 \<and>
      (ss_isEOF st \<longrightarrow> ss_lastError st = final_error result \<and> ss_peekBuf st = [] \<and>
        sy_worker s \<in> {SentResult, WorkerDone}) \<and>
      (if sy_phase s = Closed then \<not> pi_ropen (ss_r st) \<and> (\<exists>rest. sy_seen s @ ss_peekBuf st @ rest = data)
       else intact data result s))"

lemma send_inv_init: "0 < cap \<Longrightarrow> send_inv data result (Send_init cap data result)"
  by (simp add: send_inv_def intact_def Send_init_def new_pipe_def Let_def)

lemma send_inv_work:
  assumes "send_inv data result s" and "worker_step s = Some s'"
  shows "send_inv data result s'"
proof (cases "sy_worker s")
  case (InIoctl bs e)
  then show ?thesis using assms
    by (cases bs) (auto simp: send_inv_def intact_def worker_step_def Let_def pipe_put_def split: if_splits)
next
  case (HasResult e)
  then have "ss_errorChan (sy_stream s) = []" using assms(1) by (simp add: send_inv_def Let_def)
  then show ?thesis using assms HasResult by (auto simp: send_inv_def intact_def worker_step_def Let_def chan_send_def)
next
  case SentResult
  then show ?thesis using assms by (auto simp: send_inv_def intact_def worker_step_def Let_def)
qed (use assms in \<open>simp add: worker_step_def\<close>)

lemma send_inv_broken:
  assumes "send_inv data result s" and "broken_step e s = Some s'"
  shows "send_inv data result s'"
  using assms
  by (auto simp: send_inv_def intact_def broken_step_def Let_def split: worker.splits list.splits if_splits)

lemma send_inv_read:
  assumes inv: "send_inv data result s" and ph: "sy_phase s = Streaming"
    and rd: "sendStream_Read k len (sy_stream s) = Some ((bs, err), st)"
  shows "send_inv data result (s\<lparr>sy_stream := st, sy_seen := sy_seen s @ bs\<rparr>) \<and>
    (\<forall>e. err = Some e \<longrightarrow> err = final_error result \<and> bs = [] \<and> sy_seen s = data)"
proof -
  let ?st = "sy_stream s"
  have open_r: "pi_ropen (ss_r ?st)" using inv ph by (simp add: send_inv_def intact_def Let_def)
  consider (eof) "ss_isEOF ?st" | (peeked) "\<not> ss_isEOF ?st" "ss_peekBuf ?st \<noteq> []"
    | (pipe) "\<not> ss_isEOF ?st" "ss_peekBuf ?st = []" by blast
  then show ?thesis
  proof cases
    case eof
    then show ?thesis
      using rd inv ph by (auto simp: sendStream_Read_def send_inv_def intact_def Let_def)
  next
    case peeked
    then show ?thesis
      using rd inv ph by (auto simp: sendStream_Read_def send_inv_def intact_def Let_def)
  next
    case pipe
    then obtain err' bs' p where p: "pipe_Read k len (ss_r ?st) = Some ((bs', err'), p)"
      using rd by (auto simp: sendStream_Read_def split: option.splits)
    note pr = pipe_Read_cases [OF p open_r]
    show ?thesis
    proof (cases "err' = Some ErrEOF")
      case True
      then show ?thesis
        using rd inv ph pipe p pr
        by (cases "ss_errorChan ?st")
          (auto simp: sendStream_Read_def take_result_def send_inv_def intact_def Let_def final_error_def)
    next
      case False
      then show ?thesis
        using rd inv ph pipe p pr by (auto simp: sendStream_Read_def send_inv_def intact_def Let_def)
    qed
  qed
qed

lemma send_inv_read_closed:
  assumes inv: "send_inv data result s" and ph: "sy_phase s = Closed"
    and rd: "sendStream_Read k len (sy_stream s) = Some ((bs, err), st)"
  shows "send_inv data result (s\<lparr>sy_stream := st, sy_seen := sy_seen s @ bs\<rparr>)"
proof -
  have "\<not> pi_ropen (ss_r (sy_stream s))" using inv ph by (simp add: send_inv_def Let_def)
  note closed = pipe_Read_closed [OF this, of k len]
  have split: "take n xs @ drop n xs @ ys = xs @ ys" for n and xs ys :: "byte list"
    by (metis append.assoc append_take_drop_id)
  show ?thesis
    using assms by (auto simp: sendStream_Read_def send_inv_def Let_def closed split split: if_splits)
qed

lemma send_inv_close:
  "send_inv data result s \<Longrightarrow> sy_phase s = Streaming \<Longrightarrow>
   send_inv data result (s\<lparr>sy_stream := sendStream_Close (sy_stream s), sy_phase := Closed\<rparr>)"
  by (auto simp: send_inv_def intact_def sendStream_Close_def Let_def)

lemma send_inv_peek:
  assumes inv: "send_inv data result s" and ph: "sy_phase s = Peeking" and pk: "peek_step k s = Some s'"
  shows "send_inv data result s'"
proof -
  let ?st = "sy_stream s"
  have st: "pi_ropen (ss_r ?st)" "\<not> ss_isEOF ?st" "ss_peekBuf ?st = []" "sy_seen s = []"
    using inv ph by (simp_all add: send_inv_def intact_def Let_def)
  then obtain err' bs' p where p: "pipe_Read k 1 (ss_r ?st) = Some ((bs', err'), p)"
    using pk by (auto simp: peek_step_def sendStream_peek_def split: option.splits)
  note pr = pipe_Read_cases [OF p st(1)]
  show ?thesis
  proof (cases "err' = Some ErrEOF")
    case True
    then show ?thesis
      using pk inv ph st p pr
      by (cases "ss_errorChan ?st")
        (auto simp: peek_step_def sendStream_peek_def take_result_def send_inv_def intact_def Let_def
          final_error_def split: option.splits)
  next
    case False
    then show ?thesis
      using pk inv ph st p pr by (auto simp: peek_step_def sendStream_peek_def send_inv_def intact_def Let_def)
  qed
qed

lemma send_inv_step:
  assumes "send_inv data result s" and "send_step s s'"
  shows "send_inv data result s'"
  using assms(2)
proof (cases rule: send_step.cases)
  case go
  then show ?thesis using assms(1) send_inv_work send_inv_broken by (blast elim: goroutine_stepE)
next
  case peek
  then show ?thesis using assms(1) send_inv_peek by blast
next
  case (read k len bs err st)
  then show ?thesis using assms(1) send_inv_read send_inv_read_closed by blast
next
  case close
  then show ?thesis using assms(1) send_inv_close by blast
qed

text \<open>A pipe of any positive capacity.\<close>

interpretation snd_sys: protocol "Send_init (Suc n) data result" send_step "send_inv data result"
  for n data result
  by unfold_locales (auto intro: send_inv_init send_inv_step)

section \<open>Progress\<close>

text \<open>
  Whoever waits is waited for: the reader is only blocked while the goroutine can move, and the
  kernel is only blocked while the pipe is full.
\<close>

lemma worker_blocked:
  assumes inv: "send_inv data result s" and "worker_step s = None" and "sy_phase s \<noteq> Closed"
  shows "sy_worker s = WorkerDone \<or> pi_data (ss_r (sy_stream s)) \<noteq> [] \<or> (\<exists>e. sy_phase s = Failed e)"
  using assms
  by (auto simp: send_inv_def intact_def worker_step_def pipe_put_def chan_send_def Let_def
      split: worker.splits list.splits if_splits)

lemma send_progress:
  assumes inv: "send_inv data result s" and "worker_step s = None"
  shows "sy_phase s = Peeking \<Longrightarrow> peek_step k s \<noteq> None"
    and "sy_phase s = Streaming \<Longrightarrow> sendStream_Read k len (sy_stream s) \<noteq> None"
proof -
  note w = worker_blocked [OF assms]
  show "sy_phase s = Streaming \<Longrightarrow> sendStream_Read k len (sy_stream s) \<noteq> None"
    using inv w by (auto simp: send_inv_def intact_def sendStream_Read_def pipe_Read_def take_result_def Let_def)
  show "sy_phase s = Peeking \<Longrightarrow> peek_step k s \<noteq> None"
    using inv w
    by (auto simp: send_inv_def intact_def peek_step_def sendStream_peek_def pipe_Read_def take_result_def Let_def
        split: option.splits prod.splits)
qed

section \<open>The goroutine after the stream is closed\<close>

fun worker_left :: "worker \<Rightarrow> nat" where
  "worker_left (InIoctl bs e) = length bs + 3"
| "worker_left (HasResult e) = 2"
| "worker_left SentResult = 1"
| "worker_left WorkerDone = 0"

definition send_closed :: "send_sys \<Rightarrow> bool" where
  "send_closed s \<longleftrightarrow> sy_phase s = Closed \<and> (\<exists>data result. send_inv data result s)"

lemma goroutine_phase: "goroutine_step s s' \<Longrightarrow> sy_phase s' = sy_phase s"
  by (auto elim!: goroutine_stepE simp: worker_step_def broken_step_def Let_def
      split: worker.splits list.splits if_splits option.splits)

lemma goroutine_decreases: "goroutine_step s s' \<Longrightarrow> worker_left (sy_worker s') < worker_left (sy_worker s)"
  by (auto elim!: goroutine_stepE simp: worker_step_def broken_step_def Let_def
      split: worker.splits list.splits if_splits option.splits)

lemma goroutine_moves:
  assumes "send_closed s" and "sy_worker s \<noteq> WorkerDone"
  shows "\<exists>s'. goroutine_step s s'"
proof -
  obtain data result where "send_inv data result s" "sy_phase s = Closed"
    using assms(1) by (auto simp: send_closed_def)
  then have "worker_step s \<noteq> None \<or> broken_step ErrEOF s \<noteq> None"
    using assms(2)
    by (auto simp: send_inv_def worker_step_def broken_step_def chan_send_def Let_def split: worker.splits list.splits)
  then show ?thesis using goroutine_step.intros by fast
qed

interpretation snd_end: winding_down goroutine_step send_closed "\<lambda>s. sy_worker s = WorkerDone"
  "\<lambda>s. worker_left (sy_worker s)"
proof unfold_locales
  show "send_closed s' \<and> worker_left (sy_worker s') < worker_left (sy_worker s)"
    if "send_closed s" "goroutine_step s s'" for s s'
    using that goroutine_phase goroutine_decreases send_inv_step send_step.go
    by (fastforce simp: send_closed_def)
qed (rule goroutine_moves)

section \<open>Running a schedule\<close>

text \<open>An executable form of the step relation: a schedule names the step to take next.\<close>

datatype send_act = Work | Broken goerror | Peek nat | ReadStep nat nat | CloseStream

fun act_step :: "send_act \<Rightarrow> send_sys \<Rightarrow> send_sys option" where
  "act_step Work s = worker_step s"
| "act_step (Broken e) s = broken_step e s"
| "act_step (Peek k) s = (if sy_phase s = Peeking then peek_step k s else None)"
| "act_step (ReadStep k len) s =
     (if sy_phase s \<in> {Streaming, Closed} then
        map_option (\<lambda>((bs, err), st). s\<lparr>sy_stream := st, sy_seen := sy_seen s @ bs\<rparr>)
          (sendStream_Read k len (sy_stream s))
      else None)"
| "act_step CloseStream s =
     (if sy_phase s = Streaming then
        Some (s\<lparr>sy_stream := sendStream_Close (sy_stream s), sy_phase := Closed\<rparr>)
      else None)"

lemma act_step_sound: "act_step a s = Some s' \<Longrightarrow> send_step s s'"
  by (cases a) (auto intro: send_step.intros goroutine_step.intros split: if_splits)

interpretation snd_run: scheduled send_step act_step
  by unfold_locales (rule act_step_sound)

text \<open>A send of two bytes through a pipe of one byte.\<close>

definition sample_send :: "send_act list \<Rightarrow> send_sys" where
  "sample_send as = after_run act_step as (Send_init (Suc 0) [7, 8] None)"

lemma sample_send_reach: "reach send_step (Send_init (Suc 0) [7, 8] None) (sample_send as)"
  unfolding sample_send_def by (rule snd_run.after_run_reach)

definition full_run :: "send_act list" where
  "full_run = [Work, Peek 1, Work, ReadStep 1 10, Work, Work, ReadStep 5 10, Work]"

definition closed_run :: "send_act list" where
  "closed_run = [Work, Peek 1, CloseStream]"

section \<open>Properties\<close>



text \<open>
  C29. No deadlock: in every reachable state of a send, if the goroutine can take no further step
  (it has ended, or the pipe is full) then neither the peek of \<^verbatim>\<open>Send\<close> nor any later read is
  blocked. In particular the result is in the channel before the end of the pipe is seen.
\<close>

theorem Send_no_deadlock:
  assumes "reach send_step (Send_init (Suc n) data result) s" and "worker_step s = None"
  shows "(sy_phase s = Peeking \<longrightarrow> peek_step k s \<noteq> None) \<and>
    (sy_phase s = Streaming \<longrightarrow> sendStream_Read k len (sy_stream s) \<noteq> None)"
  using send_progress [OF snd_sys.reach_inv [OF assms(1)] assms(2)] by blast

theorem Send_no_deadlock_witness: "sendStream_Read 3 4 (sy_stream (sample_send full_run)) \<noteq> None"
proof -
  have "worker_step (sample_send full_run) = None" "sy_phase (sample_send full_run) = Streaming" by code_simp+
  then show ?thesis using Send_no_deadlock [OF sample_send_reach] by blast
qed

text \<open>
  C30. Fail fast: \<^verbatim>\<open>Send\<close> itself fails only with the error of the system call (end of file if
  that succeeded), and only when the kernel wrote no byte; what the reader of a stream has seen
  is always a prefix of what the kernel wrote.
\<close>

theorem Send_fails_fast:
  assumes "reach send_step (Send_init (Suc n) data result) s"
  shows "(sy_phase s = Failed e \<longrightarrow> data = [] \<and> e = final_error result) \<and>
    (\<exists>rest. sy_seen s @ rest = data)"
proof -
  have inv: "send_inv data result s" by (rule snd_sys.reach_inv [OF assms])
  have "data = [] \<and> e = final_error result" if "sy_phase s = Failed e"
    using inv that by (cases "sy_worker s") (auto simp: send_inv_def intact_def Let_def)
  moreover have "\<exists>rest. sy_seen s @ rest = data"
    using inv by (cases "sy_phase s = Closed") (auto simp: send_inv_def intact_def Let_def)
  ultimately show ?thesis by blast
qed

theorem Send_fails_fast_witness: "\<exists>rest. sy_seen (sample_send full_run) @ rest = [7, 8]"
  using Send_fails_fast [OF sample_send_reach] by blast

text \<open>
  C31. No goroutine is leaked: once the reader has closed a stream, wherever the system call was
  at that time and whichever error the kernel reports for it, the goroutine moves on until it
  has ended: it is never blocked, each of its steps brings it closer to its end, and its end
  is reachable by its own steps alone.
\<close>

theorem Send_goroutine_ends:
  assumes "reach send_step (Send_init (Suc n) data result) s" and "sy_phase s = Closed"
  shows "(\<exists>s'. reach goroutine_step s s' \<and> sy_worker s' = WorkerDone) \<and>
    (sy_worker s \<noteq> WorkerDone \<longrightarrow> (\<exists>s'. goroutine_step s s')) \<and>
    (\<forall>s'. goroutine_step s s' \<longrightarrow> worker_left (sy_worker s') < worker_left (sy_worker s))"
proof -
  have "send_closed s" using snd_sys.reach_inv [OF assms(1)] assms(2) by (auto simp: send_closed_def)
  then show ?thesis using snd_end.ends goroutine_moves goroutine_decreases by blast
qed

theorem Send_goroutine_ends_witness:
  "sy_worker (sample_send closed_run) = InIoctl [8] None \<and>
   (\<exists>s'. reach goroutine_step (sample_send closed_run) s' \<and> sy_worker s' = WorkerDone)"
proof -
  have "sy_phase (sample_send closed_run) = Closed" by code_simp
  moreover have "sy_worker (sample_send closed_run) = InIoctl [8] None" by code_simp
  ultimately show ?thesis using Send_goroutine_ends [OF sample_send_reach] by blast
qed

end
