(* ===== verification/Zfs_Receive_Sys.thy ===== *)
theory Zfs_Receive_Sys
  imports Zfs_Receive Go_Concurrent
begin

text \<open>
  \<^verbatim>\<open>Receive\<close> as a concurrent system: the caller, who writes the stream and then calls
  \<^verbatim>\<open>WaitAndClose\<close>, the goroutine, and the kernel, which reads the pipe during the system call.
  \<^verbatim>\<open>beginRecordChan\<close> holds two values and \<^verbatim>\<open>errorChan\<close> one; the pipe is bounded. What the kernel
  makes of a stream is a parameter: \<open>kern record bs\<close> is the outcome of the goroutine's call once
  the kernel has read \<open>bs\<close>, or \<open>None\<close> while it needs more. \<open>kern_of\<close> is this parameter for a given
  kernel of the wrappers. After \<^verbatim>\<open>WaitAndClose\<close> has returned the caller makes no further call.
\<close>

section \<open>The system\<close>

datatype call_outcome = Returns "goerror option" | Panics gopanic

type_synonym recv_kernel = "byte list \<Rightarrow> byte list \<Rightarrow> call_outcome option"

text \<open>
  The outcome of the goroutine's call for a kernel that is in state \<open>st bs\<close> when it has read
  \<open>bs\<close>, and needs no more when \<open>enough\<close> holds. The goroutine's result is never \<open>Err\<close>.
\<close>

definition kern_of ::
  "'k zfs \<Rightarrow> string \<Rightarrow> ReceiveOpts \<Rightarrow> uint32 \<Rightarrow> (byte list \<Rightarrow> 'k) \<Rightarrow> (byte list \<Rightarrow> byte list \<Rightarrow> bool) \<Rightarrow> recv_kernel" where
  "kern_of z name opts rfd st enough rec bs =
     (if enough rec bs then
        (case fst (receive_worker z name opts rfd rec (st bs)) of
           Ok e \<Rightarrow> Some (Returns e) | Err e \<Rightarrow> Some (Returns (Some e)) | Panic p \<Rightarrow> Some (Panics p) | Diverge \<Rightarrow> None)
      else None)"

datatype rworker =
    WaitRecord
  | InRecv "byte list"
  | Panicked gopanic
  | GotResult "goerror option"
  | SentError
  | ReadClosed

text \<open>
  The caller: between two calls; in a \<^verbatim>\<open>Write\<close> that has put \<open>n\<close> bytes into the begin record and
  \<open>m\<close> into the pipe and has more; in \<^verbatim>\<open>WaitAndClose\<close>; after it; crashed.
\<close>

datatype caller =
    Ready
  | InWrite nat "byte list" nat
  | Waiting
  | Returned "goerror option"
  | Crashed gopanic

text \<open>\<open>rv_in\<close> and \<open>rv_got\<close> are histories: the bytes taken from the caller, and by the kernel.\<close>

record recv_sys =
  rv_stream :: ReceiveStream
  rv_pipe :: pipe
  rv_worker :: rworker
  rv_caller :: caller
  rv_in :: "byte list"
  rv_got :: "byte list"

definition Receive_init :: "nat \<Rightarrow> nat \<Rightarrow> recv_sys" where
  "Receive_init cap n =
     \<lparr>rv_stream = new_ReceiveStream n, rv_pipe = new_pipe cap, rv_worker = WaitRecord, rv_caller = Ready,
      rv_in = [], rv_got = []\<rparr>"

text \<open>A call of \<^verbatim>\<open>Write\<close>, up to the write into the pipe.\<close>

definition call_Write :: "byte list \<Rightarrow> recv_sys \<Rightarrow> recv_sys option" where
  "call_Write buf s =
     (if rs_lastError (rv_stream s) \<noteq> None then Some s
      else case write_record buf (rv_stream s) of
          Ok (r, n) \<Rightarrow>
            if length (rs_beginRecordChan r) \<le> 2 then
              Some (s\<lparr>rv_stream := r, rv_in := rv_in s @ take n buf,
                      rv_caller := (if length buf - n = 0 then Ready else InWrite n (drop n buf) 0)\<rparr>)
            else None
        | Panic p \<Rightarrow> Some (s\<lparr>rv_caller := Crashed p\<rparr>)
        | _ \<Rightarrow> None)"

text \<open>The write into the pipe, byte by byte, and what \<^verbatim>\<open>Write\<close> makes of its outcome.\<close>

definition pipe_Write :: "recv_sys \<Rightarrow> recv_sys option" where
  "pipe_Write s =
     (case rv_caller s of
        InWrite n (b # bs) m \<Rightarrow>
          if \<not> pi_ropen (rv_pipe s) then
            Some (s\<lparr>rv_stream := snd (write_outcome n (m, Some (PathErrno EPIPE)) (rv_stream s)), rv_caller := Ready\<rparr>)
          else
            map_option (\<lambda>p. s\<lparr>rv_pipe := p, rv_in := rv_in s @ [b], rv_caller := InWrite n bs (Suc m)\<rparr>)
              (pipe_put b (rv_pipe s))
      | InWrite n [] m \<Rightarrow>
          Some (s\<lparr>rv_stream := snd (write_outcome n (m, None) (rv_stream s)), rv_caller := Ready\<rparr>)
      | _ \<Rightarrow> None)"

text \<open>\<^verbatim>\<open>WaitAndClose\<close>: the empty record and the closing of the channel, then the wait for the result.\<close>

definition call_WaitAndClose :: "recv_sys \<Rightarrow> recv_sys option" where
  "call_WaitAndClose s =
     (let r = rv_stream s in
      if rs_chanClosed r then Some (s\<lparr>rv_caller := Crashed (PanicText ''send on closed channel'')\<rparr>)
      else map_option (\<lambda>ch. s\<lparr>rv_stream := r\<lparr>rs_beginRecordChan := ch, rs_chanClosed := True\<rparr>, rv_caller := Waiting\<rparr>)
             (chan_send 2 [] (rs_beginRecordChan r)))"

definition wait_result :: "recv_sys \<Rightarrow> recv_sys option" where
  "wait_result s =
     (case rs_errorChan (rv_stream s) of
        [] \<Rightarrow> None
      | e # rest \<Rightarrow>
          Some (s\<lparr>rv_stream := (rv_stream s)\<lparr>rs_errorChan := rest\<rparr>,
                  rv_pipe := (rv_pipe s)\<lparr>pi_wopen := False\<rparr>, rv_caller := Returned e\<rparr>))"

text \<open>The goroutine, with the kernel inside its call.\<close>

definition not_enough :: goerror where
  "not_enough = ErrText ''Not enough data received for BeginRecord''"

definition recv_worker_step :: "recv_kernel \<Rightarrow> recv_sys \<Rightarrow> recv_sys option" where
  "recv_worker_step kern s =
     (let r = rv_stream s; p = rv_pipe s in
      case rv_worker s of
        WaitRecord \<Rightarrow>
          (case rs_beginRecordChan r of
             [] \<Rightarrow> None
           | record # rest \<Rightarrow>
               Some (s\<lparr>rv_stream := r\<lparr>rs_beginRecordChan := rest\<rparr>,
                       rv_worker := (if length record \<noteq> 312 then GotResult (Some not_enough) else InRecv record)\<rparr>))
      | InRecv record \<Rightarrow>
          (case kern record (rv_got s) of
             Some (Returns e) \<Rightarrow> Some (s\<lparr>rv_worker := GotResult e\<rparr>)
           | Some (Panics q) \<Rightarrow> Some (s\<lparr>rv_worker := Panicked q\<rparr>)
           | None \<Rightarrow>
               (case pi_data p of
                  [] \<Rightarrow> None
                | b # bs \<Rightarrow> Some (s\<lparr>rv_pipe := p\<lparr>pi_data := bs\<rparr>, rv_got := rv_got s @ [b]\<rparr>)))
      | Panicked q \<Rightarrow> None
      | GotResult e \<Rightarrow>
          map_option (\<lambda>ch. s\<lparr>rv_stream := r\<lparr>rs_errorChan := ch\<rparr>, rv_worker := SentError\<rparr>)
            (chan_send 1 e (rs_errorChan r))
      | SentError \<Rightarrow> Some (s\<lparr>rv_pipe := p\<lparr>pi_ropen := False\<rparr>, rv_worker := ReadClosed\<rparr>)
      | ReadClosed \<Rightarrow> None)"

text \<open>At the end of the pipe the kernel gives up, with an error of its choice.\<close>

definition recv_eof_step :: "goerror \<Rightarrow> recv_sys \<Rightarrow> recv_sys option" where
  "recv_eof_step e s =
     (case rv_worker s of
        InRecv record \<Rightarrow>
          if pi_data (rv_pipe s) = [] \<and> \<not> pi_wopen (rv_pipe s) then Some (s\<lparr>rv_worker := GotResult (Some e)\<rparr>)
          else None
      | _ \<Rightarrow> None)"

text \<open>A panic in the goroutine ends the program.\<close>

definition alive :: "recv_sys \<Rightarrow> bool" where
  "alive s \<longleftrightarrow> (case rv_worker s of Panicked q \<Rightarrow> False | _ \<Rightarrow> True)"

inductive recv_step :: "recv_kernel \<Rightarrow> recv_sys \<Rightarrow> recv_sys \<Rightarrow> bool" for kern :: recv_kernel where
  call: "alive s \<Longrightarrow> rv_caller s = Ready \<Longrightarrow> call_Write buf s = Some s' \<Longrightarrow> recv_step kern s s'"
| pipe: "alive s \<Longrightarrow> pipe_Write s = Some s' \<Longrightarrow> recv_step kern s s'"
| wait: "alive s \<Longrightarrow> rv_caller s = Ready \<Longrightarrow> call_WaitAndClose s = Some s' \<Longrightarrow> recv_step kern s s'"
| result: "alive s \<Longrightarrow> rv_caller s = Waiting \<Longrightarrow> wait_result s = Some s' \<Longrightarrow> recv_step kern s s'"
| work: "recv_worker_step kern s = Some s' \<Longrightarrow> recv_step kern s s'"
| eof: "recv_eof_step e s = Some s' \<Longrightarrow> recv_step kern s s'"

inductive_cases recv_stepE: "recv_step kern s s'"

section \<open>The invariant\<close>

text \<open>What has been put into the begin-record channel, and what the goroutine has taken out of it.\<close>

definition delivered :: "nat \<Rightarrow> recv_sys \<Rightarrow> byte list list" where
  "delivered N s =
     (if 0 < N \<and> N \<le> length (rv_in s) then [take N (rv_in s)] else []) @
     (if rs_chanClosed (rv_stream s) then [[]] else [])"

definition taken :: "nat \<Rightarrow> recv_sys \<Rightarrow> byte list list" where
  "taken N s = (if rv_worker s = WaitRecord then [] else take 1 (delivered N s))"

text \<open>A result the goroutine may have: too little data, or what the kernel said.\<close>

definition result_of :: "recv_kernel \<Rightarrow> nat \<Rightarrow> recv_sys \<Rightarrow> goerror option \<Rightarrow> bool" where
  "result_of kern N s e \<longleftrightarrow>
     (if N = 312 \<and> 312 \<le> length (rv_in s) then kern (take 312 (rv_in s)) (rv_got s) = Some (Returns e)
      else e = Some not_enough)"

text \<open>The begin record and its channel; the pipe; the caller; the goroutine.\<close>

definition record_inv :: "nat \<Rightarrow> recv_sys \<Rightarrow> bool" where
  "record_inv N s \<longleftrightarrow>
     (let r = rv_stream s; S = rv_in s in
      rs_beginRecordPointer r = min N (length S) \<and>
      rs_beginRecord r = take N S @ replicate (N - length S) 0 \<and>
      taken N s @ rs_beginRecordChan r = delivered N s \<and>
      (rv_worker s \<noteq> WaitRecord \<longrightarrow> delivered N s \<noteq> []))"

definition pipe_inv :: "nat \<Rightarrow> recv_sys \<Rightarrow> bool" where
  "pipe_inv N s \<longleftrightarrow>
     0 < pi_cap (rv_pipe s) \<and> rv_got s @ pi_data (rv_pipe s) = drop N (rv_in s) \<and>
     (pi_ropen (rv_pipe s) \<longleftrightarrow> rv_worker s \<noteq> ReadClosed)"

definition caller_inv :: "recv_kernel \<Rightarrow> nat \<Rightarrow> recv_sys \<Rightarrow> bool" where
  "caller_inv kern N s \<longleftrightarrow>
     (let r = rv_stream s; wopen = pi_wopen (rv_pipe s) in
      case rv_caller s of
        Ready \<Rightarrow> wopen \<and> \<not> rs_chanClosed r
      | InWrite n bs m \<Rightarrow> wopen \<and> \<not> rs_chanClosed r \<and> N \<le> length (rv_in s) \<and> rs_lastError r = None
      | Waiting \<Rightarrow> wopen \<and> rs_chanClosed r
      | Returned e \<Rightarrow> \<not> wopen \<and> rs_chanClosed r \<and> rs_errorChan r = [] \<and>
          rv_worker s \<in> {SentError, ReadClosed} \<and> result_of kern N s e
      | Crashed q \<Rightarrow> False)"

definition worker_inv :: "recv_kernel \<Rightarrow> nat \<Rightarrow> recv_sys \<Rightarrow> bool" where
  "worker_inv kern N s \<longleftrightarrow>
     (let ch = rs_errorChan (rv_stream s);
          sent = ((\<forall>e. rv_caller s \<noteq> Returned e) \<longrightarrow> (\<exists>e. ch = [e] \<and> result_of kern N s e)) in
      case rv_worker s of
        WaitRecord \<Rightarrow> ch = [] \<and> rv_got s = []
      | InRecv record \<Rightarrow> ch = [] \<and> N = 312 \<and> 312 \<le> length (rv_in s) \<and> record = take 312 (rv_in s) \<and>
          (\<forall>i < length (rv_got s). kern record (take i (rv_got s)) = None)
      | Panicked q \<Rightarrow> ch = [] \<and> N = 312 \<and> 312 \<le> length (rv_in s) \<and> kern (take 312 (rv_in s)) (rv_got s) = Some (Panics q)
      | GotResult e \<Rightarrow> ch = [] \<and> result_of kern N s e
      | SentError \<Rightarrow> sent
      | ReadClosed \<Rightarrow> sent)"

definition recv_inv :: "recv_kernel \<Rightarrow> nat \<Rightarrow> recv_sys \<Rightarrow> bool" where
  "recv_inv kern N s \<longleftrightarrow> N \<in> {0, 312} \<and> record_inv N s \<and> pipe_inv N s \<and> caller_inv kern N s \<and> worker_inv kern N s"

lemmas part_defs = record_inv_def pipe_inv_def caller_inv_def worker_inv_def Let_def

lemma recv_invI:
  "N \<in> {0, 312} \<Longrightarrow> record_inv N s \<Longrightarrow> pipe_inv N s \<Longrightarrow> caller_inv kern N s \<Longrightarrow> worker_inv kern N s \<Longrightarrow>
   recv_inv kern N s"
  by (simp add: recv_inv_def)

lemma result_of_cong: "rv_in s' = rv_in s \<Longrightarrow> rv_got s' = rv_got s \<Longrightarrow> result_of kern N s' = result_of kern N s"
  by (auto simp: result_of_def fun_eq_iff)

text \<open>Before the goroutine has a record, the channel holds what was delivered; afterwards there is a first record.\<close>

lemma recv_invD:
  assumes "recv_inv kern N s"
  shows "N \<in> {0, 312}" and "record_inv N s" and "pipe_inv N s" and "caller_inv kern N s" and "worker_inv kern N s"
    and "rs_beginRecordPointer (rv_stream s) = min N (length (rv_in s))"
    and "length (rs_beginRecord (rv_stream s)) = N"
  using assms unfolding recv_inv_def record_inv_def Let_def by simp_all

lemma recv_inv_init: "N \<in> {0, 312} \<Longrightarrow> 0 < cap \<Longrightarrow> recv_inv kern N (Receive_init cap N)"
  by (auto simp: recv_inv_def part_defs Receive_init_def new_ReceiveStream_def new_pipe_def delivered_def taken_def)

lemmas inv_defs = recv_inv_def part_defs delivered_def taken_def result_of_def

lemma fill_record_errorChan: "fill_record buf n r = Ok r' \<Longrightarrow> rs_errorChan r' = rs_errorChan r"
  by (auto simp: fill_record_def Let_def split: if_splits)

text \<open>Steps that do not touch the begin record or its channel; writes behind it do not either.\<close>

lemma record_inv_keep:
  assumes "record_inv N s" and "rv_in s' = rv_in s \<or> N \<le> length (rv_in s) \<and> (\<exists>bs. rv_in s' = rv_in s @ bs)"
    and "(rv_worker s' = WaitRecord) = (rv_worker s = WaitRecord)"
    and "rs_beginRecord (rv_stream s') = rs_beginRecord (rv_stream s)"
    and "rs_beginRecordPointer (rv_stream s') = rs_beginRecordPointer (rv_stream s)"
    and "rs_beginRecordChan (rv_stream s') = rs_beginRecordChan (rv_stream s)"
    and "rs_chanClosed (rv_stream s') = rs_chanClosed (rv_stream s)"
  shows "record_inv N s'"
proof -
  have "delivered N s' = delivered N s" using assms(2,7) by (auto simp: delivered_def)
  moreover from this have "taken N s' = taken N s" using assms(3) by (simp add: taken_def)
  ultimately show ?thesis using assms by (auto simp: record_inv_def Let_def)
qed

lemma result_of_grow:
  "N \<in> {0, 312} \<Longrightarrow> N \<le> length (rv_in s) \<Longrightarrow> rv_in s' = rv_in s @ bs \<Longrightarrow> rv_got s' = rv_got s \<Longrightarrow>
   result_of kern N s' = result_of kern N s"
  by (auto simp: result_of_def fun_eq_iff)

lemma write_record_full:
  assumes "recv_inv kern N s" and "N \<le> length (rv_in s)"
  shows "write_record buf (rv_stream s) = Ok (rv_stream s, 0)"
  using recv_invD(6,7) [OF assms(1)] assms(2) by (simp add: write_record_def)

lemma recv_inv_call_Write_full:
  assumes inv: "recv_inv kern N s" and c: "rv_caller s = Ready" and full: "N \<le> length (rv_in s)"
    and call: "call_Write buf s = Some s'"
  shows "recv_inv kern N s'"
proof -
  have "s' = s \<or> rs_lastError (rv_stream s) = None \<and> (\<exists>c'. s' = s\<lparr>rv_caller := c'\<rparr> \<and> c' \<in> {Ready, InWrite 0 buf 0})"
    using call write_record_full [OF inv full, of buf] by (auto simp: call_Write_def split: if_splits)
  then show ?thesis
  proof
    assume "rs_lastError (rv_stream s) = None \<and> (\<exists>c'. s' = s\<lparr>rv_caller := c'\<rparr> \<and> c' \<in> {Ready, InWrite 0 buf 0})"
    then obtain c' where c': "s' = s\<lparr>rv_caller := c'\<rparr>" "c' \<in> {Ready, InWrite 0 buf 0}" "rs_lastError (rv_stream s) = None"
      by blast
    show ?thesis
    proof (rule recv_invI)
      show "caller_inv kern N s'" using recv_invD(4) [OF inv] c c' full by (auto simp: caller_inv_def Let_def)
      show "worker_inv kern N s'"
        using recv_invD(5) [OF inv] c c' result_of_cong [of s' s] by (auto simp: worker_inv_def Let_def split: rworker.splits)
      show "record_inv N s'" by (rule record_inv_keep [OF recv_invD(2) [OF inv]]) (simp_all add: c')
    qed (use recv_invD(1,3) [OF inv] c' in \<open>auto simp: pipe_inv_def\<close>)
  qed (use inv in simp)
qed

lemma write_record_short:
  assumes inv: "recv_inv kern N s" and c: "rv_caller s = Ready" and short: "length (rv_in s) < N"
    and ok: "rs_lastError (rv_stream s) = None" and n: "n = min (312 - length (rv_in s)) (length buf)"
  shows "\<exists>r'. write_record buf (rv_stream s) = Ok (r', n) \<and> written (rv_in s @ take n buf) r' \<and>
    rs_errorChan r' = rs_errorChan (rv_stream s)"
proof -
  let ?S = "rv_in s" and ?r = "rv_stream s"
  have N: "N = 312" using recv_invD(1) [OF inv] short by auto
  have wr: "written ?S ?r" using inv c short N ok by (auto simp: inv_defs written_def)
  obtain r' where r': "fill_record buf n ?r = Ok r'" "written (?S @ take n buf) r'"
    using fill_record_written [OF wr _ n] short N by blast
  moreover have "write_record buf ?r = Ok (r', n)"
    using r'(1) wr short N n by (auto simp: write_record_def written_def Let_def min_def split: if_splits)
  ultimately show ?thesis using fill_record_errorChan by blast
qed

lemma recv_inv_call_Write_short:
  assumes inv: "recv_inv kern N s" and c: "rv_caller s = Ready" and short: "length (rv_in s) < N"
    and call: "call_Write buf s = Some s'"
  shows "recv_inv kern N s'"
proof (cases "rs_lastError (rv_stream s) = None")
  case True
  let ?S = "rv_in s"
  let ?n = "min (312 - length ?S) (length buf)"
  have N: "N = 312" using recv_invD(1) [OF inv] short by auto
  have w: "rv_worker s = WaitRecord" "\<not> rs_chanClosed (rv_stream s)" using inv c short by (auto simp: inv_defs)
  obtain r' where r': "write_record buf (rv_stream s) = Ok (r', ?n)" "written (?S @ take ?n buf) r'"
    "rs_errorChan r' = rs_errorChan (rv_stream s)"
    using write_record_short [OF inv c short True refl, of buf] by blast
  then have s': "s' = s\<lparr>rv_stream := r', rv_in := ?S @ take ?n buf,
      rv_caller := (if length buf - ?n = 0 then Ready else InWrite ?n (drop ?n buf) 0)\<rparr>"
    using call True by (auto simp: call_Write_def split: if_splits)
  have "length ?S + ?n = 312" if "length buf - ?n \<noteq> 0" using that short N by auto
  then show ?thesis
    unfolding s' using inv w N c r'(2,3) short by (auto simp: inv_defs written_def)
next
  case False
  then show ?thesis using call inv by (simp add: call_Write_def)
qed

lemma delivered_length: "length (delivered N s) \<le> (if rs_chanClosed (rv_stream s) then 2 else 1)"
  by (simp add: delivered_def)

lemma record_chan_room:
  assumes "recv_inv kern N s"
  shows "length (rs_beginRecordChan (rv_stream s)) \<le> (if rs_chanClosed (rv_stream s) then 2 else 1)"
proof -
  have "length (rs_beginRecordChan (rv_stream s)) \<le> length (delivered N s)"
    using recv_invD(2) [OF assms] by (metis record_inv_def length_append le_add2)
  then show ?thesis using delivered_length le_trans by blast
qed

lemma call_Write_enabled:
  assumes inv: "recv_inv kern N s" and c: "rv_caller s = Ready"
  shows "call_Write buf s \<noteq> None"
proof (cases "rs_lastError (rv_stream s) = None")
  case True
  then show ?thesis
  proof (cases "N \<le> length (rv_in s)")
    case full: True
    then show ?thesis
      using True record_chan_room [OF inv] write_record_full [OF inv full, of buf]
      by (auto simp: call_Write_def split: if_splits)
  next
    case False
    then show ?thesis
      using True write_record_short [OF inv c _ True refl, of buf] by (auto simp: call_Write_def written_def)
  qed
qed (simp add: call_Write_def)

lemma recv_inv_call_Write:
  "recv_inv kern N s \<Longrightarrow> rv_caller s = Ready \<Longrightarrow> call_Write buf s = Some s' \<Longrightarrow> recv_inv kern N s'"
  using recv_inv_call_Write_full recv_inv_call_Write_short by (metis not_le)

lemma recv_inv_pipe_Write:
  assumes "recv_inv kern N s" and "pipe_Write s = Some s'"
  shows "recv_inv kern N s'"
proof -
  obtain n bs m where c: "rv_caller s = InWrite n bs m" using assms(2) by (auto simp: pipe_Write_def split: caller.splits)
  have N: "N \<le> length (rv_in s)" using recv_invD(4) [OF assms(1)] c by (simp add: caller_inv_def Let_def)
  have c_inv: "pi_wopen (rv_pipe s)" "\<not> rs_chanClosed (rv_stream s)" "rs_lastError (rv_stream s) = None"
    using recv_invD(4) [OF assms(1)] c by (simp_all add: caller_inv_def Let_def)
  have id: "rv_stream s = (rv_stream s)\<lparr>rs_lastError := None\<rparr>" using c_inv(3) by simp
  consider (ready) e where "s' = s\<lparr>rv_stream := (rv_stream s)\<lparr>rs_lastError := e\<rparr>, rv_caller := Ready\<rparr>"
    | (put) b bs' where "bs = b # bs'" "pi_ropen (rv_pipe s)"
        "s' = s\<lparr>rv_pipe := (rv_pipe s)\<lparr>pi_data := pi_data (rv_pipe s) @ [b]\<rparr>, rv_in := rv_in s @ [b],
           rv_caller := InWrite n bs' (Suc m)\<rparr>"
  proof (cases bs)
    case Nil
    then have "s' = s\<lparr>rv_stream := (rv_stream s)\<lparr>rs_lastError := None\<rparr>, rv_caller := Ready\<rparr>"
      using assms(2) c id by (simp add: pipe_Write_def write_outcome_def)
    then show ?thesis by (rule ready)
  next
    case (Cons b bs')
    then show ?thesis
      using assms(2) c ready put by (auto simp: pipe_Write_def write_outcome_def pipe_put_def Let_def split: if_splits)
  qed
  then show ?thesis
  proof cases
    case ready
    then have res: "result_of kern N s' = result_of kern N s" by (intro result_of_cong) simp_all
    show ?thesis
    proof (rule recv_invI)
      show "record_inv N s'" by (rule record_inv_keep [OF recv_invD(2) [OF assms(1)]]) (simp_all add: ready)
      show "worker_inv kern N s'"
        using recv_invD(5) [OF assms(1)] c ready res by (auto simp: worker_inv_def Let_def split: rworker.splits)
    qed (use recv_invD(1,3) [OF assms(1)] c_inv ready in \<open>auto simp: pipe_inv_def caller_inv_def\<close>)
  next
    case put
    then have res: "result_of kern N s' = result_of kern N s"
      using recv_invD(1) [OF assms(1)] N by (intro result_of_grow) simp_all
    show ?thesis
    proof (rule recv_invI)
      show "record_inv N s'" by (rule record_inv_keep [OF recv_invD(2) [OF assms(1)]]) (simp_all add: put N)
      show "worker_inv kern N s'"
        using recv_invD(5) [OF assms(1)] c put res by (auto simp: worker_inv_def Let_def split: rworker.splits)
      show "pipe_inv N s'" using recv_invD(3) [OF assms(1)] N put by (simp add: pipe_inv_def flip: append_assoc)
    qed (use recv_invD(1) [OF assms(1)] c_inv put N in \<open>auto simp: caller_inv_def\<close>)
  qed
qed

lemma recv_inv_call_Wait:
  assumes "recv_inv kern N s" and "rv_caller s = Ready" and "call_WaitAndClose s = Some s'"
  shows "recv_inv kern N s'"
proof -
  let ?r = "rv_stream s" and ?first = "if 0 < N \<and> N \<le> length (rv_in s) then [take N (rv_in s)] else []"
  have open_ch: "\<not> rs_chanClosed ?r" using recv_invD(4) [OF assms(1)] assms(2) by (simp add: caller_inv_def Let_def)
  then have s': "s' = s\<lparr>rv_stream := ?r\<lparr>rs_beginRecordChan := rs_beginRecordChan ?r @ [[]], rs_chanClosed := True\<rparr>,
      rv_caller := Waiting\<rparr>"
    using assms(3) by (auto simp: call_WaitAndClose_def chan_send_def Let_def split: if_splits)
  have d: "delivered N s = ?first" "delivered N s' = ?first @ [[]]"
    using open_ch by (simp_all add: delivered_def s')
  have res: "result_of kern N s' = result_of kern N s" by (rule result_of_cong) (simp_all add: s')
  show ?thesis
  proof (rule recv_invI)
    have "taken N s' = taken N s" using recv_invD(2) [OF assms(1)] d by (auto simp: record_inv_def taken_def s' Let_def)
    then show "record_inv N s'"
      using recv_invD(2) [OF assms(1)] d by (simp add: record_inv_def s' Let_def)
    show "worker_inv kern N s'"
      using recv_invD(5) [OF assms(1)] assms(2) res by (auto simp: worker_inv_def s' Let_def split: rworker.splits)
    show "caller_inv kern N s'" using recv_invD(4) [OF assms(1)] assms(2) by (simp add: caller_inv_def s' Let_def)
  qed (use recv_invD [OF assms(1)] s' in \<open>auto simp: pipe_inv_def\<close>)
qed

lemma recv_inv_wait_result:
  assumes inv: "recv_inv kern N s" and "rv_caller s = Waiting" and "wait_result s = Some s'"
  shows "recv_inv kern N s'"
proof -
  obtain e rest where e: "rs_errorChan (rv_stream s) = e # rest"
    and s': "s' = s\<lparr>rv_stream := (rv_stream s)\<lparr>rs_errorChan := rest\<rparr>, rv_pipe := (rv_pipe s)\<lparr>pi_wopen := False\<rparr>,
      rv_caller := Returned e\<rparr>"
    using assms(3) by (auto simp: wait_result_def split: list.splits)
  have w: "rv_worker s \<in> {SentError, ReadClosed}" "rest = []" "result_of kern N s e"
    using recv_invD(5) [OF inv] e assms(2) by (auto simp: worker_inv_def Let_def split: rworker.splits)
  have res: "result_of kern N s' = result_of kern N s" by (rule result_of_cong) (simp_all add: s')
  show ?thesis
  proof (rule recv_invI)
    show "record_inv N s'"
      by (rule record_inv_keep [OF recv_invD(2) [OF inv]]) (simp_all add: s')
    show "caller_inv kern N s'"
      using recv_invD(4) [OF inv] assms(2) w res by (simp add: caller_inv_def s' Let_def)
    show "worker_inv kern N s'" using w by (auto simp: worker_inv_def s' Let_def)
  qed (use recv_invD [OF inv] s' in \<open>auto simp: pipe_inv_def\<close>)
qed

lemma recv_inv_take_record:
  assumes inv: "recv_inv kern N s" and w: "rv_worker s = WaitRecord" and st: "recv_worker_step kern s = Some s'"
  shows "recv_inv kern N s'"
proof -
  let ?S = "rv_in s"
  obtain rc rest where ch: "rs_beginRecordChan (rv_stream s) = rc # rest"
    and s': "s' = s\<lparr>rv_stream := (rv_stream s)\<lparr>rs_beginRecordChan := rest\<rparr>,
      rv_worker := (if length rc \<noteq> 312 then GotResult (Some not_enough) else InRecv rc)\<rparr>"
    using st w by (auto simp: recv_worker_step_def Let_def split: list.splits)
  have d: "delivered N s = rc # rest" "delivered N s' = delivered N s"
    using recv_invD(2) [OF inv] w ch by (simp_all add: record_inv_def taken_def delivered_def s' Let_def)
  have N: "N \<in> {0, 312}" by (rule recv_invD(1) [OF inv])
  then have rec: "if N = 312 \<and> 312 \<le> length ?S then rc = take 312 ?S else rc = []"
    using d(1) by (auto simp: delivered_def split: if_splits)
  have err: "rs_errorChan (rv_stream s) = []" "rv_got s = []" using recv_invD(5) [OF inv] w by (simp_all add: worker_inv_def Let_def)
  show ?thesis
  proof (rule recv_invI)
    show "record_inv N s'"
      using recv_invD(2) [OF inv] d by (simp add: record_inv_def taken_def s' Let_def)
    show "caller_inv kern N s'"
      using recv_invD(4) [OF inv] w by (auto simp: caller_inv_def s' Let_def split: caller.splits)
    show "worker_inv kern N s'"
      using rec err by (auto simp: worker_inv_def result_of_def s' Let_def split: if_splits)
  qed (use N recv_invD(3) [OF inv] w s' in \<open>auto simp: pipe_inv_def\<close>)
qed

lemma recv_inv_kernel:
  assumes inv: "recv_inv kern N s" and w: "rv_worker s = InRecv rec" and st: "recv_worker_step kern s = Some s'"
  shows "recv_inv kern N s'"
proof -
  have wi: "rs_errorChan (rv_stream s) = []" "N = 312" "312 \<le> length (rv_in s)" "rec = take 312 (rv_in s)"
    "\<forall>i < length (rv_got s). kern rec (take i (rv_got s)) = None"
    using recv_invD(5) [OF inv] w by (auto simp: worker_inv_def Let_def)
  consider (finished) x where "kern rec (rv_got s) = Some x"
      "s' = s\<lparr>rv_worker := (case x of Returns e \<Rightarrow> GotResult e | Panics q \<Rightarrow> Panicked q)\<rparr>"
    | (more) b bs where "kern rec (rv_got s) = None" "pi_data (rv_pipe s) = b # bs"
        "s' = s\<lparr>rv_pipe := (rv_pipe s)\<lparr>pi_data := bs\<rparr>, rv_got := rv_got s @ [b]\<rparr>"
    using st w by (auto simp: recv_worker_step_def Let_def split: option.splits list.splits call_outcome.splits)
  then show ?thesis
  proof cases
    case finished
    have x: "rv_worker s' \<noteq> WaitRecord \<and> rv_worker s' \<noteq> ReadClosed" using finished by (simp split: call_outcome.splits)
    show ?thesis
    proof (rule recv_invI)
      show "caller_inv kern N s'"
        using recv_invD(4) [OF inv] w finished by (auto simp: caller_inv_def Let_def split: caller.splits)
      show "worker_inv kern N s'"
        using wi finished by (simp add: worker_inv_def result_of_def Let_def split: call_outcome.splits)
      show "record_inv N s'"
        by (rule record_inv_keep [OF recv_invD(2) [OF inv]]) (use x w in \<open>simp_all add: finished(2)\<close>)
    qed (use recv_invD(1,3) [OF inv] w finished x in \<open>auto simp: pipe_inv_def\<close>)
  next
    case more
    show ?thesis
    proof (rule recv_invI)
      show "record_inv N s'"
        by (rule record_inv_keep [OF recv_invD(2) [OF inv]]) (simp_all add: more)
      show "caller_inv kern N s'"
        using recv_invD(4) [OF inv] w more by (auto simp: caller_inv_def Let_def split: caller.splits)
      show "worker_inv kern N s'" using wi w more by (auto simp: worker_inv_def Let_def less_Suc_eq)
    qed (use recv_invD(1,3) [OF inv] more in \<open>auto simp: pipe_inv_def\<close>)
  qed
qed

lemma recv_inv_send_result:
  assumes inv: "recv_inv kern N s" and w: "rv_worker s = GotResult e" and st: "recv_worker_step kern s = Some s'"
  shows "recv_inv kern N s'"
proof -
  have wi: "rs_errorChan (rv_stream s) = []" "result_of kern N s e"
    using recv_invD(5) [OF inv] w by (simp_all add: worker_inv_def Let_def)
  then have s': "s' = s\<lparr>rv_stream := (rv_stream s)\<lparr>rs_errorChan := [e]\<rparr>, rv_worker := SentError\<rparr>"
    using st w by (simp add: recv_worker_step_def chan_send_def Let_def)
  have res: "result_of kern N s' = result_of kern N s" by (rule result_of_cong) (simp_all add: s')
  show ?thesis
  proof (rule recv_invI)
    show "record_inv N s'"
      by (rule record_inv_keep [OF recv_invD(2) [OF inv]]) (simp_all add: s' w)
    show "caller_inv kern N s'"
      using recv_invD(4) [OF inv] w by (auto simp: caller_inv_def s' Let_def split: caller.splits)
    show "worker_inv kern N s'" using wi(2) res by (simp add: worker_inv_def s' Let_def)
  qed (use recv_invD(1,3) [OF inv] w s' in \<open>auto simp: pipe_inv_def\<close>)
qed

lemma recv_inv_close_read:
  assumes inv: "recv_inv kern N s" and w: "rv_worker s = SentError"
    and s': "s' = s\<lparr>rv_pipe := (rv_pipe s)\<lparr>pi_ropen := False\<rparr>, rv_worker := ReadClosed\<rparr>"
  shows "recv_inv kern N s'"
proof -
  have res: "result_of kern N s' = result_of kern N s" by (rule result_of_cong) (simp_all add: s')
  show ?thesis
  proof (rule recv_invI)
    show "record_inv N s'"
      by (rule record_inv_keep [OF recv_invD(2) [OF inv]]) (simp_all add: s' w)
    show "caller_inv kern N s'"
      using recv_invD(4) [OF inv] w res by (auto simp: caller_inv_def s' Let_def split: caller.splits)
    show "worker_inv kern N s'"
      using recv_invD(5) [OF inv] w res by (auto simp: worker_inv_def s' Let_def)
  qed (use recv_invD(1,3) [OF inv] s' in \<open>auto simp: pipe_inv_def\<close>)
qed

lemma recv_inv_work:
  assumes "recv_inv kern N s" and "recv_worker_step kern s = Some s'"
  shows "recv_inv kern N s'"
proof (cases "rv_worker s")
  case WaitRecord
  then show ?thesis using assms recv_inv_take_record by blast
next
  case InRecv
  then show ?thesis using assms recv_inv_kernel by blast
next
  case GotResult
  then show ?thesis using assms recv_inv_send_result by blast
next
  case SentError
  then have "s' = s\<lparr>rv_pipe := (rv_pipe s)\<lparr>pi_ropen := False\<rparr>, rv_worker := ReadClosed\<rparr>"
    using assms(2) by (simp add: recv_worker_step_def Let_def)
  then show ?thesis by (rule recv_inv_close_read [OF assms(1) SentError])
qed (use assms in \<open>simp_all add: recv_worker_step_def Let_def\<close>)

lemma recv_no_eof:
  assumes "recv_inv kern N s"
  shows "recv_eof_step e s = None"
  using assms by (auto simp: recv_eof_step_def inv_defs split: rworker.splits caller.splits)

lemma recv_inv_step:
  assumes "recv_inv kern N s" and "recv_step kern s s'"
  shows "recv_inv kern N s'"
  using assms(2)
proof (cases rule: recv_step.cases)
  case call
  then show ?thesis using recv_inv_call_Write assms(1) by blast
next
  case pipe
  then show ?thesis using recv_inv_pipe_Write assms(1) by blast
next
  case wait
  then show ?thesis using recv_inv_call_Wait assms(1) by blast
next
  case result
  then show ?thesis using recv_inv_wait_result assms(1) by blast
next
  case work
  then show ?thesis using recv_inv_work assms(1) by blast
next
  case eof
  then show ?thesis using recv_no_eof [OF assms(1)] by simp
qed

interpretation rcv_sys: protocol "Receive_init (Suc c) (if preset then 0 else 312)" "recv_step kern"
  "recv_inv kern (if preset then 0 else 312)" for c preset kern
  by unfold_locales (auto intro: recv_inv_init recv_inv_step)

lemmas recv_reach = rcv_sys.reach_inv [where preset = False, simplified]
lemmas recv_reach_preset = rcv_sys.reach_inv [where preset = True, simplified]

text \<open>The two initial states are those of the streams that \<^verbatim>\<open>Receive\<close> makes.\<close>

lemma Receive_init_Receive:
  "Receive None opts = Ok r \<Longrightarrow> r = rv_stream (Receive_init cap (if ro_BeginRecord opts = [] then 312 else 0))"
  by (auto simp: Receive_def Receive_init_def split: if_splits)

section \<open>Waiting for the end\<close>

text \<open>The kernel ends its call somewhere in the stream that was written, and without a panic.\<close>

definition kernel_ends :: "recv_kernel \<Rightarrow> byte list \<Rightarrow> bool" where
  "kernel_ends kern S \<longleftrightarrow> (312 \<le> length S \<longrightarrow>
     (\<exists>bs rest. drop 312 S = bs @ rest \<and> kern (take 312 S) bs \<noteq> None) \<and>
     (\<forall>bs rest q. drop 312 S = bs @ rest \<longrightarrow> kern (take 312 S) bs \<noteq> Some (Panics q)))"

definition returned :: "recv_sys \<Rightarrow> bool" where
  "returned s \<longleftrightarrow> (case rv_caller s of Returned e \<Rightarrow> True | _ \<Rightarrow> False)"

definition recv_waiting :: "recv_kernel \<Rightarrow> recv_sys \<Rightarrow> bool" where
  "recv_waiting kern s \<longleftrightarrow>
     recv_inv kern 312 s \<and> (rv_caller s = Waiting \<or> returned s) \<and> kernel_ends kern (rv_in s)"

fun rworker_left :: "rworker \<Rightarrow> nat" where
  "rworker_left WaitRecord = 5"
| "rworker_left (InRecv rec) = 4"
| "rworker_left (Panicked q) = 0"
| "rworker_left (GotResult e) = 3"
| "rworker_left SentError = 2"
| "rworker_left ReadClosed = 1"

definition recv_left :: "recv_sys \<Rightarrow> nat" where
  "recv_left s = length (pi_data (rv_pipe s)) + rworker_left (rv_worker s) + (if returned s then 0 else 1)"

lemma worker_step_frame:
  assumes "recv_worker_step kern s = Some s'"
  shows "rv_caller s' = rv_caller s" and "rv_in s' = rv_in s" and "recv_left s' < recv_left s"
  using assms
  by (auto simp: recv_worker_step_def recv_left_def returned_def Let_def
      split: rworker.splits list.splits option.splits call_outcome.splits if_splits)

text \<open>While \<^verbatim>\<open>WaitAndClose\<close> waits there are only two kinds of step.\<close>

lemma waiting_step:
  assumes inv: "recv_inv kern N s" and w: "rv_caller s = Waiting" and st: "recv_step kern s s'"
  shows "recv_worker_step kern s = Some s' \<or> wait_result s = Some s'"
  using st
proof (cases rule: recv_step.cases)
  case eof
  then show ?thesis using recv_no_eof [OF inv] by simp
qed (use w in \<open>auto simp: pipe_Write_def\<close>)

lemma wait_result_frame:
  assumes "wait_result s = Some s'" and "rv_caller s = Waiting"
  shows "returned s'" and "rv_in s' = rv_in s" and "recv_left s' < recv_left s"
  using assms by (auto simp: wait_result_def recv_left_def returned_def split: list.splits)

lemma recv_got_prefix: "recv_inv kern 312 s \<Longrightarrow> drop 312 (rv_in s) = rv_got s @ pi_data (rv_pipe s)"
  by (simp add: recv_inv_def pipe_inv_def)

lemma kernel_moves:
  assumes inv: "recv_inv kern 312 s" and w: "rv_worker s = InRecv rec" and ends: "kernel_ends kern (rv_in s)"
  shows "recv_worker_step kern s \<noteq> None"
proof -
  have wi: "312 \<le> length (rv_in s)" "rec = take 312 (rv_in s)"
    "\<forall>i < length (rv_got s). kern rec (take i (rv_got s)) = None"
    using recv_invD(5) [OF inv] w by (auto simp: worker_inv_def Let_def)
  have "kern rec (rv_got s) \<noteq> None" if empty: "pi_data (rv_pipe s) = []"
  proof -
    obtain bs rest where bs: "rv_got s = bs @ rest" "kern rec bs \<noteq> None"
      using ends wi(1,2) recv_got_prefix [OF inv] empty by (auto simp: kernel_ends_def)
    then have "bs = take (length bs) (rv_got s)" by simp
    then have "\<not> length bs < length (rv_got s)" using wi(3) bs(2) by metis
    then show ?thesis using bs by simp
  qed
  then show ?thesis
    using w by (auto simp: recv_worker_step_def Let_def split: option.splits list.splits call_outcome.splits)
qed

lemma waiting_moves:
  assumes good: "recv_waiting kern s" and w: "rv_caller s = Waiting"
  shows "\<exists>s'. recv_step kern s s'"
proof -
  have inv: "recv_inv kern 312 s" and ends: "kernel_ends kern (rv_in s)" using good by (simp_all add: recv_waiting_def)
  have closed: "rs_chanClosed (rv_stream s)" using recv_invD(4) [OF inv] w by (simp add: caller_inv_def Let_def)
  have "recv_worker_step kern s \<noteq> None \<or> (wait_result s \<noteq> None \<and> alive s)"
  proof (cases "rv_worker s")
    case WaitRecord
    then have "rs_beginRecordChan (rv_stream s) \<noteq> []"
      using recv_invD(2) [OF inv] closed by (auto simp: record_inv_def taken_def delivered_def Let_def)
    then show ?thesis using WaitRecord by (auto simp: recv_worker_step_def Let_def split: list.splits)
  next
    case (InRecv rec)
    then show ?thesis using kernel_moves [OF inv _ ends] by blast
  next
    case (Panicked q)
    then show ?thesis
      using recv_invD(5) [OF inv] ends recv_got_prefix [OF inv] by (auto simp: worker_inv_def kernel_ends_def Let_def)
  next
    case (GotResult e)
    then show ?thesis
      using recv_invD(5) [OF inv] by (simp add: worker_inv_def recv_worker_step_def chan_send_def Let_def)
  next
    case SentError
    then show ?thesis by (simp add: recv_worker_step_def Let_def)
  next
    case ReadClosed
    then show ?thesis
      using recv_invD(5) [OF inv] w by (auto simp: worker_inv_def wait_result_def alive_def Let_def)
  qed
  then show ?thesis using recv_step.work recv_step.result w by blast
qed

interpretation rcv_end: winding_down "recv_step kern" "recv_waiting kern" returned recv_left for kern
proof unfold_locales
  fix s s'
  assume good: "recv_waiting kern s" and nf: "\<not> returned s"
  then have w: "rv_caller s = Waiting" by (simp add: recv_waiting_def)
  show "\<exists>s'. recv_step kern s s'" by (rule waiting_moves [OF good w])
  assume st: "recv_step kern s s'"
  have inv: "recv_inv kern 312 s" using good by (simp add: recv_waiting_def)
  have "recv_inv kern 312 s'" by (rule recv_inv_step [OF inv st])
  then show "recv_waiting kern s' \<and> recv_left s' < recv_left s"
    using waiting_step [OF inv w st] worker_step_frame [of kern s s'] wait_result_frame [of s s'] good w
    by (auto simp: recv_waiting_def)
qed

text \<open>A kernel that ends its call nowhere in the stream keeps the goroutine where it is.\<close>

definition kernel_starved :: "recv_kernel \<Rightarrow> byte list \<Rightarrow> bool" where
  "kernel_starved kern S \<longleftrightarrow> 312 \<le> length S \<and> (\<forall>bs rest. drop 312 S = bs @ rest \<longrightarrow> kern (take 312 S) bs = None)"

definition recv_starving :: "recv_kernel \<Rightarrow> recv_sys \<Rightarrow> bool" where
  "recv_starving kern s \<longleftrightarrow>
     recv_inv kern 312 s \<and> rv_caller s = Waiting \<and> kernel_starved kern (rv_in s) \<and> rs_errorChan (rv_stream s) = []"

lemma starving_chan:
  assumes inv: "recv_inv kern 312 s" and w: "rv_caller s = Waiting" and starved: "kernel_starved kern (rv_in s)"
  shows "rs_errorChan (rv_stream s) = [] \<and> (\<forall>e. rv_worker s \<noteq> GotResult e)"
proof -
  have "kern (take 312 (rv_in s)) (rv_got s) = None"
    using starved recv_got_prefix [OF inv] by (auto simp: kernel_starved_def)
  then have "\<not> result_of kern 312 s e" for e using starved by (simp add: result_of_def kernel_starved_def)
  then show ?thesis using recv_invD(5) [OF inv] w by (cases "rv_worker s") (auto simp: worker_inv_def Let_def)
qed

lemma starving_step:
  assumes "recv_starving kern s" and st: "recv_step kern s s'"
  shows "recv_starving kern s'"
proof -
  have inv: "recv_inv kern 312 s" and w: "rv_caller s = Waiting" and starved: "kernel_starved kern (rv_in s)"
    using assms(1) by (simp_all add: recv_starving_def)
  have "wait_result s = None" using assms(1) by (simp add: recv_starving_def wait_result_def)
  then have "rv_caller s' = Waiting" "rv_in s' = rv_in s"
    using waiting_step [OF inv w st] worker_step_frame(1,2) [of kern s s'] w by auto
  then show ?thesis
    using starving_chan [of kern s'] recv_inv_step [OF inv st] starved by (simp add: recv_starving_def)
qed

section \<open>Running a schedule\<close>

datatype recv_act = CallWrite "byte list" | PipeByte | CallWait | TakeResult | RecvWork

fun recv_act_step :: "recv_kernel \<Rightarrow> recv_act \<Rightarrow> recv_sys \<Rightarrow> recv_sys option" where
  "recv_act_step kern (CallWrite buf) s = (if alive s \<and> rv_caller s = Ready then call_Write buf s else None)"
| "recv_act_step kern PipeByte s = (if alive s then pipe_Write s else None)"
| "recv_act_step kern CallWait s = (if alive s \<and> rv_caller s = Ready then call_WaitAndClose s else None)"
| "recv_act_step kern TakeResult s = (if alive s \<and> rv_caller s = Waiting then wait_result s else None)"
| "recv_act_step kern RecvWork s = recv_worker_step kern s"

interpretation rcv_run: scheduled "recv_step kern" "recv_act_step kern" for kern
proof unfold_locales
  show "recv_act_step kern a s = Some s' \<Longrightarrow> recv_step kern s s'" for a s s'
    by (cases a) (auto intro: recv_step.intros split: if_splits)
qed

text \<open>A kernel that needs one byte behind the begin record, and a stream with none, one and two.\<close>

definition one_byte_kernel :: recv_kernel where
  "one_byte_kernel rec bs = (if bs = [] then None else Some (Returns None))"

definition sample_recv :: "byte list \<Rightarrow> recv_act list \<Rightarrow> recv_sys" where
  "sample_recv tail as =
     after_run (recv_act_step one_byte_kernel) (CallWrite (replicate 312 1 @ tail) # as) (Receive_init (Suc 0) 312)"

lemma sample_recv_reach: "reach (recv_step one_byte_kernel) (Receive_init (Suc 0) 312) (sample_recv tail as)"
  unfolding sample_recv_def by (rule rcv_run.after_run_reach)

definition sample_preset :: recv_sys where
  "sample_preset =
     after_run (recv_act_step one_byte_kernel) [CallWrite [1, 2], PipeByte] (Receive_init (Suc 0) 0)"

section \<open>Properties\<close>

text \<open>
  C32. The kernel gets the stream: in every reachable state of a receive, whatever the writes and
  the order of steps, the bytes the kernel has read and those in the pipe are the bytes the
  caller has written behind the first 312, in order; the begin record of the call is the first
  312 bytes; and when \<^verbatim>\<open>WaitAndClose\<close> has returned, it has returned what the kernel made of exactly
  the bytes it read, or the error for too little data when there were less than 312.
\<close>

theorem Receive_stream_integrity:
  assumes "reach (recv_step kern) (Receive_init (Suc c) 312) s"
  shows "rv_got s @ pi_data (rv_pipe s) = drop 312 (rv_in s) \<and>
    (\<forall>rec. rv_worker s = InRecv rec \<longrightarrow> rec = take 312 (rv_in s)) \<and>
    (\<forall>e. rv_caller s = Returned e \<longrightarrow>
      (if 312 \<le> length (rv_in s) then kern (take 312 (rv_in s)) (rv_got s) = Some (Returns e)
       else e = Some not_enough))"
proof -
  have inv: "recv_inv kern 312 s" by (rule recv_reach [OF assms])
  show ?thesis
    using recv_got_prefix [OF inv] recv_invD(4,5) [OF inv]
    by (auto simp: caller_inv_def worker_inv_def result_of_def Let_def)
qed

theorem Receive_stream_integrity_witness:
  "rv_caller (sample_recv [5] [PipeByte, PipeByte, CallWait, RecvWork, RecvWork, RecvWork, RecvWork, TakeResult]) =
     Returned None \<and>
   drop 312 (rv_in (sample_recv [5] [PipeByte, PipeByte, CallWait, RecvWork, RecvWork, RecvWork, RecvWork, TakeResult])) = [5]"
proof -
  let ?s = "sample_recv [5] [PipeByte, PipeByte, CallWait, RecvWork, RecvWork, RecvWork, RecvWork, TakeResult]"
  have "rv_caller ?s = Returned None" "rv_got ?s = [5]" "pi_data (rv_pipe ?s) = []" by code_simp+
  then show ?thesis using Receive_stream_integrity [OF sample_recv_reach, of "[5]"] by (metis append_Nil2)
qed

text \<open>
  C33. Nobody blocks on a channel and nobody crashes: in every reachable state, with or without a
  preset begin record, a call of \<^verbatim>\<open>Write\<close> gets past the begin record at once, the two sends into
  \<^verbatim>\<open>beginRecordChan\<close> (capacity two) and the send into \<^verbatim>\<open>errorChan\<close> (capacity one) find room,
  no send meets a closed channel, and the kernel never sees the end of the pipe.
\<close>

theorem Receive_channels_never_block:
  assumes "reach (recv_step kern) (Receive_init (Suc c) (if preset then 0 else 312)) s"
  shows "(rv_caller s = Ready \<longrightarrow> call_Write buf s \<noteq> None \<and> call_WaitAndClose s \<noteq> None) \<and>
    (\<forall>e. rv_worker s = GotResult e \<longrightarrow> recv_worker_step kern s \<noteq> None) \<and>
    (\<forall>q. rv_caller s \<noteq> Crashed q) \<and> recv_eof_step e s = None"
proof -
  let ?N = "if preset then 0 else 312 :: nat"
  have inv: "recv_inv kern ?N s" by (rule rcv_sys.reach_inv [OF assms])
  have open_ch: "rv_caller s = Ready \<Longrightarrow> \<not> rs_chanClosed (rv_stream s)"
    using recv_invD(4) [OF inv] by (simp add: caller_inv_def Let_def)
  have "rv_caller s = Ready \<Longrightarrow> call_WaitAndClose s \<noteq> None"
    using open_ch record_chan_room [OF inv] by (simp add: call_WaitAndClose_def chan_send_def Let_def)
  moreover have "rv_worker s = GotResult e \<Longrightarrow> recv_worker_step kern s \<noteq> None" for e
    using recv_invD(5) [OF inv] by (simp add: worker_inv_def recv_worker_step_def chan_send_def Let_def)
  moreover have "rv_caller s \<noteq> Crashed q" for q
    using recv_invD(4) [OF inv] by (auto simp: caller_inv_def Let_def)
  ultimately show ?thesis using call_Write_enabled [OF inv] recv_no_eof [OF inv] by blast
qed

theorem Receive_channels_never_block_witness:
  "call_Write [3] (sample_recv [5] [PipeByte, PipeByte]) \<noteq> None \<and>
   call_WaitAndClose (sample_recv [5] [PipeByte, PipeByte]) \<noteq> None"
proof -
  have ready: "rv_caller (sample_recv [5] [PipeByte, PipeByte]) = Ready" by code_simp
  have "reach (recv_step one_byte_kernel) (Receive_init (Suc 0) (if False then 0 else 312)) (sample_recv [5] [PipeByte, PipeByte])"
    using sample_recv_reach by simp
  from Receive_channels_never_block [OF this, of "[3]"] ready show ?thesis by blast
qed

text \<open>
  C34. \<^verbatim>\<open>WaitAndClose\<close> returns: once it has been called, if there was too little data for the begin
  record or the kernel ends its call, without a panic, somewhere in the stream that was
  written, then every run comes to its return: as long as it has not returned some step is
  possible, and no more steps are possible than the bytes in the pipe and seven.
\<close>

theorem WaitAndClose_returns:
  assumes "reach (recv_step kern) (Receive_init (Suc c) 312) s" and "rv_caller s = Waiting"
    and "kernel_ends kern (rv_in s)"
  shows "(\<exists>s'. reach (recv_step kern) s s' \<and> returned s') \<and>
    (\<forall>f n. f 0 = s \<and> (\<forall>i<n. recv_step kern (f i) (f (Suc i))) \<and> length (pi_data (rv_pipe s)) + 6 < n \<longrightarrow>
      (\<exists>i\<le>n. returned (f i))) \<and>
    (\<exists>s'. recv_step kern s s')"
proof -
  have good: "recv_waiting kern s"
    using recv_reach [OF assms(1)] assms(2,3) by (simp add: recv_waiting_def)
  have "recv_left s \<le> length (pi_data (rv_pipe s)) + 6"
    by (cases "rv_worker s") (simp_all add: recv_left_def)
  then show ?thesis
    using rcv_end.ends [OF good] rcv_end.bounded [where kern = kern] waiting_moves [OF good assms(2)] good
    by (meson le_less_trans)
qed

theorem WaitAndClose_returns_witness:
  "\<exists>s'. reach (recv_step one_byte_kernel) (sample_recv [5] [PipeByte, PipeByte, CallWait]) s' \<and> returned s'"
proof -
  let ?s = "sample_recv [5] [PipeByte, PipeByte, CallWait]"
  have w: "rv_caller ?s = Waiting" by code_simp
  have "drop 312 (rv_in ?s) = [5]" by code_simp
  then have "kernel_ends one_byte_kernel (rv_in ?s)"
    by (fastforce simp: kernel_ends_def one_byte_kernel_def)
  then show ?thesis using WaitAndClose_returns [OF sample_recv_reach w] by blast
qed

text \<open>
  C35. A truncated stream hangs: \<^verbatim>\<open>WaitAndClose\<close> closes the pipe only after it has the result, so
  the kernel never learns that there is no more data. If it needs more than what was written
  behind the begin record, \<^verbatim>\<open>WaitAndClose\<close> never returns, in any run.
\<close>

theorem WaitAndClose_truncated_hangs:
  assumes "reach (recv_step kern) (Receive_init (Suc c) 312) s" and "rv_caller s = Waiting"
    and "kernel_starved kern (rv_in s)" and "reach (recv_step kern) s s'"
  shows "rv_caller s' = Waiting"
proof -
  have "recv_starving kern s"
    using recv_reach [OF assms(1)] assms(2,3) starving_chan by (simp add: recv_starving_def)
  from assms(4) this have "recv_starving kern s'"
    by (induction rule: reach.induct) (auto intro: starving_step)
  then show ?thesis by (simp add: recv_starving_def)
qed

theorem WaitAndClose_truncated_hangs_witness:
  "\<forall>as. rv_caller (after_run (recv_act_step one_byte_kernel) as (sample_recv [] [CallWait])) = Waiting"
proof
  fix as
  have w: "rv_caller (sample_recv [] [CallWait]) = Waiting" by code_simp
  have "rv_in (sample_recv [] [CallWait]) = replicate 312 1" by code_simp
  then have "kernel_starved one_byte_kernel (rv_in (sample_recv [] [CallWait]))"
    by (simp add: kernel_starved_def one_byte_kernel_def)
  then show "rv_caller (after_run (recv_act_step one_byte_kernel) as (sample_recv [] [CallWait])) = Waiting"
    by (rule WaitAndClose_truncated_hangs [OF sample_recv_reach w _ rcv_run.after_run_reach])
qed

text \<open>
  C36. A preset begin record deadlocks the writer: the goroutine of a stream that was made with a
  preset record waits for a record that only \<^verbatim>\<open>WaitAndClose\<close> would bring, so nobody reads the
  pipe, and a \<^verbatim>\<open>Write\<close> that finds it full is never continued: the whole system is stuck.
\<close>

theorem Receive_preset_write_deadlock:
  assumes "reach (recv_step kern) (Receive_init (Suc c) 0) s" and "rv_caller s = InWrite n (b # bs) m"
    and "length (pi_data (rv_pipe s)) = pi_cap (rv_pipe s)"
  shows "rv_worker s = WaitRecord \<and> \<not> recv_step kern s s'"
proof -
  have inv: "recv_inv kern 0 s" by (rule recv_reach_preset [OF assms(1)])
  have open_ch: "\<not> rs_chanClosed (rv_stream s)" using recv_invD(4) [OF inv] assms(2) by (simp add: caller_inv_def Let_def)
  then have w: "rv_worker s = WaitRecord" and ch: "rs_beginRecordChan (rv_stream s) = []"
    using recv_invD(2) [OF inv] by (auto simp: record_inv_def taken_def delivered_def Let_def)
  have "pipe_Write s = None"
    using assms(2,3) w recv_invD(3) [OF inv] by (simp add: pipe_Write_def pipe_put_def pipe_inv_def)
  moreover have "recv_worker_step kern s = None" using w ch by (simp add: recv_worker_step_def Let_def)
  ultimately show ?thesis
    using w assms(2) recv_no_eof [OF inv] by (auto elim!: recv_stepE)
qed

theorem Receive_preset_write_deadlock_witness:
  "rv_caller sample_preset = InWrite 0 [2] 1 \<and> \<not> (\<exists>s'. recv_step one_byte_kernel sample_preset s')"
proof -
  have c: "rv_caller sample_preset = InWrite 0 [2] 1" by code_simp
  have "length (pi_data (rv_pipe sample_preset)) = pi_cap (rv_pipe sample_preset)" by code_simp
  moreover have "reach (recv_step one_byte_kernel) (Receive_init (Suc 0) 0) sample_preset"
    unfolding sample_preset_def by (rule rcv_run.after_run_reach)
  ultimately show ?thesis using Receive_preset_write_deadlock [OF _ c] c by blast
qed

end
