(* ===== verification/Zfs_Trace.thy ===== *)
theory Zfs_Trace
  imports Zfs_Ioctl_Correct
begin

text \<open>
  Model of \<^verbatim>\<open>ioctl/trace/main.go\<close>, a tracer that prints the ZFS calls of another program. The
  traced process is a parameter: whether it starts, and at each stop its registers, its memory,
  and whether it could be resumed and waited for. The size and the layout of the command
  structure come from a third-party package and are parameters as well. What is printed is the
  state, a list of events, so that it is there also when the tracer panics in the middle.
\<close>

section \<open>Events\<close>

datatype trace_event =
    PrintRun "string list"
  | PrintWait goerror
  | PrintNumber uint64
  | PrintName string
  | PrintCookie uint64
  | PrintList string gval
  | PrintLine

type_synonym 'a tracing = "(trace_event list, 'a) comp"

definition print_event :: "trace_event \<Rightarrow> unit tracing" where
  "print_event e out = (Ok (), out @ [e])"

definition panic :: "string \<Rightarrow> 'a tracing" where
  "panic t out = (Panic (PanicText t), out)"

section \<open>One system call\<close>

definition SYS_IOCTL :: uint64 where "SYS_IOCTL = 16"

record regs =
  rg_Orig_rax :: uint64
  rg_Rsi :: uint64
  rg_Rdx :: uint64

text \<open>
  \<^verbatim>\<open>PtracePeekData\<close> at an address: what is in a buffer of the given size afterwards, or an error;
  the count it returns is dropped. A buffer of more than the runtime can allocate is a panic.
\<close>

type_synonym peek_data = "uint64 \<Rightarrow> nat \<Rightarrow> byte list option"

definition max_alloc :: nat where "max_alloc = 2 ^ 48"

definition peek_buf :: "peek_data \<Rightarrow> uint64 \<Rightarrow> nat \<Rightarrow> byte list tracing" where
  "peek_buf peek addr n =
     (if n > max_alloc then panic ''makeslice: len out of range''
      else case peek addr n of None \<Rightarrow> panic ''ptrace'' | Some bs \<Rightarrow> ret bs)"

text \<open>The tracer's own copy of the helper.\<close>

primrec trace_delim_len :: "byte list \<Rightarrow> nat" where
  "trace_delim_len [] = 0"
| "trace_delim_len (b # buf) = (if b = 0x00 then 0 else Suc (trace_delim_len buf))"

definition trace_delimitedBufToString :: "byte list \<Rightarrow> string" where
  "trace_delimitedBufToString buf = string_of_bytes (take (trace_delim_len buf) buf)"

text \<open>
  One of the three lists: nothing when the pointer is zero, a panic when it cannot be read or
  decoded. What \<^verbatim>\<open>json.MarshalIndent\<close> makes of the decoded value is printed; it does not fail on
  values of the decoder's shape.
\<close>

definition decode_raw :: "byte list \<Rightarrow> gval tracing" where
  "decode_raw raw =
     (case Unmarshal raw new_iface of
        (Ok _, v) \<Rightarrow> ret v
      | (Err e, _) \<Rightarrow> panic ''nvlist''
      | (Panic p, _) \<Rightarrow> lift_res (Panic p)
      | (Diverge, _) \<Rightarrow> lift_res Diverge)"

definition trace_list :: "peek_data \<Rightarrow> string \<Rightarrow> uint64 \<Rightarrow> uint64 \<Rightarrow> unit tracing" where
  "trace_list peek label ptr sz =
     (if ptr = 0 then ret ()
      else bind_comp (peek_buf peek ptr (unat sz)) (\<lambda>raw.
        bind_comp (decode_raw raw) (\<lambda>v. print_event (PrintList label v))))"

definition trace_cmd :: "peek_data \<Rightarrow> Cmd \<Rightarrow> unit tracing" where
  "trace_cmd peek cmd =
     (let name = trace_delimitedBufToString (c_Name cmd) in
      steps [if length name > 0 then print_event (PrintName name) else ret (),
             if c_Cookie cmd \<noteq> 0 then print_event (PrintCookie (c_Cookie cmd)) else ret (),
             trace_list peek ''src'' (c_Nvlist_src cmd) (c_Nvlist_src_size cmd),
             trace_list peek ''dst'' (c_Nvlist_dst cmd) (c_Nvlist_dst_size cmd),
             trace_list peek ''conf'' (c_Nvlist_conf cmd) (c_Nvlist_conf_size cmd),
             print_event PrintLine])"

text \<open>\<open>cmdSize\<close> is \<^verbatim>\<open>struc.Sizeof\<close> of the command, \<open>unpack\<close> is \<^verbatim>\<open>struc.UnpackWithOrder\<close>.\<close>

definition trace_ioctl ::
  "nat option \<Rightarrow> (byte list \<Rightarrow> Cmd option) \<Rightarrow> peek_data \<Rightarrow> regs \<Rightarrow> unit tracing" where
  "trace_ioctl cmdSize unpack peek rg =
     (case cmdSize of
        None \<Rightarrow> panic ''struc''
      | Some n \<Rightarrow>
          bind_comp (peek_buf peek (rg_Rdx rg) n) (\<lambda>data.
          bind_comp (print_event (PrintNumber (rg_Rsi rg))) (\<lambda>_.
            case unpack data of None \<Rightarrow> panic ''struc'' | Some cmd \<Rightarrow> trace_cmd peek cmd)))"

section \<open>The loop and main\<close>

text \<open>
  A stop of the traced process: \<open>ts_regs\<close> is \<open>None\<close> when its registers cannot be read, which is
  so once it is gone; then whether it could be resumed, and waited for again.
\<close>

record trace_stop =
  ts_regs :: "regs option"
  ts_peek :: peek_data
  ts_resumed :: bool
  ts_waited :: bool

text \<open>
  The registers are read at every second stop, beginning with the first. The list holds the
  stops the process makes; when there is none the tracer waits forever.
\<close>

fun trace_loop ::
  "nat option \<Rightarrow> (byte list \<Rightarrow> Cmd option) \<Rightarrow> bool \<Rightarrow> trace_stop list \<Rightarrow> unit tracing" where
  "trace_loop cmdSize unpack exit [] = lift_res Diverge"
| "trace_loop cmdSize unpack exit (st # sts) =
     (if exit \<and> ts_regs st = None then ret ()
      else
        bind_comp (case ts_regs st of
            Some rg \<Rightarrow> if exit \<and> rg_Orig_rax rg = SYS_IOCTL then trace_ioctl cmdSize unpack (ts_peek st) rg else ret ()
          | None \<Rightarrow> ret ()) (\<lambda>_.
          if \<not> ts_resumed st then panic ''ptrace''
          else if \<not> ts_waited st then panic ''wait4''
          else trace_loop cmdSize unpack (\<not> exit) sts))"

text \<open>
  \<^verbatim>\<open>main\<close>: \<open>start\<close> is what \<^verbatim>\<open>cmd.Start\<close> and \<^verbatim>\<open>cmd.Wait\<close> of the program with the given arguments
  give: the error of the wait and the stops of the process. The error of the start itself is
  dropped, and the process that is missing then is dereferenced.
\<close>

definition trace_main ::
  "nat option \<Rightarrow> (byte list \<Rightarrow> Cmd option) \<Rightarrow> (string \<Rightarrow> string list \<Rightarrow> (goerror option \<times> trace_stop list) option) \<Rightarrow>
   string list \<Rightarrow> unit tracing" where
  "trace_main cmdSize unpack start args =
     (case args of
        [] \<Rightarrow> lift_res (Panic SliceOutOfRange)
      | self # as \<Rightarrow>
          bind_comp (print_event (PrintRun as)) (\<lambda>_.
            case as of
              [] \<Rightarrow> lift_res (Panic IndexOutOfRange)
            | prog # rest \<Rightarrow>
                (case start prog rest of
                   None \<Rightarrow>
                     bind_comp (print_event (PrintWait (ErrText ''exec: not started'')))
                       (\<lambda>_. lift_res (Panic NilDereference))
                 | Some (waitErr, stops) \<Rightarrow>
                     bind_comp (case waitErr of Some e \<Rightarrow> print_event (PrintWait e) | None \<Rightarrow> ret ())
                       (\<lambda>_. trace_loop cmdSize unpack True stops))))"

section \<open>Lemmas\<close>

lemma trace_delimited_same: "trace_delimitedBufToString = delimitedBufToString"
proof
  fix buf :: "byte list"
  have "trace_delim_len buf = delim_len buf" by (induction buf) simp_all
  then show "trace_delimitedBufToString buf = delimitedBufToString buf"
    by (simp add: trace_delimitedBufToString_def delimitedBufToString_def)
qed

lemma trace_list_shows:
  assumes "Unmarshal raw new_iface = (Ok (), v)" and "ptr \<noteq> 0" and "unat sz \<le> max_alloc"
    and "peek ptr (unat sz) = Some raw"
  shows "trace_list peek label ptr sz out = (Ok (), out @ [PrintList label v])"
  using assms by (simp add: trace_list_def peek_buf_def decode_raw_def print_event_def bind_comp_def ret_def)

lemma trace_cmd_shows:
  assumes "\<forall>out. trace_list peek ''src'' (c_Nvlist_src cmd) (c_Nvlist_src_size cmd) out = (Ok (), out @ src)"
    and "\<forall>out. trace_list peek ''dst'' (c_Nvlist_dst cmd) (c_Nvlist_dst_size cmd) out = (Ok (), out @ dst)"
    and "\<forall>out. trace_list peek ''conf'' (c_Nvlist_conf cmd) (c_Nvlist_conf_size cmd) out = (Ok (), out @ conf)"
    and "delimitedBufToString (c_Name cmd) = name" and "name \<noteq> []" and "c_Cookie cmd = 0"
  shows "trace_cmd peek cmd out = (Ok (), out @ PrintName name # src @ dst @ conf @ [PrintLine])"
  using assms
  by (simp add: trace_cmd_def trace_delimited_same print_event_def bind_comp_def ret_def)

lemma trace_list_absent: "trace_list peek label 0 sz out = (Ok (), out)"
  by (simp add: trace_list_def ret_def)

lemma dst_size_small: "i \<le> 4 \<Longrightarrow> dst_size i \<le> 33554432"
proof -
  assume "i \<le> 4"
  then have "(8 :: nat) ^ i \<le> 8 ^ 4" by (intro power_increasing) simp_all
  then show ?thesis by (simp add: dst_size_pow)
qed

lemma unat_word_of_nat_small: "n < 2 ^ 64 \<Longrightarrow> unat (word_of_nat n :: uint64) = n"
  by (simp add: unsigned_of_nat take_bit_nat_eq_self)

lemma attempt_cmd_fields:
  assumes "k_cmd s = zero_cmd" and "k_resp s \<noteq> None"
    and "nul_free name" and "length name < 4096"
  shows "delimitedBufToString (c_Name (attempt_cmd rt i name (Some bs) None s)) = name"
    and "c_Cookie (attempt_cmd rt i name (Some bs) None s) = 0"
    and "c_Nvlist_conf (attempt_cmd rt i name (Some bs) None s) = 0"
    and "c_Nvlist_src (attempt_cmd rt i name (Some bs) None s) = rt i SrcBuf"
    and "c_Nvlist_src_size (attempt_cmd rt i name (Some bs) None s) = word_of_nat (length bs)"
    and "c_Nvlist_dst (attempt_cmd rt i name (Some bs) None s) = rt i DstBuf"
    and "c_Nvlist_dst_size (attempt_cmd rt i name (Some bs) None s) = word_of_nat (dst_size i)"
  using assms delimited_roundtrip(2) [of name "replicate 4096 0"]
  by (cases "k_resp s"; simp add: attempt_cmd_def filled_cmd_def put_name_def zero_cmd_def)+

text \<open>A stop at which the tracer prints \<open>es\<close> and goes on.\<close>

definition shows_at :: "nat option \<Rightarrow> (byte list \<Rightarrow> Cmd option) \<Rightarrow> trace_stop \<Rightarrow> trace_event list \<Rightarrow> bool" where
  "shows_at cmdSize unpack st es \<longleftrightarrow> ts_resumed st \<and> ts_waited st \<and>
     (\<exists>rg. ts_regs st = Some rg \<and>
        (if rg_Orig_rax rg = SYS_IOCTL then \<forall>out. trace_ioctl cmdSize unpack (ts_peek st) rg out = (Ok (), out @ es)
         else es = []))"

definition goes_on :: "trace_stop \<Rightarrow> bool" where
  "goes_on st \<longleftrightarrow> ts_resumed st \<and> ts_waited st"

lemma trace_loop_stop:
  assumes "shows_at cmdSize unpack st es"
  shows "trace_loop cmdSize unpack True (st # sts) out = trace_loop cmdSize unpack False sts (out @ es)"
  using assms by (auto simp: shows_at_def bind_comp_def ret_def split: if_splits)

lemma trace_loop_entry:
  "goes_on st \<Longrightarrow> trace_loop cmdSize unpack False (st # sts) out = trace_loop cmdSize unpack True sts out"
  by (simp add: goes_on_def bind_comp_def ret_def split: option.split)

text \<open>A system call is a stop on its entry and one on its exit, with what the second shows.\<close>

type_synonym traced_call = "trace_stop \<times> trace_stop \<times> trace_event list"

primrec call_stops :: "traced_call list \<Rightarrow> trace_stop list" where
  "call_stops [] = []"
| "call_stops (c # cs) = fst c # fst (snd c) # call_stops cs"

lemma trace_loop_calls:
  assumes "list_all (\<lambda>(en, ex, es). goes_on en \<and> shows_at cmdSize unpack ex es) calls"
  shows "trace_loop cmdSize unpack False (call_stops calls @ sts) out =
    trace_loop cmdSize unpack False sts (out @ concat (map (snd \<circ> snd) calls))"
  using assms
proof (induction calls arbitrary: out)
  case (Cons c calls)
  obtain en ex es where c: "c = (en, ex, es)" by (cases c)
  then have "goes_on en" "shows_at cmdSize unpack ex es" using Cons.prems by simp_all
  then have "trace_loop cmdSize unpack False (call_stops (c # calls) @ sts) out =
      trace_loop cmdSize unpack False (call_stops calls @ sts) (out @ es)"
    using c by (simp add: trace_loop_entry trace_loop_stop del: trace_loop.simps)
  then show ?case using Cons c by simp
qed simp

lemma trace_loop_gone: "ts_regs st = None \<Longrightarrow> trace_loop cmdSize unpack True (st # sts) out = (Ok (), out)"
  by (simp add: ret_def)

lemmas trace_run = trace_loop_stop trace_loop_calls trace_loop_entry trace_loop_gone

section \<open>Properties\<close>



text \<open>Sample: a call with an empty request that is answered with an empty list.\<close>

definition empty_call :: "unit ioctl_call" where
  "empty_call = \<lparr>k_kernel = (), k_cmd = zero_cmd, k_resp = Some new_iface\<rparr>"

definition sample_rt :: runtime where
  "sample_rt i b = (case b of SrcBuf \<Rightarrow> 4096 | DstBuf \<Rightarrow> 8192 | ConfBuf \<Rightarrow> 12288)"

definition empty_bytes :: "byte list" where
  "empty_bytes = [0, 1, 0, 0, 0, 0, 0, 0, 1, 0, 0, 0, 0, 0, 0, 0]"

definition sample_peek :: peek_data where
  "sample_peek a n = (if a = 64 then Some [] else Some (empty_bytes @ replicate (n - 16) 0))"

definition sample_unpack :: "byte list \<Rightarrow> Cmd option" where
  "sample_unpack data = Some (attempt_cmd sample_rt 0 ''tank'' (Some empty_bytes) None empty_call)"


definition sample_stop :: "uint64 \<Rightarrow> trace_stop" where
  "sample_stop nr = \<lparr>ts_regs = Some \<lparr>rg_Orig_rax = nr, rg_Rsi = 23045, rg_Rdx = 64\<rparr>,
     ts_peek = sample_peek, ts_resumed = True, ts_waited = True\<rparr>"

definition sample_cmd :: "byte list \<Rightarrow> Cmd option" where
  "sample_cmd data = Some zero_cmd"


end
