(* ===== verification/Zfs_Testhelper.thy ===== *)
theory Zfs_Testhelper
  imports Nv_Prelude
begin

text \<open>
  Model of \<^verbatim>\<open>ioctl/testhelper/main.go\<close>, the init process of the virtual machine in which the tests
  run. The operating system is a parameter: what it answers to each request. What the helper
  asks of it and prints is the state, a list of events. A machine that is switched off does not
  go on, which is \<open>Diverge\<close>.
\<close>

section \<open>The operating system\<close>

record os =
  os_Getpid :: int
  os_MkdirAll :: "string \<Rightarrow> goerror option"
  os_Mount :: "string \<Rightarrow> string \<Rightarrow> string \<Rightarrow> uint64 \<Rightarrow> goerror option"
  os_Run :: "string \<Rightarrow> string list \<Rightarrow> goerror option"
  os_Create :: "string \<Rightarrow> goerror option"
  os_Open :: "string \<Rightarrow> goerror option"
  os_contents :: "string \<Rightarrow> string"
  os_powers_off :: bool

datatype tone = Plain | Green | Blue | Red

datatype helper_event =
    MkdirAll string
  | Mount string string string uint64
  | Reboot
  | Print tone string "goerror option"
  | NoColor bool
  | RunCmd string "string list"
  | CreateFile string
  | OpenFile string
  | CloseFile string
  | SyncFile string
  | WriteLine string string

type_synonym 'a helper = "(helper_event list, 'a) comp"

definition emit :: "helper_event \<Rightarrow> unit helper" where
  "emit e out = (Ok (), out @ [e])"

text \<open>A request is recorded and answered.\<close>

definition ask :: "helper_event \<Rightarrow> 'a \<Rightarrow> 'a helper" where
  "ask e x out = (Ok x, out @ [e])"

text \<open>The flags of \<^verbatim>\<open>mount(2)\<close>.\<close>

definition MS_NOSUID :: uint64 where "MS_NOSUID = 2"
definition MS_NODEV :: uint64 where "MS_NODEV = 4"
definition MS_NOEXEC :: uint64 where "MS_NOEXEC = 8"

text \<open>The error of \<^verbatim>\<open>unix.Reboot\<close> is dropped: if the machine stays on, the helper goes on.\<close>

definition reboot :: "os \<Rightarrow> unit helper" where
  "reboot os = bind_comp (emit Reboot) (\<lambda>_. if os_powers_off os then (\<lambda>out. (Diverge, out)) else ret ())"

section \<open>MountSys\<close>

definition or_power_off :: "os \<Rightarrow> string \<Rightarrow> goerror option \<Rightarrow> unit helper" where
  "or_power_off os msg err =
     (if err \<noteq> None then bind_comp (emit (Print Plain msg err)) (\<lambda>_. reboot os) else ret ())"

definition MountSys :: "os \<Rightarrow> string \<Rightarrow> string \<Rightarrow> unit helper" where
  "MountSys os fsType path =
     steps [bind_comp (ask (MkdirAll path) (os_MkdirAll os path))
              (or_power_off os (''Failed to create directory to mount '' @ fsType)),
            bind_comp (let flags = MS_NOSUID OR MS_NODEV OR MS_NOEXEC
                       in ask (Mount fsType path fsType flags) (os_Mount os fsType path fsType flags))
              (or_power_off os (''Failed to mount '' @ fsType))]"

section \<open>The standard library\<close>

text \<open>
  \<^verbatim>\<open>bufio.Scanner\<close> with its defaults: a line ends at a newline or at the end of the file, loses one
  carriage return, and the scan stops at a line that does not fit the buffer of 64 KiB.
\<close>

definition newline :: char where "newline = CHR 0x0A"
definition carriage_return :: char where "carriage_return = CHR 0x0D"

definition MaxScanTokenSize :: nat where "MaxScanTokenSize = 64 * 1024"

definition dropCR :: "string \<Rightarrow> string" where
  "dropCR line = (if line \<noteq> [] \<and> last line = carriage_return then butlast line else line)"

fun scan_lines :: "string \<Rightarrow> string list" where
  "scan_lines [] = []"
| "scan_lines (c # cs) =
     (let line = takeWhile (\<lambda>c. c \<noteq> newline) (c # cs) in
      if length line \<ge> MaxScanTokenSize then []
      else dropCR line # scan_lines (drop (length line) cs))"

primrec string_contains :: "string \<Rightarrow> string \<Rightarrow> bool" where
  "string_contains [] sub \<longleftrightarrow> sub = []"
| "string_contains (c # cs) sub \<longleftrightarrow> take (length sub) (c # cs) = sub \<or> string_contains cs sub"

section \<open>main\<close>

definition copy_line :: "string \<Rightarrow> unit helper" where
  "copy_line line =
     steps [emit (WriteLine ''zfsdebug.log'' line),
            if string_contains line ''zfs_ioctl.c'' then emit (Print Plain line None) else ret ()]"

text \<open>The deferred calls run in the opposite order; the log is closed a second time.\<close>

definition grab_messages :: "os \<Rightarrow> unit helper" where
  "grab_messages os =
     bind_comp (ask (OpenFile ''/proc/spl/kstat/zfs/dbgmsg'') (os_Open os ''/proc/spl/kstat/zfs/dbgmsg'')) (\<lambda>err.
       if err \<noteq> None then emit (Print Red ''Failed to open debug messages: '' err)
       else bind_comp (ask (CreateFile ''zfsdebug.log'') (os_Create os ''zfsdebug.log'')) (\<lambda>err.
         if err \<noteq> None then emit (Print Red ''Failed to open debug artifact'' None)
         else steps
           [steps (map copy_line (scan_lines (os_contents os ''/proc/spl/kstat/zfs/dbgmsg''))),
            emit (SyncFile ''zfsdebug.log''),
            emit (CloseFile ''zfsdebug.log''),
            emit (CloseFile ''/proc/spl/kstat/zfs/dbgmsg''),
            emit (CloseFile ''zfsdebug.log'')]))"

definition mark_successful :: "os \<Rightarrow> bool helper" where
  "mark_successful os =
     bind_comp (ask (CreateFile ''/successful'') (os_Create os ''/successful'')) (\<lambda>err.
       if err \<noteq> None then bind_comp (emit (Print Plain ''Failed to write test status: '' err)) (\<lambda>_. ret False)
       else bind_comp (emit (CloseFile ''/successful'')) (\<lambda>_. ret True))"

definition run_tests :: "os \<Rightarrow> unit helper" where
  "run_tests os =
     bind_comp (emit (NoColor False)) (\<lambda>_.
     bind_comp (emit (Print Green ''Starting tests'' None)) (\<lambda>_.
     bind_comp (ask (RunCmd ''/ioctl.test'' [''-test.v'']) (os_Run os ''/ioctl.test'' [''-test.v''])) (\<lambda>err.
     bind_comp (if err = None then mark_successful os else ret True) (\<lambda>go_on.
       if go_on then
         bind_comp (emit (Print Blue ''Tests completed, grabbing filtered ZFS debug messages'' None))
           (\<lambda>_. grab_messages os)
       else ret ()))))"

definition helper_main :: "os \<Rightarrow> unit helper" where
  "helper_main os =
     (if os_Getpid os = 1 then
        bind_comp (ask (MkdirAll ''/dev'') (os_MkdirAll os ''/dev'')) (\<lambda>_.
        bind_comp (ask (Mount ''none'' ''/dev'' ''devtmpfs'' MS_NOSUID) (os_Mount os ''none'' ''/dev'' ''devtmpfs'' MS_NOSUID)) (\<lambda>err.
          if err \<noteq> None then emit (Print Plain ''Failed to mount /dev: '' err)
          else steps [MountSys os ''tmpfs'' ''/dev/shm'', MountSys os ''sysfs'' ''/sys'', MountSys os ''proc'' ''/proc'',
                      run_tests os]))
      else ret ())"

section \<open>Lemmas\<close>

text \<open>What a part of the helper adds to the events, and how it ends.\<close>

definition adds :: "'a helper \<Rightarrow> helper_event list \<Rightarrow> 'a res \<Rightarrow> bool" where
  "adds m es x \<longleftrightarrow> (\<forall>out. m out = (x, out @ es))"

lemma addsD: "adds m es x \<Longrightarrow> m out = (x, out @ es)"
  by (simp add: adds_def)

lemma adds_emit [simp]: "adds (emit e) [e] (Ok ())"
  by (simp add: adds_def emit_def)

lemma adds_ask [simp]: "adds (ask e x) [e] (Ok x)"
  by (simp add: adds_def ask_def)

lemma adds_ret [simp]: "adds (ret x) [] (Ok x)"
  by (simp add: adds_def ret_def)

lemma adds_bind:
  assumes "adds m es (Ok x)" and "adds (f x) es' y"
  shows "adds (bind_comp m f) (es @ es') y"
  using assms by (simp add: adds_def bind_comp_def)

lemma adds_steps: "list_all2 (\<lambda>m es. adds m es (Ok ())) ms ess \<Longrightarrow> adds (steps ms) (concat ess) (Ok ())"
  by (induction rule: list_all2_induct) (simp_all add: adds_bind)

definition survives :: "os \<Rightarrow> string \<Rightarrow> string \<Rightarrow> bool" where
  "survives os fsType path \<longleftrightarrow> \<not> os_powers_off os \<or>
     os_MkdirAll os path = None \<and> os_Mount os fsType path fsType (MS_NOSUID OR MS_NODEV OR MS_NOEXEC) = None"

definition mount_events :: "os \<Rightarrow> string \<Rightarrow> string \<Rightarrow> helper_event list" where
  "mount_events os fsType path = snd (MountSys os fsType path [])"

lemma adds_MountSys:
  "adds (MountSys os fsType path) (mount_events os fsType path) (if survives os fsType path then Ok () else Diverge)"
  by (simp add: adds_def mount_events_def MountSys_def survives_def Let_def ask_def bind_comp_def
      or_power_off_def reboot_def emit_def ret_def)

lemma mount_events_no_file: "CreateFile f \<notin> set (mount_events os fsType path)"
  by (simp add: mount_events_def MountSys_def Let_def ask_def bind_comp_def
      or_power_off_def reboot_def emit_def ret_def)

text \<open>The messages.\<close>

definition line_events :: "string \<Rightarrow> helper_event list" where
  "line_events line = WriteLine ''zfsdebug.log'' line #
     (if string_contains line ''zfs_ioctl.c'' then [Print Plain line None] else [])"

lemma adds_copy_line: "adds (copy_line line) (line_events line) (Ok ())"
  by (simp add: adds_def copy_line_def line_events_def emit_def bind_comp_def ret_def)

lemma adds_copy_lines: "adds (steps (map copy_line ls)) (concat (map line_events ls)) (Ok ())"
  by (rule adds_steps) (simp add: list_all2_map1 list_all2_map2 adds_copy_line list_all2_refl)

definition grab_events :: "os \<Rightarrow> helper_event list" where
  "grab_events os = OpenFile ''/proc/spl/kstat/zfs/dbgmsg'' #
     (if os_Open os ''/proc/spl/kstat/zfs/dbgmsg'' \<noteq> None then
        [Print Red ''Failed to open debug messages: '' (os_Open os ''/proc/spl/kstat/zfs/dbgmsg'')]
      else CreateFile ''zfsdebug.log'' #
        (if os_Create os ''zfsdebug.log'' \<noteq> None then [Print Red ''Failed to open debug artifact'' None]
         else concat (map line_events (scan_lines (os_contents os ''/proc/spl/kstat/zfs/dbgmsg''))) @
           [SyncFile ''zfsdebug.log'', CloseFile ''zfsdebug.log'',
            CloseFile ''/proc/spl/kstat/zfs/dbgmsg'', CloseFile ''zfsdebug.log'']))"

lemma adds_grab_messages: "adds (grab_messages os) (grab_events os) (Ok ())"
  unfolding adds_def grab_messages_def grab_events_def
  by (simp add: ask_def emit_def bind_comp_def ret_def addsD [OF adds_copy_lines])

lemma line_events_no_file: "CreateFile f \<notin> set (line_events l)"
  by (simp add: line_events_def)

lemma grab_events_no_mark: "CreateFile ''/successful'' \<notin> set (grab_events os)"
  by (auto simp: grab_events_def line_events_no_file)

definition test_events :: "os \<Rightarrow> helper_event list" where
  "test_events os = [NoColor False, Print Green ''Starting tests'' None, RunCmd ''/ioctl.test'' [''-test.v'']] @
     (if os_Run os ''/ioctl.test'' [''-test.v''] = None then
        if os_Create os ''/successful'' = None then [CreateFile ''/successful'', CloseFile ''/successful'']
        else [CreateFile ''/successful'', Print Plain ''Failed to write test status: '' (os_Create os ''/successful'')]
      else []) @
     (if os_Run os ''/ioctl.test'' [''-test.v''] = None \<and> os_Create os ''/successful'' \<noteq> None then []
      else Print Blue ''Tests completed, grabbing filtered ZFS debug messages'' None # grab_events os)"

lemma adds_run_tests: "adds (run_tests os) (test_events os) (Ok ())"
  unfolding adds_def run_tests_def test_events_def mark_successful_def
  by (simp add: ask_def emit_def bind_comp_def ret_def addsD [OF adds_grab_messages])

text \<open>The whole run once the three file systems are mounted.\<close>

definition mounted :: "os \<Rightarrow> bool" where
  "mounted os \<longleftrightarrow> os_Getpid os = 1 \<and> os_Mount os ''none'' ''/dev'' ''devtmpfs'' MS_NOSUID = None \<and>
     survives os ''tmpfs'' ''/dev/shm'' \<and> survives os ''sysfs'' ''/sys'' \<and> survives os ''proc'' ''/proc''"

definition boot_events :: "os \<Rightarrow> helper_event list" where
  "boot_events os = [MkdirAll ''/dev'', Mount ''none'' ''/dev'' ''devtmpfs'' MS_NOSUID] @
     mount_events os ''tmpfs'' ''/dev/shm'' @ mount_events os ''sysfs'' ''/sys'' @ mount_events os ''proc'' ''/proc''"

lemma helper_main_mounted:
  "mounted os \<Longrightarrow> helper_main os [] = (Ok (), boot_events os @ test_events os)"
  by (simp add: mounted_def helper_main_def boot_events_def ask_def bind_comp_def ret_def
      addsD [OF adds_MountSys] addsD [OF adds_run_tests])

lemma helper_main_not_mounted:
  "\<not> mounted os \<Longrightarrow> CreateFile f \<notin> set (snd (helper_main os []))"
  by (auto simp: mounted_def helper_main_def ask_def emit_def bind_comp_def ret_def
      addsD [OF adds_MountSys] mount_events_no_file)

text \<open>Lines the scanner gives back as they are.\<close>

definition unlines :: "string list \<Rightarrow> string" where
  "unlines ls = concat (map (\<lambda>l. l @ [newline]) ls)"

definition plain_line :: "string \<Rightarrow> bool" where
  "plain_line l \<longleftrightarrow> newline \<notin> set l \<and> length l < MaxScanTokenSize \<and> (l \<noteq> [] \<longrightarrow> last l \<noteq> carriage_return)"

lemma scan_lines_line:
  assumes "plain_line l"
  shows "scan_lines (l @ newline # rest) = l # scan_lines rest"
proof -
  obtain c cs where cs: "l @ newline # rest = c # cs" by (cases "l @ newline # rest") simp_all
  have tw: "takeWhile (\<lambda>c. c \<noteq> newline) (c # cs) = l"
  proof -
    have "\<forall>x \<in> set l. x \<noteq> newline" using assms by (auto simp: plain_line_def)
    then show ?thesis unfolding cs [symmetric] by (simp add: takeWhile_append2)
  qed
  have "drop (length l) cs = rest"
    using arg_cong [OF cs, of "drop (Suc (length l))"] by simp
  with tw show ?thesis
    using assms unfolding cs scan_lines.simps by (auto simp: Let_def plain_line_def dropCR_def)
qed

lemma scan_lines_unlines: "list_all plain_line ls \<Longrightarrow> scan_lines (unlines ls) = ls"
  by (induction ls) (simp_all add: unlines_def scan_lines_line)

text \<open>What is in the log, and which lines are printed.\<close>

definition logged :: "helper_event list \<Rightarrow> string" where
  "logged es = unlines (concat (map (\<lambda>e. case e of WriteLine f l \<Rightarrow> if f = ''zfsdebug.log'' then [l] else [] | _ \<Rightarrow> []) es))"

definition printed :: "helper_event list \<Rightarrow> string list" where
  "printed es = concat (map (\<lambda>e. case e of Print Plain l None \<Rightarrow> [l] | _ \<Rightarrow> []) es)"

lemma logged_append [simp]: "logged (es @ es') = logged es @ logged es'"
  by (simp add: logged_def unlines_def)

lemma printed_append [simp]: "printed (es @ es') = printed es @ printed es'"
  by (simp add: printed_def)

lemma logged_simps [simp]:
  "logged [] = []"
  "logged (e # es) =
     (case e of WriteLine f l \<Rightarrow> if f = ''zfsdebug.log'' then l @ [newline] else [] | _ \<Rightarrow> []) @ logged es"
  by (simp_all add: logged_def unlines_def split: helper_event.split)

lemma printed_simps [simp]:
  "printed [] = []"
  "printed (e # es) = (case e of Print Plain l None \<Rightarrow> [l] | _ \<Rightarrow> []) @ printed es"
  by (simp_all add: printed_def)

lemma boot_events_silent: "logged (boot_events os) = []" "printed (boot_events os) = []"
  by (auto simp: boot_events_def mount_events_def MountSys_def Let_def ask_def
      bind_comp_def or_power_off_def reboot_def emit_def ret_def split: option.splits)

lemma line_events_shown:
  "logged (concat (map line_events ls)) = unlines ls"
  "printed (concat (map line_events ls)) = filter (\<lambda>l. string_contains l ''zfs_ioctl.c'') ls"
  by (induction ls) (simp_all add: line_events_def unlines_def)

section \<open>Properties\<close>

text \<open>
  C40. The mark of success: the helper creates \<^verbatim>\<open>/successful\<close> exactly when it runs as the init
  process, \<^verbatim>\<open>/dev\<close> is mounted, no failure to mount the other three file systems switched the
  machine off, and the test binary succeeded.
\<close>

theorem testhelper_marks_success:
  "CreateFile ''/successful'' \<in> set (snd (helper_main os [])) \<longleftrightarrow>
     mounted os \<and> os_Run os ''/ioctl.test'' [''-test.v''] = None"
proof (cases "mounted os")
  case True
  have "CreateFile ''/successful'' \<notin> set (boot_events os)"
    by (simp add: boot_events_def mount_events_no_file)
  then show ?thesis
    using True grab_events_no_mark [of os] by (simp add: helper_main_mounted test_events_def)
qed (simp add: helper_main_not_mounted)

text \<open>
  The debug messages are kept: when the kernel's messages can be opened and the log can be
  created, and the status of successful tests could be written, the log is a copy of the messages
  (lines that fit the scanner's buffer and end in a newline) and exactly the lines that mention
  \<^verbatim>\<open>zfs_ioctl.c\<close> are printed, in order, whether or not the tests passed.
\<close>

theorem testhelper_keeps_messages:
  assumes "mounted os"
    and "os_Run os ''/ioctl.test'' [''-test.v''] = None \<longrightarrow> os_Create os ''/successful'' = None"
    and "os_Open os ''/proc/spl/kstat/zfs/dbgmsg'' = None" and "os_Create os ''zfsdebug.log'' = None"
    and "os_contents os ''/proc/spl/kstat/zfs/dbgmsg'' = unlines ls" and "list_all plain_line ls"
  shows "fst (helper_main os []) = Ok () \<and>
    logged (snd (helper_main os [])) = os_contents os ''/proc/spl/kstat/zfs/dbgmsg'' \<and>
    printed (snd (helper_main os [])) = filter (\<lambda>l. string_contains l ''zfs_ioctl.c'') ls"
proof -
  let ?grab = "[OpenFile ''/proc/spl/kstat/zfs/dbgmsg'', CreateFile ''zfsdebug.log''] @
      concat (map line_events ls) @ [SyncFile ''zfsdebug.log'', CloseFile ''zfsdebug.log'',
        CloseFile ''/proc/spl/kstat/zfs/dbgmsg'', CloseFile ''zfsdebug.log'']"
  have grab: "grab_events os = ?grab"
    using assms(3-6) by (simp add: grab_events_def scan_lines_unlines)
  have shown: "logged ?grab = unlines ls" "printed ?grab = filter (\<lambda>l. string_contains l ''zfs_ioctl.c'') ls"
    unfolding logged_append printed_append line_events_shown by simp_all
  have "logged (test_events os) = logged (grab_events os)" "printed (test_events os) = printed (grab_events os)"
    using assms(2) by (auto simp: test_events_def)
  then show ?thesis
    using shown assms(1,5) grab boot_events_silent [of os] by (simp add: helper_main_mounted)
qed

definition sample_os :: os where
  "sample_os = \<lparr>os_Getpid = 1, os_MkdirAll = (\<lambda>p. None), os_Mount = (\<lambda>s p t f. None),
     os_Run = (\<lambda>p as. Some (ErrText ''exit status 1'')), os_Create = (\<lambda>p. None), os_Open = (\<lambda>p. None),
     os_contents = (\<lambda>p. unlines [''zfs_ioctl.c: busy'', ''spa.c: txg 4'']), os_powers_off = True\<rparr>"

theorem testhelper_keeps_messages_witness:
  "logged (snd (helper_main sample_os [])) = unlines [''zfs_ioctl.c: busy'', ''spa.c: txg 4''] \<and>
   printed (snd (helper_main sample_os [])) = [''zfs_ioctl.c: busy'']"
proof -
  have "mounted sample_os" by (simp add: mounted_def survives_def sample_os_def)
  moreover have "list_all plain_line [''zfs_ioctl.c: busy'', ''spa.c: txg 4'']"
    by (simp add: plain_line_def newline_def carriage_return_def MaxScanTokenSize_def)
  moreover have "os_contents sample_os ''/proc/spl/kstat/zfs/dbgmsg'' = unlines [''zfs_ioctl.c: busy'', ''spa.c: txg 4'']"
    by (simp add: sample_os_def)
  ultimately show ?thesis
    using testhelper_keeps_messages [of sample_os "[''zfs_ioctl.c: busy'', ''spa.c: txg 4'']"]
    by (simp add: sample_os_def)
qed

end
