(* ===== verification/Spec2Isabelle.thy ===== *)
theory Spec2Isabelle
  imports Nv_Properties Nv_Typing Nv_Typed Zfs_Wrappers_Correct Zfs_Replies Zfs_Send Zfs_Receive_Sys Zfs_Trace Zfs_Testhelper
begin

text \<open>
  \<^bold>\<open>go-zfs: the nvlist codec and the ZFS ioctl wrappers\<close>

  The program is a Go library that talks to the ZFS kernel module. Package \<^verbatim>\<open>nvlist\<close> encodes Go
  values into the kernel's name-value lists and decodes them by reflection. Package \<^verbatim>\<open>ioctl\<close>
  puts such lists and a command structure into system calls: \<^verbatim>\<open>NvlistIoctl\<close> is the one place
  that issues them, some thirty wrappers call it, and \<^verbatim>\<open>Send\<close> and \<^verbatim>\<open>Receive\<close> run it in a
  goroutine that is connected to the caller by a pipe and channels. \<^verbatim>\<open>ioctl/trace\<close> is a tracer that
  prints the calls of another program, \<^verbatim>\<open>ioctl/testhelper\<close> the init process of the test machine.

  \<^bold>\<open>Conventions.\<close> A Go call has an outcome \<open>'a res\<close>: a value, an error, a panic, or
  \<open>Diverge\<close> when a recursion runs out of fuel or the program waits forever. Methods with a receiver pass it as state
  (\<open>('s, 'a) comp\<close>). Numbers in data and structures are words of the width of the source;
  positions in a byte slice are integers. A Go map is an association list in the order in which
  it is enumerated; every theorem holds for every such order.

  \<^bold>\<open>Theories.\<close>
  \<^item> \<open>Nv_Prelude\<close>: outcomes, sequencing, indexing, strings and bytes, padding, map updates.
  \<^item> \<open>Go_Binary\<close>: \<^verbatim>\<open>encoding/binary\<close> and \<^verbatim>\<open>io.ReadFull\<close>. The locale \<open>byte_codec\<close> is the contract
    of a byte order, interpreted for both; \<open>io_reader\<close> is the contract of a \<^verbatim>\<open>Read\<close> method,
    interpreted in \<open>Nv_Decoder_Safe\<close> for both readers of the decoder.
  \<^item> \<open>Go_Reflect\<close>: kinds, types, values and assignability as package \<^verbatim>\<open>reflect\<close> sees them, with
    \<^verbatim>\<open>unpackVal\<close>, \<^verbatim>\<open>unpackType\<close> and \<^verbatim>\<open>isEmptyValue\<close> of \<^verbatim>\<open>nvlist/encoder.go\<close>.
  \<^item> \<open>Nv_Types\<close>: \<^verbatim>\<open>nvlist/consts.go\<close> and \<^verbatim>\<open>nvlist/types.go\<close>.
  \<^item> \<open>Nv_Encoder\<close>, \<open>Nv_Decoder\<close>: \<^verbatim>\<open>nvlist/encoder.go\<close> and \<^verbatim>\<open>nvlist/decode.go\<close>, with
    \<^verbatim>\<open>nvlist/fuzz.go\<close>: one definition per method, the two large switches split by their cases.
  \<^item> \<open>Nv_Wire\<close>: the abstract specification, nvlist data and its bytes in either byte order.
  \<^item> \<open>Nv_Encoder_Correct\<close>, \<open>Nv_Encoder_Total\<close>: the encoder writes the bytes of the nvlist a
    value stands for; it always ends.
  \<^item> \<open>Nv_Decoder_Safe\<close>, \<open>Nv_Decoder_Correct\<close>: the decoder always ends, never panics for an untyped
    target, and reads the bytes of a well-formed nvlist as the map it stands for.
  \<^item> \<open>Nv_Struct\<close>: struct targets and struct tags.
  \<^item> \<open>Nv_Typing\<close>: well-typed Go values; decoding keeps the type of its target.
  \<^item> \<open>Nv_Typed\<close>: the reference definition of decoding, from an abstract nvlist into a value of any
    type, and its equivalence with \<^verbatim>\<open>Unmarshal\<close> on the bytes.
  \<^item> \<open>Nv_Roundtrip\<close>: the values that survive the trip; the locale \<open>value_codec\<close> is the contract of
    the codec, interpreted for \<^verbatim>\<open>Marshal\<close> and \<^verbatim>\<open>Unmarshal\<close> and used by the package \<^verbatim>\<open>ioctl\<close>.
  \<^item> \<open>Nv_Properties\<close>: the properties of the codec.
  \<^item> \<open>Zfs_Types\<close>: \<^verbatim>\<open>ioctl/types.go\<close> and its two platform files.
  \<^item> \<open>Zfs_Ioctl\<close>, \<open>Zfs_Ioctl_Correct\<close>: \<^verbatim>\<open>ioctl/ioctl.go\<close> and the delimited buffers; the kernel and
    the addresses of Go buffers are parameters.
  \<^item> \<open>Zfs_Wrappers\<close>, \<open>Zfs_Wrappers_Correct\<close>: the types and wrappers of \<^verbatim>\<open>ioctl/wrappers.go\<close>.
  \<^item> \<open>Zfs_Replies\<close>: replies of the kernel decoded into the types of the wrappers.
  \<^item> \<open>Go_Concurrent\<close>: buffered channels, bounded pipes, reachable states and schedules. The locale
    \<open>protocol\<close> is a step relation with an invariant, \<open>scheduled\<close> one whose steps are named by
    actions, \<open>winding_down\<close> one in which a measure falls until a goal is reached; the send and
    the receive stream interpret all three.
  \<^item> \<open>Zfs_Send\<close>: the send stream; goroutine, kernel and reader are interleaved by a step
    relation, with a bounded pipe that either side may close.
  \<^item> \<open>Zfs_Receive\<close>: the receive stream as functions: writes in arbitrary pieces, the goroutine's
    call and its result.
  \<^item> \<open>Zfs_Receive_Sys\<close>: the receive stream as a system: the caller's writes and its
    \<^verbatim>\<open>WaitAndClose\<close>, the goroutine and the kernel interleaved over the pipe and two channels.
  \<^item> \<open>Zfs_Trace\<close>: \<^verbatim>\<open>ioctl/trace/main.go\<close>; the traced process is a parameter, output is a list of events.
  \<^item> \<open>Zfs_Testhelper\<close>: \<^verbatim>\<open>ioctl/testhelper/main.go\<close> over the answers of the operating system.

  \<^bold>\<open>Results.\<close> C1 to C14 are the codec: refinement of the format by the encoder and the
  decoder, round trip, type safety, equivalence of decoding with its reference definition for
  every target type, absence of panics, termination, bad headers, repeated names, struct tags,
  and three ways in which encoding or decoding goes wrong. C15 to C21 are \<^verbatim>\<open>NvlistIoctl\<close>: requests
  arrive intact, the buffer grows until the answer fits, errors are passed on, at most five
  calls, no panic, names and their buffers. C22 to C27 are the wrappers, two of them from the
  caller to the kernel and back. C28 to C31 are the send stream: what is read is what the kernel
  wrote, no deadlock, errors before the first byte, and the end of the goroutine after a close.
  C32 to C37 are the receive stream: the kernel gets the stream, channels never block,
  \<^verbatim>\<open>WaitAndClose\<close> returns when the kernel ends, and the three cases in which the program hangs
  or crashes. C38 and C39 are the tracer, C40 the test helper.

  \<^bold>\<open>Bounds and fuel.\<close> The decoder's fuel is one more than the number of input bytes (each pair
  consumes at least four); the encoder's is one more than the size of the value. Both are
  shown to be enough for every input. The retry loop of \<^verbatim>\<open>NvlistIoctl\<close> ends because the
  buffer reaches its limit in the fifth attempt. The decoder itself limits arrays to 65535
  elements and sizes to 31 bits, which is where the well-formedness of an nvlist comes from.

  \<^bold>\<open>Not modelled.\<close> The tests, the generator stubs \<^verbatim>\<open>types_gen.go\<close> (input of \<^verbatim>\<open>cgo -godefs\<close>, excluded
  from the build), the C headers, the texts of formatted errors beyond their fixed part, the
  layout of the command structure in memory (the third-party package of the tracer), and the
  kernel, the traced process and the operating system, which are parameters. A caller that
  uses a receive stream from several goroutines at once, or after \<^verbatim>\<open>WaitAndClose\<close>, is outside the
  model of \<open>Zfs_Receive_Sys\<close>.
\<close>

section \<open>Codec and system call\<close>


text \<open>A kernel that fails unless the request is the empty list, and one that never does.\<close>

definition strict_kernel :: "unit kernel" where
  "strict_kernel fd ioctl c m k =
     (\<lparr>rp_errno = (if decode_any (um_src m) = Ok (VMap TAnyMap (Some [])) then 0 else 22), rp_cmd = c, rp_dst = []\<rparr>, ())"

definition lax_kernel :: "unit kernel" where
  "lax_kernel fd ioctl c m k = (\<lparr>rp_errno = 0, rp_cmd = c, rp_dst = []\<rparr>, ())"


end
